(* ===== verification/Prelude.thy ===== *)
theory Prelude
  imports Main "HOL-Library.List_Lexorder"
begin

text \<open>
  Shared vocabulary of the development: JavaScript strings, the string operations the source
  uses (with the semantics of ECMAScript, so every one of them is total here exactly where it is
  total there), and the lemmas about them that the component theories rely on.

  A JavaScript string is a sequence of UTF-16 code units. The model is a list of natural numbers
  (\<open>jstr\<close>): \<open>length\<close> then counts what \<open>.length\<close> counts, and the lexicographic order of
  \<open>HOL-Library.List_Lexorder\<close> is the order \<open>Array.prototype.sort\<close> uses on strings.
  \<open>js ''abc''\<close> is a literal of the source; a unit beyond Latin-1 is written by its number
  (8212 is an em dash, 8211 an en dash, 8230 an ellipsis, 183 a middle dot).
\<close>

section \<open>Collections of facts\<close>

named_theorems js_eval "definitions that a witness unfolds to evaluate string operations"
named_theorems js_props "characteristic facts of the string operations"

lemma fst_comp_Pair [simp]: "map (\<lambda>x. fst (f x, g x)) xs = map f xs"
  by simp

section \<open>Strings\<close>

type_synonym jstr = "nat list"

definition js :: "string \<Rightarrow> jstr" where
  "js s = map of_char s"

declare js_def [js_eval]

lemma js_eq_iff [simp]: "js s = js t \<longleftrightarrow> s = t"
  by (simp add: js_def inj_map_eq_map inj_on_def)

lemma js_Nil [simp]: "js [] = []" "js s = [] \<longleftrightarrow> s = []" "[] = js s \<longleftrightarrow> s = []"
  by (auto simp: js_def)

lemma js_append: "js (s @ t) = js s @ js t"
  by (simp add: js_def)

lemma length_js [simp]: "length (js s) = length s"
  by (simp add: js_def)

abbreviation LF :: nat where "LF \<equiv> 10"
abbreviation CR :: nat where "CR \<equiv> 13"
abbreviation slash :: nat where "slash \<equiv> 47"

text \<open>The character classes of the source's regular expressions and of \<open>trim\<close>.\<close>

definition is_ws :: "nat \<Rightarrow> bool" where
  "is_ws c \<longleftrightarrow> (9 \<le> c \<and> c \<le> 13) \<or> c = 32 \<or> c = 160 \<or> c = 5760 \<or> (8192 \<le> c \<and> c \<le> 8202)
     \<or> c = 8232 \<or> c = 8233 \<or> c = 8239 \<or> c = 8287 \<or> c = 12288 \<or> c = 65279"

definition is_lt :: "nat \<Rightarrow> bool" where
  "is_lt c \<longleftrightarrow> c = LF \<or> c = CR \<or> c = 8232 \<or> c = 8233"

definition is_digit :: "nat \<Rightarrow> bool" where
  "is_digit c \<longleftrightarrow> 48 \<le> c \<and> c \<le> 57"

definition is_word :: "nat \<Rightarrow> bool" where
  "is_word c \<longleftrightarrow> is_digit c \<or> (65 \<le> c \<and> c \<le> 90) \<or> c = 95 \<or> (97 \<le> c \<and> c \<le> 122)"

declare is_ws_def [js_eval] is_lt_def [js_eval] is_digit_def [js_eval] is_word_def [js_eval]

lemma is_lt_ws [js_props]: "is_lt c \<Longrightarrow> is_ws c"
  by (auto simp: is_lt_def is_ws_def)

lemma is_digit_word [js_props]: "is_digit c \<Longrightarrow> is_word c"
  by (simp add: is_word_def)

section \<open>Prefixes, suffixes, substrings\<close>

fun strip_prefix :: "jstr \<Rightarrow> jstr \<Rightarrow> jstr option" where
  "strip_prefix [] s = Some s"
| "strip_prefix (p # ps) [] = None"
| "strip_prefix (p # ps) (c # cs) = (if p = c then strip_prefix ps cs else None)"

lemma strip_prefix_append [simp]: "strip_prefix p (p @ s) = Some s"
  by (induction p) auto

lemma strip_prefix_eq_Some [js_props]: "strip_prefix p s = Some r \<longleftrightarrow> s = p @ r"
  by (induction p s rule: strip_prefix.induct) auto

lemma strip_prefix_eq_None [js_props]: "strip_prefix p s = None \<longleftrightarrow> (\<nexists>r. s = p @ r)"
  by (metis option.distinct(1) option.exhaust strip_prefix_eq_Some)

definition starts_with :: "jstr \<Rightarrow> jstr \<Rightarrow> bool" where
  "starts_with p s \<longleftrightarrow> strip_prefix p s \<noteq> None"

lemma starts_with_iff [js_props]: "starts_with p s \<longleftrightarrow> (\<exists>r. s = p @ r)"
  by (auto simp: starts_with_def strip_prefix_eq_Some)

definition strip_suffix :: "jstr \<Rightarrow> jstr \<Rightarrow> jstr option" where
  "strip_suffix p s = map_option rev (strip_prefix (rev p) (rev s))"

lemma strip_suffix_eq_Some [js_props]: "strip_suffix p s = Some r \<longleftrightarrow> s = r @ p"
  by (auto simp: strip_suffix_def strip_prefix_eq_Some rev_eq_append_conv) (metis rev_rev_ident)

lemma strip_suffix_append [simp]: "strip_suffix p (r @ p) = Some r"
  by (simp add: strip_suffix_eq_Some)

definition ends_with :: "jstr \<Rightarrow> jstr \<Rightarrow> bool" where
  "ends_with p s \<longleftrightarrow> strip_suffix p s \<noteq> None"

lemma ends_with_iff [js_props]: "ends_with p s \<longleftrightarrow> (\<exists>r. s = r @ p)"
  by (auto simp: ends_with_def strip_suffix_eq_Some)

fun includes_str :: "jstr \<Rightarrow> jstr \<Rightarrow> bool" where
  "includes_str [] n \<longleftrightarrow> n = []"
| "includes_str (c # cs) n \<longleftrightarrow> starts_with n (c # cs) \<or> includes_str cs n"

lemma includes_iff [js_props]: "includes_str s n \<longleftrightarrow> (\<exists>a b. s = a @ n @ b)"
proof (induction s)
  case (Cons c s)
  have "(\<exists>a b. c # s = a @ n @ b) \<longleftrightarrow> (\<exists>b. c # s = n @ b) \<or> (\<exists>a b. s = a @ n @ b)"
    by (metis append_Cons append_Nil list.exhaust list.inject)
  with Cons show ?case by (simp add: starts_with_iff)
qed simp

section \<open>Joining, splitting, trimming, replacing\<close>

fun join :: "jstr \<Rightarrow> jstr list \<Rightarrow> jstr" where
  "join sep [] = []"
| "join sep [x] = x"
| "join sep (x # y # ys) = x @ sep @ join sep (y # ys)"

lemma join_Cons: "join sep (x # xs) = x @ (if xs = [] then [] else sep @ join sep xs)"
  by (cases xs) auto

lemma set_join: "set (join sep xs) \<subseteq> set sep \<union> \<Union> (set ` set xs)"
  by (induction sep xs rule: join.induct) auto

text \<open>\<open>s.split(d)\<close> for a one-unit separator.\<close>

fun split_char :: "nat \<Rightarrow> jstr \<Rightarrow> jstr list" where
  "split_char d [] = [[]]"
| "split_char d (c # cs) =
     (if c = d then [] # split_char d cs
      else (case split_char d cs of [] \<Rightarrow> [[c]] | x # xs \<Rightarrow> (c # x) # xs))"

lemma split_char_neq_Nil [simp]: "split_char d s \<noteq> []"
  by (cases s) (auto split: list.splits)

lemma join_split_char [simp]: "join [d] (split_char d s) = s"
proof (induction s)
  case (Cons c s)
  then show ?case
    by (cases "split_char d s") (auto simp: join_Cons)
qed simp

lemma split_char_parts: "x \<in> set (split_char d s) \<Longrightarrow> d \<notin> set x"
proof (induction s arbitrary: x)
  case (Cons c s)
  then show ?case
    by (cases "split_char d s") (auto split: if_splits)
qed simp

lemma set_split_char: "x \<in> set (split_char d s) \<Longrightarrow> set x \<subseteq> set s"
proof (induction s arbitrary: x)
  case (Cons c s)
  then show ?case
    by (cases "split_char d s") (fastforce split: if_splits)+
qed simp

lemma split_char_no_sep: "d \<notin> set s \<Longrightarrow> split_char d s = [s]"
  by (induction s) auto

lemma split_char_append: "d \<notin> set x \<Longrightarrow> split_char d (x @ d # r) = x # split_char d r"
  by (induction x) auto

lemma split_char_append_sep: "split_char d (x @ d # r) = split_char d x @ split_char d r"
proof (induction x)
  case (Cons c x)
  then show ?case by (cases "split_char d x") auto
qed simp

lemma split_char_join:
  "xs \<noteq> [] \<Longrightarrow> \<forall>x \<in> set xs. d \<notin> set x \<Longrightarrow> split_char d (join [d] xs) = xs"
  by (induction "[d]" xs rule: join.induct) (auto simp: split_char_no_sep split_char_append)

text \<open>Splitting a list joined with the separator and one more unit, such as \<open>"; "\<close>.\<close>

lemma split_char_join2:
  "xs \<noteq> [] \<Longrightarrow> \<forall>x \<in> set xs. d \<notin> set x \<Longrightarrow> e \<noteq> d \<Longrightarrow>
     split_char d (join [d, e] xs) = hd xs # map (Cons e) (tl xs)"
proof (induction "[d, e]" xs rule: join.induct)
  case (3 x y ys)
  have "split_char d (e # s) = (e # hd (split_char d s)) # tl (split_char d s)" for s
    using 3(4) by (cases "split_char d s") auto
  with 3 show ?case by (simp add: split_char_append)
qed (auto simp: split_char_no_sep)

lemma length_split_char: "length (split_char d s) = Suc (count_list s d)"
  by (induction s) (auto split: list.splits)

lemma last_split_char_no_sep: "d \<notin> set (last (split_char d s))"
  by (meson last_in_set split_char_neq_Nil split_char_parts)

definition trim_start :: "jstr \<Rightarrow> jstr" where
  "trim_start s = dropWhile is_ws s"

definition trim_end :: "jstr \<Rightarrow> jstr" where
  "trim_end s = rev (dropWhile is_ws (rev s))"

definition trim :: "jstr \<Rightarrow> jstr" where
  "trim s = trim_end (trim_start s)"

declare trim_start_def [js_eval] trim_end_def [js_eval] trim_def [js_eval]

lemma trim_end_takeWhile: "\<exists>ws. s = trim_end s @ ws \<and> (\<forall>c \<in> set ws. is_ws c)"
proof -
  have "s = rev (dropWhile is_ws (rev s)) @ rev (takeWhile is_ws (rev s))"
    by (metis rev_append rev_rev_ident takeWhile_dropWhile_id)
  then show ?thesis
    unfolding trim_end_def by (metis set_rev set_takeWhileD)
qed

lemma set_trim: "set (trim s) \<subseteq> set s"
  by (auto simp: trim_def trim_start_def trim_end_def dest!: set_dropWhileD)

lemma length_trim: "length (trim s) \<le> length s"
proof -
  have "length (trim_end t) \<le> length t" for t
    by (metis trim_end_def length_dropWhile_le length_rev)
  then show ?thesis
    by (metis trim_def trim_start_def length_dropWhile_le order_trans)
qed

lemma trim_end_id: "s = [] \<or> \<not> is_ws (last s) \<Longrightarrow> trim_end s = s"
  by (cases s rule: rev_cases) (auto simp: trim_end_def)

lemma trim_start_id: "s = [] \<or> \<not> is_ws (hd s) \<Longrightarrow> trim_start s = s"
  by (cases s) (auto simp: trim_start_def)

lemma trim_end_append_ws: "\<forall>c \<in> set ws. is_ws c \<Longrightarrow> trim_end (s @ ws) = trim_end s"
  by (auto simp: trim_end_def intro!: dropWhile_append2)

lemma trim_start_append_ws: "\<forall>c \<in> set ws. is_ws c \<Longrightarrow> trim_start (ws @ s) = trim_start s"
  by (simp add: trim_start_def dropWhile_append2)

text \<open>A global replacement of one code unit, \<open>s.replace(/c/g, r)\<close>.\<close>

definition replace_unit :: "nat \<Rightarrow> jstr \<Rightarrow> jstr \<Rightarrow> jstr" where
  "replace_unit c r s = concat (map (\<lambda>x. if x = c then r else [x]) s)"

declare replace_unit_def [js_eval]

lemma replace_unit_simps [simp]:
  "replace_unit c r [] = []"
  "replace_unit c r (x # xs) = (if x = c then r else [x]) @ replace_unit c r xs"
  "replace_unit c r (xs @ ys) = replace_unit c r xs @ replace_unit c r ys"
  by (simp_all add: replace_unit_def)

section \<open>Numbers\<close>

text \<open>\<open>String(n)\<close> for a non-negative integer below \<open>1e21\<close>, and the value of a digit string.\<close>

fun show_nat :: "nat \<Rightarrow> jstr" where
  "show_nat n = (if n < 10 then [48 + n] else show_nat (n div 10) @ [48 + n mod 10])"

declare show_nat.simps [simp del]

definition nat_of_digits :: "jstr \<Rightarrow> nat" where
  "nat_of_digits ds = foldl (\<lambda>a c. 10 * a + (c - 48)) 0 ds"

lemma nat_of_digits_snoc: "nat_of_digits (ds @ [c]) = 10 * nat_of_digits ds + (c - 48)"
  by (simp add: nat_of_digits_def)

lemma nat_of_show_nat [simp]: "nat_of_digits (show_nat n) = n"
proof (induction n rule: show_nat.induct)
  case (1 n)
  show ?case
  proof (cases "n < 10")
    case True
    then show ?thesis by (subst show_nat.simps) (simp add: nat_of_digits_def)
  next
    case False
    with 1 show ?thesis by (subst show_nat.simps) (simp add: nat_of_digits_snoc)
  qed
qed

lemma show_nat_inject [simp]: "show_nat m = show_nat n \<longleftrightarrow> m = n"
  by (metis nat_of_show_nat)

lemma show_nat_digits: "\<forall>c \<in> set (show_nat n). is_digit c"
proof (induction n rule: show_nat.induct)
  case (1 n)
  then show ?case by (subst show_nat.simps) (auto simp: is_digit_def)
qed

lemma show_nat_neq_Nil [simp]: "show_nat n \<noteq> []"
  by (subst show_nat.simps) simp

definition show_int :: "int \<Rightarrow> jstr" where
  "show_int i = (if i < 0 then 45 # show_nat (nat (- i)) else show_nat (nat i))"

section \<open>JavaScript truthiness and nullish values\<close>

text \<open>
  \<open>undefined\<close> (and \<open>null\<close>) is \<^term>\<open>None\<close>. A string is falsy when it is absent or empty;
  \<open>a || b\<close> and \<open>a ?? b\<close> differ exactly on the empty string.
\<close>

definition truthy :: "jstr option \<Rightarrow> bool" where
  "truthy v \<longleftrightarrow> v \<noteq> None \<and> v \<noteq> Some []"

definition or_else :: "jstr option \<Rightarrow> jstr \<Rightarrow> jstr" where
  "or_else v d = (if truthy v then the v else d)"

definition nullish :: "'a option \<Rightarrow> 'a \<Rightarrow> 'a" where
  "nullish v d = (case v of None \<Rightarrow> d | Some x \<Rightarrow> x)"

lemma truthy_simps [simp]:
  "\<not> truthy None" "\<not> truthy (Some [])" "truthy (Some (c # cs))"
  by (simp_all add: truthy_def)

lemma truthy_Some: "truthy (Some s) \<longleftrightarrow> s \<noteq> []"
  by (simp add: truthy_def)

lemma truthy_iff: "truthy v \<longleftrightarrow> (\<exists>s. v = Some s \<and> s \<noteq> [])"
  by (cases v) (auto simp: truthy_def)

lemma nullish_simps [simp]: "nullish None d = d" "nullish (Some x) d = x"
  by (simp_all add: nullish_def)

section \<open>Generic lemmas\<close>

lemma takeWhile_append_stop:
  "\<forall>x \<in> set xs. P x \<Longrightarrow> \<not> P y \<Longrightarrow> takeWhile P (xs @ y # ys) = xs"
  "\<forall>x \<in> set xs. P x \<Longrightarrow> \<not> P y \<Longrightarrow> dropWhile P (xs @ y # ys) = y # ys"
  by (simp_all add: takeWhile_append2 dropWhile_append2)

lemma find_Some_mem: "find P xs = Some x \<Longrightarrow> x \<in> set xs \<and> P x"
  by (auto simp: find_Some_iff)

lemma find_None_ball: "find P xs = None \<longleftrightarrow> (\<forall>x \<in> set xs. \<not> P x)"
  by (auto simp: find_None_iff)

end
