(* ===== verification/Content.thy ===== *)
theory Content
  imports Prelude
begin

text \<open>
  \<^verbatim>\<open>web/content/site.ts\<close>, \<^verbatim>\<open>pricing.ts\<close>, \<^verbatim>\<open>product.ts\<close> and \<^verbatim>\<open>home.ts\<close>: the texts and the link
  targets of the marketing site, as records and lists. The pages that render them are in
  \<open>SitePages\<close>.
\<close>

section \<open>Shared records\<close>

record link = l_href :: jstr  l_label :: jstr

section \<open>The site\<close>

record site_data =
  s_name :: jstr
  s_description :: jstr
  s_githubUrl :: jstr
  s_docsUrl :: jstr
  s_licenseName :: jstr
  s_licenseUrl :: jstr
  s_nav :: "link list"

definition site :: site_data where
  "site = \<lparr>
     s_name = js ''Agentic Warden'',
     s_description = js ''Agentic Warden is the enterprise control plane for AI coding agents. Author one policy and govern Claude Code, Codex and Antigravity CLI (gateway and models) by group and by repository.'',
     s_githubUrl = js ''https://github.com/alchristleo/agentic-warden'',
     s_docsUrl = js ''/docs'',
     s_licenseName = js ''Apache-2.0'',
     s_licenseUrl = js ''https://github.com/alchristleo/agentic-warden/blob/main/LICENSE'',
     s_nav = [\<lparr>l_href = js ''/product'', l_label = js ''Product''\<rparr>,
              \<lparr>l_href = js ''/pricing'', l_label = js ''Pricing''\<rparr>]\<rparr>"

section \<open>Pricing\<close>

datatype plan_id = Team | Enterprise | SelfHosted

fun plan_value :: "plan_id \<Rightarrow> jstr" where
  "plan_value Team = js ''team''"
| "plan_value Enterprise = js ''enterprise''"
| "plan_value SelfHosted = js ''self-hosted''"

definition planIds :: "plan_id list" where
  "planIds = [Team, Enterprise, SelfHosted]"

record tier =
  t_id :: plan_id
  t_name :: jstr
  t_badge :: "jstr option"
  t_summary :: jstr
  t_price :: jstr
  t_features :: "jstr list"
  t_cta :: jstr

record pricing_data =
  pr_title :: jstr
  pr_lede :: jstr
  pr_tiers :: "tier list"
  pr_columns :: "jstr list"
  pr_rows :: "(jstr \<times> jstr list) list"
  pr_faq :: "(jstr \<times> jstr) list"

definition pricing_tiers :: "tier list" where
  "pricing_tiers = [
     \<lparr>t_id = Team, t_name = js ''Team'', t_badge = Some (js ''Coming soon''),
      t_summary = js ''Hosted for you. For teams that want governance without running a control plane.'',
      t_price = js ''Contact us'',
      t_features = [js ''Hosted console'',
        js ''Claude Code, Codex and Antigravity CLI (gateway and models)'',
        js ''Group and repository targeting'',
        js ''Signed bundles''],
      t_cta = js ''Request demo''\<rparr>,
     \<lparr>t_id = Enterprise, t_name = js ''Enterprise'', t_badge = None,
      t_summary = js ''For organizations provisioning users from an identity provider.'',
      t_price = js ''Contact us'',
      t_features = [js ''Everything in Team'',
        js ''SCIM provisioning (Okta, Entra ID)'',
        js ''Rollout help for your policy'',
        js ''Self-hosted today; hosted when the console launches''],
      t_cta = js ''Request demo''\<rparr>,
     \<lparr>t_id = SelfHosted, t_name = js ''Self-hosted'', t_badge = None,
      t_summary = js ''Apache-2.0 source. Run the control plane on your own infrastructure.'',
      t_price = js ''Contact us'',
      t_features = [js ''Control plane on your servers'',
        js ''PostgreSQL storage'',
        js ''Every agent and targeting feature'',
        js ''Talk to us for rollout help''],
      t_cta = js ''Talk to us''\<rparr>]"

definition pricing_rows :: "(jstr \<times> jstr list) list" where
  "pricing_rows = [
     (js ''Claude Code, Codex and Antigravity CLI (gateway and models)'',
      [js ''Yes'', js ''Yes'', js ''Yes'']),
     (js ''Group and repository targeting'',
      [js ''Yes'', js ''Yes'', js ''Yes'']),
     (js ''Signed bundles'',
      [js ''Yes'', js ''Yes'', js ''Yes'']),
     (js ''SCIM provisioning'',
      [[8212], js ''Yes'', js ''Yes'']),
     (js ''Hosted console'',
      [js ''Coming soon'', js ''Coming soon'', [8212]]),
     (js ''Runs on your infrastructure'',
      [[8212], js ''Yes (hosted coming soon)'', js ''Yes''])]"

definition pricing_faq :: "(jstr \<times> jstr) list" where
  "pricing_faq = [
     (js ''Does it replace Claude Code's managed settings?'',
      js ''No. It builds on them. The sync agent writes the managed-settings drop-in that names the policy helper, and the helper computes the settings for each session.''),
     (js ''What happens if the control plane is down?'',
      js ''Nothing changes for developers. The helper reads the last synced bundle on disk, so Claude Code keeps starting with the last policy it received.''),
     (js ''Can a developer bypass it by running claude directly?'',
      js ''Not for Claude Code outside the copy your organization installs: the policy helper runs on every launch of that copy, wrapper or not. For Codex the machine-wide files always apply; repository-specific rules apply when launched through aw codex.''),
     (js ''Which identity providers work?'',
      js ''Okta and Microsoft Entra ID. The endpoint speaks SCIM 2.0 and handles the request shapes those two send.''),
     (js ''Is the hosted console available?'',
      js ''Not yet. Self-host awd today; its /console/ is opt-in via AWD_PUBLIC_URL and AWD_CONSOLE_*. Choose Team or pick hosted on the demo form and we will contact you when early access opens.''),
     (js ''How much does it cost?'',
      js ''Pricing depends on the plan and the size of your organization. Request a demo and we will send a quote.'')]"

definition pricing :: pricing_data where
  "pricing = \<lparr>
     pr_title = js ''Pricing'',
     pr_lede = js ''Every plan starts with a conversation about the agents and rules you run today.'',
     pr_tiers = pricing_tiers,
     pr_columns = [js ''Team'', js ''Enterprise'', js ''Self-hosted''],
     pr_rows = pricing_rows,
     pr_faq = pricing_faq\<rparr>"

section \<open>Product\<close>

record feature = f_id :: jstr  f_title :: jstr  f_body :: jstr

record product_data =
  p_title :: jstr
  p_lede :: jstr
  p_features :: "feature list"
  p_console :: feature
  p_badge :: jstr
  p_cta :: link

definition product_features :: "feature list" where
  "product_features = [
     \<lparr>f_id = js ''targeting'', f_title = js ''Group and repository targeting'',
      f_body = js ''Rules match on identity-provider groups and on repository globs. Later rules override earlier ones per key, and permission lists union, so precedence is the order you write.''\<rparr>,
     \<lparr>f_id = js ''signed-bundles'', f_title = js ''Signed bundles'',
      f_body = js ''When you configure a signing key, the control plane signs each machine's bundle and aw-sync verifies it against the key pinned at enrollment before writing anything, so tampering with a bundle is detected before it reaches an agent. Machines enrolled before the key was set pin nothing and need re-enrolling. Signing detects tampering; it cannot stop a root user. Details: /docs/security-model.''\<rparr>,
     \<lparr>f_id = js ''scim'', f_title = js ''SCIM provisioning'',
      f_body = js ''A SCIM 2.0 endpoint accepts users and groups from Okta and Microsoft Entra ID. Provisioned groups join authored groups and snapshots when rules are resolved.''\<rparr>,
     \<lparr>f_id = js ''sync'', f_title = js ''Scheduled sync on every OS'',
      f_body = js ''aw-sync install-timer installs a systemd timer on Linux, a launchd daemon on macOS or a scheduled task on Windows. On Linux and macOS it refuses to schedule a binary a non-root user could replace.''\<rparr>,
     \<lparr>f_id = js ''fail-safe'', f_title = js ''Fails open by default, closed when you choose'',
      f_body = js ''The policy helper works offline from the last synced bundle and validates its output against Claude Code's settings schema, so a network outage never blocks a developer. On a missing or bad bundle it fails open and Claude Code falls back to the static managed files, unless you set requireBundle to refuse to start instead.''\<rparr>,
     \<lparr>f_id = js ''doctor'', f_title = js ''aw doctor'',
      f_body = js ''One command shows each agent's compiled policy, which repository it was compiled for, when the machine last synced, and any setting that shadows the managed ones.''\<rparr>]"

definition product :: product_data where
  "product = \<lparr>
     p_title = js ''Govern coding agents like the rest of your fleet'',
     p_lede = js ''Agentic Warden is a control plane, a sync agent and a launch-time helper. Together they turn one policy into the right settings for every developer, repository and agent.'',
     p_features = product_features,
     p_console = \<lparr>f_id = js ''console'', f_title = js ''Hosted console'',
      f_body = js ''Manage policy, groups and enrolled machines from a browser, without running the control plane yourself. Until it launches, self-host awd, whose /console/ is opt-in via AWD_PUBLIC_URL and AWD_CONSOLE_*.''\<rparr>,
     p_badge = js ''Coming soon'',
     p_cta = \<lparr>l_href = js ''/demo?plan=team'', l_label = js ''Join early access''\<rparr>\<rparr>"

section \<open>Home\<close>

record home_data =
  h_eyebrow :: jstr
  h_title :: jstr
  h_lede :: jstr
  h_primaryCta :: link
  h_secondaryCta :: link
  h_terminal :: "(jstr \<times> jstr) list"
  h_policy :: jstr
  h_problem :: "jstr \<times> (jstr \<times> jstr) list"
  h_steps :: "jstr \<times> (jstr \<times> jstr \<times> jstr) list"
  h_agents :: "jstr \<times> (jstr \<times> jstr) list"
  h_closing :: "jstr \<times> jstr \<times> link"

definition home_policy :: jstr where
  "home_policy = join [LF] [
     js ''rules:'',
     js ''  - name: baseline'',
     js ''    agents:'',
     js ''      claude:'',
     js ''        managed:'',
     js ''          permissions:'',
     js ''            deny:'',
     js ''              - Read(./.env)'',
     js ''          allowManagedPermissionRulesOnly: true'',
     js ''  - name: payments-repos'',
     js ''    match:'',
     js ''      repos: ['' @ [34] @ js ''github.com/acme/payments*'' @ [34] @ js '']'',
     js ''    agents:'',
     js ''      claude:'',
     js ''        managed:'',
     js ''          permissions:'',
     js ''            deny:'',
     js ''              - Bash(curl *)'']"

definition home :: home_data where
  "home = \<lparr>
     h_eyebrow = js ''Claude Code '' @ [183] @ js '' Codex '' @ [183] @ js '' Antigravity CLI'',
     h_title = js ''One policy for your coding agents'',
     h_lede = js ''Write your organization's rules once. Every developer session gets the slice that applies to their groups and the repository they are in. For Claude Code it applies at launch, even when nobody types the wrapper.'',
     h_primaryCta = \<lparr>l_href = js ''/demo'', l_label = js ''Request demo''\<rparr>,
     h_secondaryCta = \<lparr>l_href = js ''/product'', l_label = js ''See how it works''\<rparr>,
     h_terminal = [(js ''# on the control plane'',
         js ''awd apply org-policy.yaml''),
        (js ''# once per machine, as root'',
         js ''aw-sync install-timer''),
        (js ''# developers keep typing what they type'',
         js ''claude'')],
     h_policy = home_policy,
     h_problem = (js ''What the vendor consoles leave uncovered'',
       [(js ''Rules per repository'',
         js ''Managed settings apply machine-wide. A payments repository and a sandbox get the same rules unless something targets the repository itself.''),
        (js ''Rules per group on Claude Code seats'',
         js ''Claude Code on claude.ai seats takes one policy for the whole organization; the console cannot target a group. Codex on ChatGPT plans can, through OpenAI's Agent Security.''),
        (js ''More than one agent'',
         js ''Teams run Claude Code, Codex and Antigravity CLI side by side. Each has its own settings format, and none reads the others'.'')]),
     h_steps = (js ''How it works'',
       [(js ''awd'', js ''Author one policy'',
         js ''The control plane holds your rules, your groups and your SCIM-provisioned users, and builds a bundle for each enrolled machine '' @ [8212] @ js '' signed, when you configure a signing key.''),
        (js ''aw-sync'', js ''Deliver it to every machine'',
         js ''A root-owned timer fetches the machine's bundle, signed on machines enrolled after you set a signing key, and writes each agent's managed settings in the agent's own format.''),
        (js ''policyHelper'', js ''Enforce it at launch'',
         js ''Claude Code runs the helper on every start, including a bare claude, and the helper applies the rules for the repository the session is in.'')]),
     h_agents = (js ''Governs the agents your developers use'',
       [(js ''Claude Code'',
         js ''Managed settings and a policy helper computed per repository at every launch.''),
        (js ''Codex'',
         js ''A machine-wide requirements.toml, plus repository rules through aw codex.''),
        (js ''Antigravity CLI'',
         js ''Gateway and models only, from a machine-wide admin file when you enroll agy.'')]),
     h_closing = (js ''See it against your own policy'',
       js ''Bring the rules you enforce today. We will show you how they map to groups and repositories.'',
       \<lparr>l_href = js ''/demo'', l_label = js ''Request demo''\<rparr>)\<rparr>"

lemma planIds_all [simp]: "p \<in> set planIds"
  by (cases p) (simp_all add: planIds_def)

lemma plan_value_inject [simp]: "plan_value p = plan_value q \<longleftrightarrow> p = q"
  by (cases p; cases q) simp_all

lemma plan_value_neq_Nil [simp]: "plan_value p \<noteq> []"
  by (cases p) simp_all

text \<open>The pricing table is consistent: the tiers are exactly the plans the demo form accepts, in
  the same order and without repetition, and every row of the comparison has a value for each
  column, of which there is one per tier, named like it.\<close>

theorem pricing_consistent:
  "map t_id (pr_tiers pricing) = planIds \<and> distinct planIds \<and>
   pr_columns pricing = map t_name (pr_tiers pricing) \<and>
   list_all (\<lambda>(f, values). length values = length (pr_columns pricing)) (pr_rows pricing)"
  by (simp add: pricing_def pricing_tiers_def pricing_rows_def planIds_def)

end
