(* ===== verification/DemoSchema.thy ===== *)
theory DemoSchema
  imports Content
begin

text \<open>
  \<^verbatim>\<open>web/lib/demo/schema.ts\<close>: the options of the demo form, its validation schema, the webmail hint
  and the plan parameter. The schema is translated as data. The validator that interprets it,
  \<^verbatim>\<open>zod\<close>, is a third-party package: it is a parameter of the model, and the locale \<open>zod\<close> states what
  its documentation promises of the combinators this schema uses. \<open>zod_ref\<close> is one function that
  satisfies those promises, so that nothing proved under them is empty.
\<close>

section \<open>Options\<close>

definition sizeOptions :: "(jstr \<times> jstr) list" where
  "sizeOptions =
     [(js ''1-50'', js ''1'' @ [8211] @ js ''50''),
      (js ''51-500'', js ''51'' @ [8211] @ js ''500''),
      (js ''500+'', js ''500+'')]"

definition agentOptions :: "(jstr \<times> jstr) list" where
  "agentOptions =
     [(js ''claude-code'', js ''Claude Code''), (js ''codex'', js ''Codex''),
      (js ''agy'', js ''agy (Antigravity CLI)''), (js ''other'', js ''Other'')]"

definition deploymentOptions :: "(jstr \<times> jstr) list" where
  "deploymentOptions =
     [(js ''self-hosted'', js ''Self-hosted''), (js ''hosted'', js ''Hosted by us''),
      (js ''unsure'', js ''Not sure yet'')]"

definition option_values :: "(jstr \<times> jstr) list \<Rightarrow> jstr list" where
  "option_values opts = map fst opts"

section \<open>Schemas as data\<close>

text \<open>A value of the form: a string or an array of strings; \<open>undefined\<close> is \<^term>\<open>None\<close>.\<close>

datatype zval = ZStr jstr | ZArr "jstr list"

datatype zcheck = ZTrim | ZMin nat jstr | ZMax nat jstr

datatype zschema =
    ZString "zcheck list"
  | ZEmail jstr
  | ZPipe zschema zschema
  | ZEnum "jstr list" "jstr option"
  | ZArray zschema "zcheck list"
  | ZOptional zschema

type_synonym shape = "(jstr \<times> zschema) list"

record issue =
  i_path :: "jstr list"
  i_message :: jstr

definition name_schema :: zschema where
  "name_schema = ZString [ZTrim, ZMin 1 (js ''Enter your name.''), ZMax 100 (js ''Use at most 100 characters.'')]"

definition email_schema :: zschema where
  "email_schema = ZPipe (ZString [ZTrim, ZMax 254 (js ''Use at most 254 characters.'')])
     (ZEmail (js ''Enter a valid email address.''))"

definition company_schema :: zschema where
  "company_schema = ZString [ZTrim, ZMin 1 (js ''Enter your company.''), ZMax 100 (js ''Use at most 100 characters.'')]"

definition demoSchema :: shape where
  "demoSchema =
     [(js ''name'', name_schema),
      (js ''email'', email_schema),
      (js ''company'', company_schema),
      (js ''size'', ZEnum (option_values sizeOptions) (Some (js ''Choose a company size.''))),
      (js ''agents'', ZArray (ZEnum (option_values agentOptions) None) [ZMin 1 (js ''Choose at least one agent.'')]),
      (js ''deployment'', ZEnum (option_values deploymentOptions) (Some (js ''Choose a deployment.''))),
      (js ''plan'', ZOptional (ZEnum (map plan_value planIds) None)),
      (js ''message'', ZOptional (ZString [ZTrim, ZMax 2000 (js ''Use at most 2000 characters.'')]))]"

section \<open>What the validator promises\<close>

fun check_ok :: "nat \<Rightarrow> zcheck \<Rightarrow> bool" where
  "check_ok n ZTrim = True"
| "check_ok n (ZMin k m) = (k \<le> n)"
| "check_ok n (ZMax k m) = (n \<le> k)"

locale zod =
  fixes isEmail :: "jstr \<Rightarrow> bool"
    and run :: "zschema \<Rightarrow> zval option \<Rightarrow> jstr list + zval option"
    and safeParse :: "shape \<Rightarrow> (jstr \<Rightarrow> zval option) \<Rightarrow> issue list + (jstr \<Rightarrow> zval option)"
  assumes string_ok: "run (ZString (ZTrim # cs)) (Some (ZStr s)) = Inr v \<longleftrightarrow>
      v = Some (ZStr (trim s)) \<and> list_all (check_ok (length (trim s))) cs"
    and pipe: "run (ZPipe a b) w = (case run a w of Inl ms \<Rightarrow> Inl ms | Inr y \<Rightarrow> run b y)"
    and email_ok: "run (ZEmail m) (Some (ZStr s)) = Inr v \<longleftrightarrow> v = Some (ZStr s) \<and> isEmail s"
    and enum_ok: "run (ZEnum vs e) (Some (ZStr s)) = Inr v \<longleftrightarrow> v = Some (ZStr s) \<and> s \<in> set vs"
    and array_ok: "run (ZArray (ZEnum vs e) cs) (Some (ZArr xs)) = Inr v \<longleftrightarrow>
      v = Some (ZArr xs) \<and> set xs \<subseteq> set vs \<and> list_all (check_ok (length xs)) cs"
    and optional_absent: "run (ZOptional z) None = Inr None"
    and optional_present: "run (ZOptional z) (Some u) = run z (Some u)"
    and object_ok: "distinct (map fst sh) \<Longrightarrow> safeParse sh x = Inr out \<Longrightarrow> (k, z) \<in> set sh \<Longrightarrow> run z (x k) = Inr (out k)"
    and object_total: "\<forall>(k, z) \<in> set sh. \<exists>v. run z (x k) = Inr v \<Longrightarrow> \<exists>out. safeParse sh x = Inr out"
    and object_issues: "safeParse sh x = Inl iss \<Longrightarrow> i \<in> set iss \<Longrightarrow>
      \<exists>k z p ms. (k, z) \<in> set sh \<and> i_path i = k # p \<and> run z (x k) = Inl ms \<and> i_message i \<in> set ms"
    and object_reports: "safeParse sh x = Inl iss \<Longrightarrow> (k, z) \<in> set sh \<Longrightarrow> run z (x k) = Inl ms \<Longrightarrow>
      \<exists>i p. i \<in> set iss \<and> i_path i = k # p"
    and email_one_line: "isEmail s \<Longrightarrow> s \<noteq> [] \<and> LF \<notin> set s \<and> CR \<notin> set s"
begin

lemma name_ok: "run name_schema (Some (ZStr s)) = Inr v \<longleftrightarrow>
    v = Some (ZStr (trim s)) \<and> 1 \<le> length (trim s) \<and> length (trim s) \<le> 100"
  by (simp add: name_schema_def string_ok)

lemma company_ok: "run company_schema (Some (ZStr s)) = Inr v \<longleftrightarrow>
    v = Some (ZStr (trim s)) \<and> 1 \<le> length (trim s) \<and> length (trim s) \<le> 100"
  by (simp add: company_schema_def string_ok)

lemma email_schema_ok: "run email_schema (Some (ZStr s)) = Inr v \<longleftrightarrow>
    v = Some (ZStr (trim s)) \<and> length (trim s) \<le> 254 \<and> isEmail (trim s)"
proof (cases "run (ZString [ZTrim, ZMax 254 (js ''Use at most 254 characters.'')]) (Some (ZStr s))")
  case (Inl ms)
  then have "\<not> length (trim s) \<le> 254"
    using string_ok [of "[ZMax 254 (js ''Use at most 254 characters.'')]" s "Some (ZStr (trim s))"] by auto
  then show ?thesis using Inl by (simp add: email_schema_def pipe)
next
  case (Inr w)
  then show ?thesis
    using string_ok [of "[ZMax 254 (js ''Use at most 254 characters.'')]" s w]
    by (auto simp: email_schema_def pipe email_ok)
qed

lemma message_ok:
  "run (ZOptional (ZString [ZTrim, ZMax 2000 m])) (Some (ZStr s)) = Inr v \<longleftrightarrow>
     v = Some (ZStr (trim s)) \<and> length (trim s) \<le> 2000"
  by (simp add: optional_present string_ok)

end

section \<open>A validator that keeps the promises\<close>

fun check_failures :: "nat \<Rightarrow> zcheck list \<Rightarrow> jstr list" where
  "check_failures n [] = []"
| "check_failures n (ZTrim # cs) = check_failures n cs"
| "check_failures n (ZMin k m # cs) = (if k \<le> n then [] else [m]) @ check_failures n cs"
| "check_failures n (ZMax k m # cs) = (if n \<le> k then [] else [m]) @ check_failures n cs"

definition invalid_input :: jstr where
  "invalid_input = js ''Invalid input''"

fun ref_run :: "(jstr \<Rightarrow> bool) \<Rightarrow> zschema \<Rightarrow> zval option \<Rightarrow> jstr list + zval option" where
  "ref_run em (ZString cs) (Some (ZStr s)) =
     (let t = (if ZTrim \<in> set cs then trim s else s); ms = check_failures (length t) cs in
      if ms = [] then Inr (Some (ZStr t)) else Inl ms)"
| "ref_run em (ZEmail m) (Some (ZStr s)) = (if em s then Inr (Some (ZStr s)) else Inl [m])"
| "ref_run em (ZPipe a b) x = (case ref_run em a x of Inl ms \<Rightarrow> Inl ms | Inr y \<Rightarrow> ref_run em b y)"
| "ref_run em (ZEnum vs e) (Some (ZStr s)) =
     (if s \<in> set vs then Inr (Some (ZStr s)) else Inl [nullish e invalid_input])"
| "ref_run em (ZArray z cs) (Some (ZArr xs)) =
     (let bad = filter (\<lambda>x. isl (ref_run em z (Some (ZStr x)))) xs;
          ms = check_failures (length xs) cs @ map (\<lambda>_. invalid_input) bad in
      if ms = [] then Inr (Some (ZArr xs)) else Inl ms)"
| "ref_run em (ZOptional z) None = Inr None"
| "ref_run em (ZOptional z) (Some x) = ref_run em z (Some x)"
| "ref_run em z x = Inl [invalid_input]"

definition issues_of :: "jstr \<Rightarrow> jstr list + zval option \<Rightarrow> issue list" where
  "issues_of k r =
     (case r of Inl ms \<Rightarrow> map (\<lambda>m. \<lparr>i_path = [k], i_message = m\<rparr>) ms | Inr v \<Rightarrow> [])"

definition ref_issues :: "(jstr \<Rightarrow> bool) \<Rightarrow> shape \<Rightarrow> (jstr \<Rightarrow> zval option) \<Rightarrow> issue list" where
  "ref_issues em sh x = concat (map (\<lambda>(k, z). issues_of k (ref_run em z (x k))) sh)"

definition zod_ref :: "(jstr \<Rightarrow> bool) \<Rightarrow> shape \<Rightarrow> (jstr \<Rightarrow> zval option) \<Rightarrow> issue list + (jstr \<Rightarrow> zval option)" where
  "zod_ref em sh x =
     (if \<forall>(k, z) \<in> set sh. \<not> isl (ref_run em z (x k))
      then Inr (\<lambda>k. case map_of sh k of None \<Rightarrow> None | Some z \<Rightarrow> projr (ref_run em z (x k)))
      else Inl (ref_issues em sh x))"

text \<open>A stand-in for the address check: one @ between non-empty parts, and no white space.\<close>

definition plain_email :: "jstr \<Rightarrow> bool" where
  "plain_email s \<longleftrightarrow> s \<noteq> [] \<and> list_all (\<lambda>c. \<not> is_ws c) s \<and> count_list s 64 = 1"

lemma check_failures_Nil: "check_failures n cs = [] \<longleftrightarrow> list_all (check_ok n) cs"
  by (induction n cs rule: check_failures.induct) auto

lemma plain_email_one_line: "plain_email s \<Longrightarrow> s \<noteq> [] \<and> LF \<notin> set s \<and> CR \<notin> set s"
proof -
  assume s: "plain_email s"
  have "is_ws LF" "is_ws CR" by (simp_all add: is_ws_def)
  with s show ?thesis unfolding plain_email_def list_all_iff by blast
qed

lemma ref_array_ok: "ref_run em (ZArray (ZEnum vs e) cs) (Some (ZArr xs)) = Inr v \<longleftrightarrow>
    v = Some (ZArr xs) \<and> set xs \<subseteq> set vs \<and> list_all (check_ok (length xs)) cs"
proof -
  have "filter (\<lambda>x. isl (ref_run em (ZEnum vs e) (Some (ZStr x)))) xs = filter (\<lambda>x. x \<notin> set vs) xs"
    by (rule filter_cong) auto
  then show ?thesis
    by (auto simp: check_failures_Nil filter_empty_conv Let_def)
qed

lemma isl_projr: "\<not> isl r \<Longrightarrow> r = Inr (projr r)"
  by (cases r) auto

lemma issues_of_mem: "i \<in> set (issues_of k r) \<longleftrightarrow>
    (\<exists>ms m. r = Inl ms \<and> m \<in> set ms \<and> i = \<lparr>i_path = [k], i_message = m\<rparr>)"
  by (cases r) (auto simp: issues_of_def)

lemma ref_issues_mem: "i \<in> set (ref_issues em sh x) \<longleftrightarrow>
    (\<exists>k z ms m. (k, z) \<in> set sh \<and> ref_run em z (x k) = Inl ms \<and> m \<in> set ms \<and> i = \<lparr>i_path = [k], i_message = m\<rparr>)"
proof -
  have "i \<in> set (ref_issues em sh x) \<longleftrightarrow>
      (\<exists>kz \<in> set sh. i \<in> set (issues_of (fst kz) (ref_run em (snd kz) (x (fst kz)))))"
    by (simp add: ref_issues_def split_def)
  also have "\<dots> \<longleftrightarrow> (\<exists>k z. (k, z) \<in> set sh \<and> i \<in> set (issues_of k (ref_run em z (x k))))"
    by (metis fst_conv prod.collapse snd_conv)
  finally show ?thesis by (simp add: issues_of_mem)
qed

lemma ref_run_Inl_nonempty: "ref_run em z x = Inl ms \<Longrightarrow> ms \<noteq> []"
  by (induction em z x arbitrary: ms rule: ref_run.induct)
    (auto simp: Let_def split: if_splits sum.splits)

interpretation zref: zod plain_email "ref_run plain_email" "zod_ref plain_email"
proof unfold_locales
  fix cs s v
  show "ref_run plain_email (ZString (ZTrim # cs)) (Some (ZStr s)) = Inr v \<longleftrightarrow>
      v = Some (ZStr (trim s)) \<and> list_all (check_ok (length (trim s))) cs"
    by (auto simp: check_failures_Nil Let_def)
next
  fix sh :: shape and x out k z
  assume "distinct (map fst sh)" "zod_ref plain_email sh x = Inr out" "(k, z) \<in> set sh"
  then show "ref_run plain_email z (x k) = Inr (out k)"
    by (auto simp: zod_ref_def intro: isl_projr split: if_splits)
next
  fix sh :: shape and x
  assume "\<forall>(k, z) \<in> set sh. \<exists>v. ref_run plain_email z (x k) = Inr v"
  then show "\<exists>out. zod_ref plain_email sh x = Inr out"
    by (auto simp: zod_ref_def)
next
  fix sh :: shape and x iss i
  assume "zod_ref plain_email sh x = Inl iss" "i \<in> set iss"
  then show "\<exists>k z p ms. (k, z) \<in> set sh \<and> i_path i = k # p \<and> ref_run plain_email z (x k) = Inl ms \<and> i_message i \<in> set ms"
    by (auto simp: zod_ref_def ref_issues_mem split: if_splits)
next
  fix sh :: shape and x iss k z ms
  assume "zod_ref plain_email sh x = Inl iss" and kz: "(k, z) \<in> set sh" "ref_run plain_email z (x k) = Inl ms"
  then have iss: "iss = ref_issues plain_email sh x"
    by (auto simp: zod_ref_def split: if_splits)
  obtain m where "m \<in> set ms" using ref_run_Inl_nonempty [OF kz(2)] by (cases ms) auto
  with kz have "\<lparr>i_path = [k], i_message = m\<rparr> \<in> set iss"
    unfolding iss ref_issues_mem by auto
  then show "\<exists>i p. i \<in> set iss \<and> i_path i = k # p" by force
qed (auto simp: ref_array_ok plain_email_one_line simp del: ref_run.simps(5))

section \<open>The webmail hint and the plan parameter\<close>

definition WEBMAIL :: "jstr list" where
  "WEBMAIL = [js ''gmail.com'', js ''outlook.com'', js ''yahoo.com'', js ''icloud.com'', js ''proton.me'']"

text \<open>\<open>lc\<close> is \<open>toLowerCase\<close>; \<open>pop\<close> takes the last part, and a split has at least one.\<close>

definition isWebmail :: "(jstr \<Rightarrow> jstr) \<Rightarrow> jstr \<Rightarrow> bool" where
  "isWebmail lc email \<longleftrightarrow> lc (trim (last (split_char 64 email))) \<in> set WEBMAIL"

definition parsePlan :: "zval option \<Rightarrow> plan_id option" where
  "parsePlan value =
     (case value of Some (ZStr s) \<Rightarrow> find (\<lambda>p. plan_value p = s) planIds | _ \<Rightarrow> None)"

lemma parsePlan_plan_value [simp]: "parsePlan (Some (ZStr (plan_value p))) = Some p"
  by (cases p) (simp_all add: parsePlan_def planIds_def)

lemma parsePlan_eq_Some: "parsePlan value = Some p \<longleftrightarrow> value = Some (ZStr (plan_value p))"
proof
  assume "parsePlan value = Some p"
  then show "value = Some (ZStr (plan_value p))"
    by (auto simp: parsePlan_def split: option.splits zval.splits dest: find_Some_mem)
qed simp

end
