(* ===== verification/Env.thy ===== *)
theory Env
  imports Prelude
begin

text \<open>
  \<^verbatim>\<open>web/lib/env.ts\<close>, \<^verbatim>\<open>web/lib/headers.ts\<close> and \<^verbatim>\<open>web/next.config.ts\<close>: what the marketing site reads
  from its environment, the check that stops a misconfigured production build, and the
  response headers a production build sends. The environment is a partial map, as
  \<open>Record<string, string | undefined>\<close> is.
\<close>

section \<open>The environment\<close>

type_synonym env = "jstr \<Rightarrow> jstr option"

definition REQUIRED_IN_PRODUCTION :: "jstr list" where
  "REQUIRED_IN_PRODUCTION =
     [js ''NEXT_PUBLIC_SITE_URL'', js ''RESEND_API_KEY'', js ''DEMO_INBOX'', js ''DEMO_FROM'']"

definition isProductionDeploy :: "env \<Rightarrow> bool" where
  "isProductionDeploy env \<longleftrightarrow> env (js ''VERCEL_ENV'') = Some (js ''production'')"

text \<open>\<open>s.replace(/\/+$/, "")\<close>.\<close>

definition strip_slashes :: "jstr \<Rightarrow> jstr" where
  "strip_slashes s = rev (dropWhile (\<lambda>c. c = slash) (rev s))"

definition siteUrl :: "env \<Rightarrow> jstr" where
  "siteUrl env = strip_slashes (or_else (env (js ''NEXT_PUBLIC_SITE_URL'')) (js ''http://localhost:3000''))"

definition missing_env :: "env \<Rightarrow> jstr list" where
  "missing_env env = filter (\<lambda>key. \<not> truthy (env key)) REQUIRED_IN_PRODUCTION"

text \<open>The thrown \<open>Error\<close> is \<^term>\<open>Inl\<close> of its message.\<close>

definition assertBuildEnv :: "env \<Rightarrow> jstr + unit" where
  "assertBuildEnv env =
     (if \<not> isProductionDeploy env then Inr ()
      else if missing_env env \<noteq> []
        then Inl (js ''missing required environment: '' @ join (js '', '') (missing_env env))
      else if truthy (env (js ''DEMO_SENDER''))
        then Inl (js ''DEMO_SENDER is test-only and must not be set in production'')
      else Inr ())"

lemma strip_slashes_last: "strip_slashes s = [] \<or> last (strip_slashes s) \<noteq> slash"
proof -
  have "hd (dropWhile (\<lambda>c. c = slash) (rev s)) \<noteq> slash" if "dropWhile (\<lambda>c. c = slash) (rev s) \<noteq> []"
    using hd_dropWhile [OF that] .
  then show ?thesis by (auto simp: strip_slashes_def last_rev)
qed

lemma strip_slashes_id: "s = [] \<or> last s \<noteq> slash \<Longrightarrow> strip_slashes s = s"
  by (cases s rule: rev_cases) (auto simp: strip_slashes_def)

lemma strip_slashes_idem [simp]: "strip_slashes (strip_slashes s) = strip_slashes s"
  using strip_slashes_last by (rule strip_slashes_id)

lemma strip_slashes_prefix: "\<exists>n. s = strip_slashes s @ replicate n slash"
proof -
  define t where "t = takeWhile (\<lambda>c. c = slash) (rev s)"
  have "\<forall>c \<in> set t. c = slash" by (auto simp: t_def dest: set_takeWhileD)
  then have "t = replicate (length t) slash" by (induction t) auto
  moreover have "s = strip_slashes s @ rev t"
    by (metis t_def strip_slashes_def rev_append rev_rev_ident takeWhile_dropWhile_id)
  ultimately show ?thesis by (metis rev_replicate)
qed

lemma siteUrl_no_trailing_slash: "siteUrl env = [] \<or> last (siteUrl env) \<noteq> slash"
  unfolding siteUrl_def by (rule strip_slashes_last)

lemma missing_env_Nil: "missing_env env = [] \<longleftrightarrow> (\<forall>key \<in> set REQUIRED_IN_PRODUCTION. truthy (env key))"
  by (auto simp: missing_env_def filter_empty_conv)

lemma assertBuildEnv_ok_iff:
  "assertBuildEnv env = Inr () \<longleftrightarrow>
     (isProductionDeploy env \<longrightarrow> missing_env env = [] \<and> \<not> truthy (env (js ''DEMO_SENDER'')))"
  by (simp add: assertBuildEnv_def)

lemma required_keys:
  "js ''NEXT_PUBLIC_SITE_URL'' \<in> set REQUIRED_IN_PRODUCTION"
  "js ''RESEND_API_KEY'' \<in> set REQUIRED_IN_PRODUCTION"
  "js ''DEMO_INBOX'' \<in> set REQUIRED_IN_PRODUCTION"
  "js ''DEMO_FROM'' \<in> set REQUIRED_IN_PRODUCTION"
  by (simp_all add: REQUIRED_IN_PRODUCTION_def)

lemma build_env_required:
  "assertBuildEnv env = Inr () \<Longrightarrow> isProductionDeploy env \<Longrightarrow> key \<in> set REQUIRED_IN_PRODUCTION \<Longrightarrow>
     truthy (env key)"
  by (simp add: assertBuildEnv_ok_iff missing_env_Nil)

lemma build_env_no_fake:
  "assertBuildEnv env = Inr () \<Longrightarrow> isProductionDeploy env \<Longrightarrow> \<not> truthy (env (js ''DEMO_SENDER''))"
  by (simp add: assertBuildEnv_ok_iff)

section \<open>Response headers\<close>

definition quoted :: "string \<Rightarrow> jstr" where
  "quoted s = 39 # js s @ [39]"

definition csp_directives :: "jstr list" where
  "csp_directives =
    [js ''default-src '' @ quoted ''self'',
     js ''script-src '' @ quoted ''self'' @ js '' '' @ quoted ''unsafe-inline'',
     js ''style-src '' @ quoted ''self'' @ js '' '' @ quoted ''unsafe-inline'',
     js ''img-src '' @ quoted ''self'' @ js '' data: blob:'',
     js ''font-src '' @ quoted ''self'',
     js ''connect-src '' @ quoted ''self'',
     js ''object-src '' @ quoted ''none'',
     js ''base-uri '' @ quoted ''self'',
     js ''form-action '' @ quoted ''self'',
     js ''frame-ancestors '' @ quoted ''none'',
     js ''upgrade-insecure-requests'']"

definition csp :: jstr where
  "csp = join (js ''; '') csp_directives"

definition securityHeaders :: "(jstr \<times> jstr) list" where
  "securityHeaders =
    [(js ''Content-Security-Policy'', csp),
     (js ''Strict-Transport-Security'', js ''max-age=63072000; includeSubDomains; preload''),
     (js ''Referrer-Policy'', js ''strict-origin-when-cross-origin''),
     (js ''Permissions-Policy'', js ''camera=(), microphone=(), geolocation=()''),
     (js ''X-Content-Type-Options'', js ''nosniff'')]"

record next_config =
  nc_poweredByHeader :: bool
  nc_headers :: "(jstr \<times> (jstr \<times> jstr) list) list"

text \<open>
  Loading \<^verbatim>\<open>next.config.ts\<close>: the environment check runs first and its error stops the build; the
  headers are those of \<open>securityHeaders()\<close> on every path when \<open>NODE_ENV\<close> is production.
\<close>

definition next_config_headers :: "env \<Rightarrow> (jstr \<times> (jstr \<times> jstr) list) list" where
  "next_config_headers env =
     (if env (js ''NODE_ENV'') \<noteq> Some (js ''production'') then []
      else [(js ''/:path*'', securityHeaders)])"

definition load_next_config :: "env \<Rightarrow> jstr + next_config" where
  "load_next_config env =
     (case assertBuildEnv env of
        Inl e \<Rightarrow> Inl e
      | Inr _ \<Rightarrow> Inr \<lparr>nc_poweredByHeader = False, nc_headers = next_config_headers env\<rparr>)"

text \<open>
  How a browser reads the policy (CSP level 3, "parse a serialized CSP"): split strictly on the
  semicolon, strip white space, the name is the text before the first space, and of two
  directives with one name the first counts.
\<close>

definition csp_directive :: "jstr \<Rightarrow> jstr \<times> jstr list" where
  "csp_directive d = (case split_char 32 (trim d) of [] \<Rightarrow> ([], []) | n # vs \<Rightarrow> (n, vs))"

definition parse_csp :: "jstr \<Rightarrow> (jstr \<times> jstr list) list" where
  "parse_csp s = map csp_directive (split_char 59 s)"

definition csp_lookup :: "jstr \<Rightarrow> jstr \<Rightarrow> jstr list option" where
  "csp_lookup s name = map_of (parse_csp s) name"


lemma quoted_eq_iff [simp]: "quoted s = quoted t \<longleftrightarrow> s = t"
  by (simp add: quoted_def)

lemma csp_split: "split_char 59 csp = hd csp_directives # map (Cons 32) (tl csp_directives)"
proof -
  have "js ''; '' = [59, 32]" by (simp add: js_def)
  moreover have "\<forall>x \<in> set csp_directives. 59 \<notin> set x"
    by (simp add: csp_directives_def quoted_def js_eval)
  moreover have "csp_directives \<noteq> []" by (simp add: csp_directives_def)
  ultimately show ?thesis by (simp add: csp_def split_char_join2)
qed

lemma parse_csp_csp:
  "parse_csp csp =
     [(js ''default-src'', [quoted ''self'']),
      (js ''script-src'', [quoted ''self'', quoted ''unsafe-inline'']),
      (js ''style-src'', [quoted ''self'', quoted ''unsafe-inline'']),
      (js ''img-src'', [quoted ''self'', js ''data:'', js ''blob:'']),
      (js ''font-src'', [quoted ''self'']), (js ''connect-src'', [quoted ''self'']),
      (js ''object-src'', [quoted ''none'']), (js ''base-uri'', [quoted ''self'']),
      (js ''form-action'', [quoted ''self'']), (js ''frame-ancestors'', [quoted ''none'']),
      (js ''upgrade-insecure-requests'', [])]"
  by (simp add: parse_csp_def csp_split csp_directives_def csp_directive_def quoted_def js_eval)

lemma quoted_neq_js: "quoted s \<noteq> js ''*''" "quoted s \<noteq> js ''data:''" "quoted s \<noteq> js ''blob:''"
  by (simp_all add: quoted_def js_def)

text \<open>The environment of a production deploy, for examples.\<close>

definition sample_env :: env where
  "sample_env = Map.empty
     (js ''NODE_ENV'' \<mapsto> js ''production'', js ''VERCEL_ENV'' \<mapsto> js ''production'',
      js ''NEXT_PUBLIC_SITE_URL'' \<mapsto> js ''https://aw.dev/'', js ''RESEND_API_KEY'' \<mapsto> js ''re_1'',
      js ''DEMO_INBOX'' \<mapsto> js ''sales@aw.dev'', js ''DEMO_FROM'' \<mapsto> js ''site@aw.dev'')"

section \<open>Properties\<close>

text \<open>A browser that parses the emitted policy finds eleven different directives (so none is
  shadowed by an earlier one), refuses framing and plugins, never falls back to a wildcard or to
  \<open>unsafe-eval\<close>, and allows inline code for scripts and styles only.\<close>

theorem csp_is_strict:
  "distinct (map fst (parse_csp csp)) \<and> length (parse_csp csp) = 11 \<and>
   csp_lookup csp (js ''frame-ancestors'') = Some [quoted ''none''] \<and>
   csp_lookup csp (js ''object-src'') = Some [quoted ''none''] \<and>
   csp_lookup csp (js ''default-src'') = Some [quoted ''self''] \<and>
   js ''*'' \<notin> \<Union> (set ` snd ` set (parse_csp csp)) \<and>
   quoted ''unsafe-eval'' \<notin> \<Union> (set ` snd ` set (parse_csp csp)) \<and>
   map fst (filter (\<lambda>d. quoted ''unsafe-inline'' \<in> set (snd d)) (parse_csp csp)) =
     [js ''script-src'', js ''style-src'']"
  by (simp add: csp_lookup_def parse_csp_csp quoted_neq_js quoted_neq_js [symmetric])

text \<open>The configuration of a production deploy loads exactly when every required variable is
  set to a non-empty value and the test-only sender is not selected; outside production it always
  loads. When it loads, the security headers are sent on every path of a production build.\<close>

theorem load_next_config_iff:
  "((\<exists>c. load_next_config env = Inr c) \<longleftrightarrow>
     (isProductionDeploy env \<longrightarrow>
       (\<forall>key \<in> set REQUIRED_IN_PRODUCTION. truthy (env key)) \<and> \<not> truthy (env (js ''DEMO_SENDER'')))) \<and>
   (load_next_config env = Inr c \<and> env (js ''NODE_ENV'') = Some (js ''production'') \<longrightarrow>
     nc_headers c = [(js ''/:path*'', securityHeaders)])"
  by (auto simp: load_next_config_def assertBuildEnv_def missing_env_Nil next_config_headers_def)

theorem load_next_config_iff_witness:
  "\<exists>c. load_next_config sample_env = Inr c \<and> nc_headers c = [(js ''/:path*'', securityHeaders)]"
proof -
  have "truthy (sample_env key)" if "key \<in> set REQUIRED_IN_PRODUCTION" for key
    using that by (auto simp: sample_env_def REQUIRED_IN_PRODUCTION_def truthy_def js_eval)
  moreover have "\<not> truthy (sample_env (js ''DEMO_SENDER''))"
    by (simp add: sample_env_def truthy_def)
  ultimately obtain c where "load_next_config sample_env = Inr c"
    using load_next_config_iff [of sample_env] by blast
  moreover have "sample_env (js ''NODE_ENV'') = Some (js ''production'')"
    by (simp add: sample_env_def)
  ultimately show ?thesis using load_next_config_iff [of sample_env c] by blast
qed

end
