(* ===== verification/DemoSubmit.thy ===== *)
theory DemoSubmit
  imports Complex_Main DemoSchema Env
begin

text \<open>
  \<^verbatim>\<open>web/lib/demo/email.ts\<close>, \<^verbatim>\<open>sender.ts\<close>, \<^verbatim>\<open>submit.ts\<close> and \<^verbatim>\<open>web/app/demo/actions.ts\<close>: how a demo
  request becomes an email. The effects of a submission (sending and logging) are returned as a
  list in the order they happen. The Resend client is a third-party package and a parameter.
\<close>

section \<open>The email\<close>

record demo_request =
  r_name :: jstr
  r_email :: jstr
  r_company :: jstr
  r_size :: jstr
  r_agents :: "jstr list"
  r_deployment :: jstr
  r_plan :: "jstr option"
  r_message :: "jstr option"

definition option_label :: "(jstr \<times> jstr) list \<Rightarrow> jstr \<Rightarrow> jstr" where
  "option_label opts value = nullish (map_option snd (find (\<lambda>o1. fst o1 = value) opts)) value"

text \<open>\<open>s.replace(/[\r\n]/g, " ")\<close>.\<close>

definition oneLine :: "jstr \<Rightarrow> jstr" where
  "oneLine s = map (\<lambda>c. if c = CR \<or> c = LF then 32 else c) s"

record email_text =
  e_subject :: jstr
  e_text :: jstr

definition formatEmail :: "demo_request \<Rightarrow> email_text" where
  "formatEmail req =
     \<lparr>e_subject = oneLine (js ''Demo request: '' @ r_company req @ js '' ('' @
        nullish (r_plan req) (js ''no plan'') @ js '')''),
      e_text = join [LF]
        [js ''Name: '' @ r_name req,
         js ''Email: '' @ r_email req,
         js ''Company: '' @ r_company req,
         js ''Company size: '' @ option_label sizeOptions (r_size req),
         js ''Agents: '' @ join (js '', '') (map (option_label agentOptions) (r_agents req)),
         js ''Deployment: '' @ option_label deploymentOptions (r_deployment req),
         js ''Plan: '' @ nullish (r_plan req) (js ''none''),
         [],
         js ''Message:'',
         or_else (r_message req) (js ''(none)'')]\<rparr>"

section \<open>Senders\<close>

record mail =
  m_to :: jstr
  m_from :: jstr
  m_replyTo :: jstr
  m_subject :: jstr
  m_text :: jstr

text \<open>
  What a rejected promise carries, as far as \<open>submitDemo\<close> looks at it: whether it is an \<open>Error\<close>, its
  name, and the \<open>status\<close> property if it is an object that has one.
\<close>

datatype js_status = StatusNumber int | StatusOther

record thrown =
  x_is_error :: bool
  x_name :: jstr
  x_status :: "js_status option"

definition SendError :: "jstr \<Rightarrow> int option \<Rightarrow> thrown" where
  "SendError message status =
     \<lparr>x_is_error = True, x_name = js ''SendError'',
      x_status = Some (case status of Some n \<Rightarrow> StatusNumber n | None \<Rightarrow> StatusOther)\<rparr>"

type_synonym sender = "mail \<Rightarrow> thrown + unit"

definition fakeSender :: sender where
  "fakeSender msg =
     (if includes_str (m_subject msg) (js ''Demo request: __fail__ '')
      then Inl (SendError (js ''fake sender failure'') (Some 503)) else Inr ())"

text \<open>
  The Resend client: for an API key and a mail it rejects, or resolves to an error object (its
  name and status code) or to none.
\<close>

type_synonym resend = "jstr \<Rightarrow> mail \<Rightarrow> thrown + (jstr \<times> int option) option"

definition resendSender :: "resend \<Rightarrow> jstr \<Rightarrow> sender" where
  "resendSender resend apiKey msg =
     (case resend apiKey msg of
        Inl e \<Rightarrow> Inl e
      | Inr None \<Rightarrow> Inr ()
      | Inr (Some (name, code)) \<Rightarrow> Inl (SendError name code))"

datatype sender_choice = Fake | Resend jstr

definition choose_sender :: "env \<Rightarrow> sender_choice option" where
  "choose_sender env =
     (if env (js ''DEMO_SENDER'') = Some (js ''fake'') \<and> env (js ''VERCEL_ENV'') \<noteq> Some (js ''production'')
      then Some Fake
      else if truthy (env (js ''RESEND_API_KEY'')) then Some (Resend (the (env (js ''RESEND_API_KEY''))))
      else None)"

fun sender_of :: "resend \<Rightarrow> sender_choice \<Rightarrow> sender" where
  "sender_of resend Fake = fakeSender"
| "sender_of resend (Resend key) = resendSender resend key"

definition senderFromEnv :: "resend \<Rightarrow> env \<Rightarrow> sender option" where
  "senderFromEnv resend env = map_option (sender_of resend) (choose_sender env)"

section \<open>Reading the form\<close>

datatype entry = FStr jstr | FFile

type_synonym form = "(jstr \<times> entry) list"

definition form_get :: "form \<Rightarrow> jstr \<Rightarrow> entry option" where
  "form_get form k = map_of form k"

definition form_getAll :: "form \<Rightarrow> jstr \<Rightarrow> entry list" where
  "form_getAll form k = map snd (filter (\<lambda>(k', v). k' = k) form)"

type_synonym form_values = "jstr \<Rightarrow> zval option"

definition TEXT_FIELDS :: "jstr list" where
  "TEXT_FIELDS = [js ''name'', js ''email'', js ''company'', js ''size'', js ''deployment'', js ''plan'', js ''message'']"

fun entry_text :: "entry option \<Rightarrow> jstr" where
  "entry_text (Some (FStr s)) = s"
| "entry_text _ = []"

fun entry_strings :: "entry list \<Rightarrow> jstr list" where
  "entry_strings [] = []"
| "entry_strings (FStr s # es) = s # entry_strings es"
| "entry_strings (FFile # es) = entry_strings es"

definition readValues :: "form \<Rightarrow> form_values" where
  "readValues form =
     (fold (\<lambda>key values. values(key \<mapsto> ZStr (entry_text (form_get form key)))) TEXT_FIELDS Map.empty)
       (js ''agents'' \<mapsto> ZArr (entry_strings (form_getAll form (js ''agents''))))"

text \<open>\<open>Number(s)\<close> is a parameter: a finite value or \<^term>\<open>None\<close> for \<open>NaN\<close> and the infinities.\<close>

definition MIN_FILL_MS :: rat where
  "MIN_FILL_MS = 3000"

definition tooFast :: "(jstr \<Rightarrow> rat option) \<Rightarrow> form \<Rightarrow> rat \<Rightarrow> bool" where
  "tooFast number form now =
     (case form_get form (js ''startedAt'') of
        Some (FStr raw) \<Rightarrow>
          (if raw = [] then False
           else (case number raw of None \<Rightarrow> False | Some started \<Rightarrow> now - started < MIN_FILL_MS))
      | _ \<Rightarrow> False)"

definition honeypot_filled :: "form \<Rightarrow> bool" where
  "honeypot_filled form \<longleftrightarrow> entry_text (form_get form (js ''website'')) \<noteq> []"

section \<open>Submitting\<close>

datatype demo_state =
    Idle
  | Ok
  | Invalid (fieldErrors: "jstr \<Rightarrow> jstr option") (invalid_values: "form_values")
  | Failed (failed_inbox: "jstr option") (failed_values: "form_values")

datatype effect =
    Send mail
  | LogNotConfigured
  | LogSendFailed jstr "int option"

record submit_deps =
  dep_send :: "sender option"
  dep_inbox :: "jstr option"
  dep_from :: "jstr option"
  dep_now :: rat

text \<open>The object handed to \<open>safeParse\<close>.\<close>

definition schema_input :: "form_values \<Rightarrow> form_values" where
  "schema_input values =
     values(js ''plan'' := map_option (\<lambda>p. ZStr (plan_value p)) (parsePlan (values (js ''plan''))),
            js ''message'' := (case values (js ''message'') of
                Some (ZStr s) \<Rightarrow> if s = [] then None else Some (ZStr s) | v \<Rightarrow> v))"

definition add_issue :: "issue \<Rightarrow> (jstr \<Rightarrow> jstr option) \<Rightarrow> (jstr \<Rightarrow> jstr option)" where
  "add_issue i errs =
     (case errs (hd (i_path i)) of None \<Rightarrow> errs(hd (i_path i) \<mapsto> i_message i) | Some m \<Rightarrow> errs)"

definition field_errors :: "issue list \<Rightarrow> (jstr \<Rightarrow> jstr option)" where
  "field_errors iss = fold add_issue iss Map.empty"

fun text_of :: "zval option \<Rightarrow> jstr" where
  "text_of (Some (ZStr s)) = s"
| "text_of _ = []"

fun optional_text :: "zval option \<Rightarrow> jstr option" where
  "optional_text (Some (ZStr s)) = Some s"
| "optional_text _ = None"

fun strings_of :: "zval option \<Rightarrow> jstr list" where
  "strings_of (Some (ZArr xs)) = xs"
| "strings_of _ = []"

text \<open>The parsed data under its static type.\<close>

definition request_of :: "form_values \<Rightarrow> demo_request" where
  "request_of d =
     \<lparr>r_name = text_of (d (js ''name'')), r_email = text_of (d (js ''email'')),
      r_company = text_of (d (js ''company'')), r_size = text_of (d (js ''size'')),
      r_agents = strings_of (d (js ''agents'')), r_deployment = text_of (d (js ''deployment'')),
      r_plan = optional_text (d (js ''plan'')), r_message = optional_text (d (js ''message''))\<rparr>"

definition failure_log :: "thrown \<Rightarrow> effect" where
  "failure_log e =
     LogSendFailed (if x_is_error e then x_name e else js ''unknown'')
       (case x_status e of Some (StatusNumber n) \<Rightarrow> Some n | _ \<Rightarrow> None)"

definition mail_of :: "demo_request \<Rightarrow> jstr \<Rightarrow> jstr \<Rightarrow> mail" where
  "mail_of req inbox from_addr =
     \<lparr>m_to = inbox, m_from = from_addr, m_replyTo = r_email req,
      m_subject = e_subject (formatEmail req), m_text = e_text (formatEmail req)\<rparr>"

definition submitDemo :: "(shape \<Rightarrow> form_values \<Rightarrow> issue list + form_values) \<Rightarrow> (jstr \<Rightarrow> rat option) \<Rightarrow> form \<Rightarrow>
    submit_deps \<Rightarrow> demo_state \<times> effect list" where
  "submitDemo safeParse number form deps =
     (if honeypot_filled form \<or> tooFast number form (dep_now deps) then (Ok, [])
      else
        (let values = readValues form in
         (case safeParse demoSchema (schema_input values) of
            Inl iss \<Rightarrow> (Invalid (field_errors iss) values, [])
          | Inr data \<Rightarrow>
              (if dep_send deps = None \<or> \<not> truthy (dep_inbox deps) \<or> \<not> truthy (dep_from deps)
               then (Failed (dep_inbox deps) values, [LogNotConfigured])
               else
                 (let m = mail_of (request_of data) (the (dep_inbox deps)) (the (dep_from deps)) in
                  (case the (dep_send deps) m of
                     Inl e \<Rightarrow> (Failed (dep_inbox deps) values, [Send m, failure_log e])
                   | Inr _ \<Rightarrow> (Ok, [Send m])))))))"

text \<open>The server action: the dependencies come from the environment and the clock.\<close>

definition or_null :: "jstr option \<Rightarrow> jstr option" where
  "or_null v = (if truthy v then v else None)"

definition action_deps :: "resend \<Rightarrow> env \<Rightarrow> rat \<Rightarrow> submit_deps" where
  "action_deps resend env now =
     \<lparr>dep_send = senderFromEnv resend env,
      dep_inbox = or_null (env (js ''DEMO_INBOX'')),
      dep_from = (if truthy (env (js ''DEMO_FROM'')) then env (js ''DEMO_FROM'')
                  else if env (js ''DEMO_SENDER'') = Some (js ''fake'') then Some (js ''site@example.test'')
                  else None),
      dep_now = now\<rparr>"

definition submitDemoAction :: "(shape \<Rightarrow> form_values \<Rightarrow> issue list + form_values) \<Rightarrow> (jstr \<Rightarrow> rat option) \<Rightarrow>
    resend \<Rightarrow> env \<Rightarrow> rat \<Rightarrow> form \<Rightarrow> demo_state \<times> effect list" where
  "submitDemoAction safeParse number resend env now form =
     submitDemo safeParse number form (action_deps resend env now)"

section \<open>What a valid form is\<close>

definition form_field :: "form \<Rightarrow> jstr \<Rightarrow> jstr" where
  "form_field form k = entry_text (form_get form k)"

definition form_agents :: "form \<Rightarrow> jstr list" where
  "form_agents form = entry_strings (form_getAll form (js ''agents''))"

text \<open>Field by field, what the texts of the schema ask for.\<close>

definition field_checks :: "(jstr \<Rightarrow> bool) \<Rightarrow> form \<Rightarrow> (jstr \<times> bool) list" where
  "field_checks isEmail form =
     (let t = (\<lambda>k. trim (form_field form k)) in
      [(js ''name'', 1 \<le> length (t (js ''name'')) \<and> length (t (js ''name'')) \<le> 100),
       (js ''email'', length (t (js ''email'')) \<le> 254 \<and> isEmail (t (js ''email''))),
       (js ''company'', 1 \<le> length (t (js ''company'')) \<and> length (t (js ''company'')) \<le> 100),
       (js ''size'', form_field form (js ''size'') \<in> set (option_values sizeOptions)),
       (js ''agents'', form_agents form \<noteq> [] \<and> set (form_agents form) \<subseteq> set (option_values agentOptions)),
       (js ''deployment'', form_field form (js ''deployment'') \<in> set (option_values deploymentOptions)),
       (js ''plan'', True),
       (js ''message'', length (t (js ''message'')) \<le> 2000)])"

definition valid_form :: "(jstr \<Rightarrow> bool) \<Rightarrow> form \<Rightarrow> bool" where
  "valid_form isEmail form \<longleftrightarrow> list_all snd (field_checks isEmail form)"

definition invalid_fields :: "(jstr \<Rightarrow> bool) \<Rightarrow> form \<Rightarrow> jstr set" where
  "invalid_fields isEmail form = fst ` set (filter (\<lambda>(k, ok). \<not> ok) (field_checks isEmail form))"

definition expected_request :: "form \<Rightarrow> demo_request" where
  "expected_request form =
     \<lparr>r_name = trim (form_field form (js ''name'')), r_email = trim (form_field form (js ''email'')),
      r_company = trim (form_field form (js ''company'')), r_size = form_field form (js ''size''),
      r_agents = form_agents form, r_deployment = form_field form (js ''deployment''),
      r_plan = map_option plan_value (parsePlan (Some (ZStr (form_field form (js ''plan''))))),
      r_message = (if form_field form (js ''message'') = [] then None
                   else Some (trim (form_field form (js ''message''))))\<rparr>"

lemma readValues_field:
  "k \<in> set TEXT_FIELDS \<Longrightarrow> readValues form k = Some (ZStr (form_field form k))"
  by (auto simp: readValues_def TEXT_FIELDS_def form_field_def)

lemma readValues_agents: "readValues form (js ''agents'') = Some (ZArr (form_agents form))"
  by (simp add: readValues_def form_agents_def)

lemma schema_input_simps:
  "schema_input (readValues form) (js ''name'') = Some (ZStr (form_field form (js ''name'')))"
  "schema_input (readValues form) (js ''email'') = Some (ZStr (form_field form (js ''email'')))"
  "schema_input (readValues form) (js ''company'') = Some (ZStr (form_field form (js ''company'')))"
  "schema_input (readValues form) (js ''size'') = Some (ZStr (form_field form (js ''size'')))"
  "schema_input (readValues form) (js ''agents'') = Some (ZArr (form_agents form))"
  "schema_input (readValues form) (js ''deployment'') = Some (ZStr (form_field form (js ''deployment'')))"
  "schema_input (readValues form) (js ''plan'') =
     map_option (\<lambda>p. ZStr (plan_value p)) (parsePlan (Some (ZStr (form_field form (js ''plan'')))))"
  "schema_input (readValues form) (js ''message'') =
     (if form_field form (js ''message'') = [] then None else Some (ZStr (form_field form (js ''message''))))"
  by (simp_all add: schema_input_def readValues_field readValues_agents TEXT_FIELDS_def)

lemma demoSchema_distinct: "distinct (map fst demoSchema)"
  by (simp add: demoSchema_def)

text \<open>The first issue of a field is the one shown.\<close>

lemma fold_add_issue:
  "fold add_issue iss errs k =
     (case errs k of Some m \<Rightarrow> Some m
      | None \<Rightarrow> map_option i_message (find (\<lambda>i. hd (i_path i) = k) iss))"
  by (induction iss arbitrary: errs) (auto simp: add_issue_def split: option.splits)

lemma field_errors_eq: "field_errors iss k = map_option i_message (find (\<lambda>i. hd (i_path i) = k) iss)"
  by (simp add: field_errors_def fold_add_issue)

lemma dom_field_errors: "dom (field_errors iss) = (\<lambda>i. hd (i_path i)) ` set iss"
proof -
  have "k \<in> dom (field_errors iss) \<longleftrightarrow> k \<in> (\<lambda>i. hd (i_path i)) ` set iss" for k
    unfolding domIff field_errors_eq by (auto simp: find_None_ball)
  then show ?thesis by blast
qed

lemma fields_agree_all:
  "list_all2 (\<lambda>(k, z) (k', ok). k = k' \<and> (P k z \<longleftrightarrow> ok)) xs ys \<Longrightarrow>
     (\<forall>(k, z) \<in> set xs. P k z) \<longleftrightarrow> list_all snd ys"
  by (induction xs ys rule: list_all2_induct) auto

lemma fields_agree_failed:
  "list_all2 (\<lambda>(k, z) (k', ok). k = k' \<and> (P k z \<longleftrightarrow> ok)) xs ys \<Longrightarrow>
     {k. \<exists>z. (k, z) \<in> set xs \<and> \<not> P k z} = fst ` set (filter (\<lambda>(k, ok). \<not> ok) ys)"
proof (induction xs ys rule: list_all2_induct)
  case (Cons x xs y ys)
  obtain k z ok where "x = (k, z)" "y = (k, ok)" "P k z \<longleftrightarrow> ok"
    using Cons.hyps(1) by (cases x, cases y) auto
  with Cons.IH show ?case by (cases ok) auto
qed simp

lemma trim_Nil [simp]: "trim [] = []"
  by (simp add: trim_def trim_start_def trim_end_def)

context zod
begin

lemma message_optional:
  "(\<exists>v. run (ZOptional (ZString [ZTrim, ZMax 2000 m])) (if s = [] then None else Some (ZStr s)) = Inr v) \<longleftrightarrow>
     length (trim s) \<le> 2000"
  by (cases "s = []") (simp_all add: message_ok optional_absent)

lemma plan_optional:
  "run (ZOptional (ZEnum (map plan_value planIds) None)) (map_option (\<lambda>p. ZStr (plan_value p)) q) =
     Inr (map_option (\<lambda>p. ZStr (plan_value p)) q)"
  by (cases q) (simp_all add: optional_absent optional_present enum_ok)

lemma run_text_fields:
  "(\<exists>v. run name_schema (Some (ZStr s)) = Inr v) \<longleftrightarrow> 1 \<le> length (trim s) \<and> length (trim s) \<le> 100"
  "(\<exists>v. run email_schema (Some (ZStr s)) = Inr v) \<longleftrightarrow> length (trim s) \<le> 254 \<and> isEmail (trim s)"
  "(\<exists>v. run company_schema (Some (ZStr s)) = Inr v) \<longleftrightarrow> 1 \<le> length (trim s) \<and> length (trim s) \<le> 100"
  "(\<exists>v. run (ZEnum vs e) (Some (ZStr s)) = Inr v) \<longleftrightarrow> s \<in> set vs"
  by (simp_all add: name_ok email_schema_ok company_ok enum_ok)

lemma run_agents:
  "(\<exists>v. run (ZArray (ZEnum vs e) [ZMin 1 m]) (Some (ZArr xs)) = Inr v) \<longleftrightarrow> xs \<noteq> [] \<and> set xs \<subseteq> set vs"
  by (cases xs) (auto simp: array_ok)

lemma run_plan:
  "\<exists>v. run (ZOptional (ZEnum (map plan_value planIds) None)) (map_option (\<lambda>p. ZStr (plan_value p)) q) = Inr v"
  by (simp add: plan_optional)

lemma fields_agree:
  "list_all2 (\<lambda>(k, z) (k', ok). k = k' \<and> ((\<exists>v. run z (schema_input (readValues form) k) = Inr v) \<longleftrightarrow> ok))
     demoSchema (field_checks isEmail form)"
  by (simp only: demoSchema_def field_checks_def Let_def list_all2_Cons list.rel_inject(1) prod.case
      schema_input_simps run_text_fields run_agents run_plan message_optional simp_thms)

lemma parse_ok_iff:
  "(\<exists>d. safeParse demoSchema (schema_input (readValues form)) = Inr d) \<longleftrightarrow> valid_form isEmail form"
proof
  assume "\<exists>d. safeParse demoSchema (schema_input (readValues form)) = Inr d"
  then have "\<forall>(k, z) \<in> set demoSchema. \<exists>v. run z (schema_input (readValues form) k) = Inr v"
    using object_ok [OF demoSchema_distinct] by blast
  then show "valid_form isEmail form"
    using fields_agree_all [OF fields_agree [of form]] by (simp add: valid_form_def)
next
  assume "valid_form isEmail form"
  then have "\<forall>(k, z) \<in> set demoSchema. \<exists>v. run z (schema_input (readValues form) k) = Inr v"
    using fields_agree_all [OF fields_agree [of form]] by (simp add: valid_form_def)
  then show "\<exists>d. safeParse demoSchema (schema_input (readValues form)) = Inr d"
    by (rule object_total)
qed

lemma failed_fields:
  assumes "safeParse demoSchema (schema_input (readValues form)) = Inl iss"
  shows "dom (field_errors iss) = invalid_fields isEmail form"
proof -
  let ?x = "schema_input (readValues form)"
  have "dom (field_errors iss) = {k. \<exists>z. (k, z) \<in> set demoSchema \<and> \<not> (\<exists>v. run z (?x k) = Inr v)}"
  proof (intro equalityI subsetI)
    fix k assume "k \<in> dom (field_errors iss)"
    then obtain i where "i \<in> set iss" "k = hd (i_path i)" by (auto simp: dom_field_errors)
    with object_issues [OF assms this(1)] show "k \<in> {k. \<exists>z. (k, z) \<in> set demoSchema \<and> \<not> (\<exists>v. run z (?x k) = Inr v)}"
      by fastforce
  next
    fix k assume "k \<in> {k. \<exists>z. (k, z) \<in> set demoSchema \<and> \<not> (\<exists>v. run z (?x k) = Inr v)}"
    then obtain z where z: "(k, z) \<in> set demoSchema" "\<not> (\<exists>v. run z (?x k) = Inr v)" by blast
    then obtain ms where "run z (?x k) = Inl ms" by (cases "run z (?x k)") auto
    from object_reports [OF assms z(1) this] show "k \<in> dom (field_errors iss)"
      unfolding dom_field_errors by force
  qed
  also have "\<dots> = invalid_fields isEmail form"
    using fields_agree_failed [OF fields_agree [of form]] by (simp add: invalid_fields_def)
  finally show ?thesis .
qed

lemma parsed_request:
  assumes "safeParse demoSchema (schema_input (readValues form)) = Inr d"
  shows "request_of d = expected_request form" and "isEmail (trim (form_field form (js ''email'')))"
proof -
  let ?x = "schema_input (readValues form)"
  have ok: "(k, z) \<in> set demoSchema \<Longrightarrow> run z (?x k) = Inr (d k)" for k z
    by (rule object_ok [OF demoSchema_distinct assms])
  have "run name_schema (?x (js ''name'')) = Inr (d (js ''name''))"
    "run email_schema (?x (js ''email'')) = Inr (d (js ''email''))"
    "run company_schema (?x (js ''company'')) = Inr (d (js ''company''))"
    "run (ZEnum (option_values sizeOptions) (Some (js ''Choose a company size.''))) (?x (js ''size'')) = Inr (d (js ''size''))"
    "run (ZArray (ZEnum (option_values agentOptions) None) [ZMin 1 (js ''Choose at least one agent.'')]) (?x (js ''agents'')) = Inr (d (js ''agents''))"
    "run (ZEnum (option_values deploymentOptions) (Some (js ''Choose a deployment.''))) (?x (js ''deployment'')) = Inr (d (js ''deployment''))"
    "run (ZOptional (ZEnum (map plan_value planIds) None)) (?x (js ''plan'')) = Inr (d (js ''plan''))"
    "run (ZOptional (ZString [ZTrim, ZMax 2000 (js ''Use at most 2000 characters.'')])) (?x (js ''message'')) = Inr (d (js ''message''))"
    by (rule ok; simp add: demoSchema_def)+
  note runs = this [unfolded schema_input_simps]
  show "isEmail (trim (form_field form (js ''email'')))"
    using runs(2) by (simp add: email_schema_ok)
  have plan: "optional_text (map_option (\<lambda>p. ZStr (plan_value p)) q) = map_option plan_value q" for q
    by (cases q) simp_all
  have "d (js ''plan'') = map_option (\<lambda>p. ZStr (plan_value p)) (parsePlan (Some (ZStr (form_field form (js ''plan'')))))"
    using runs(7) by (simp add: plan_optional)
  moreover have "optional_text (d (js ''message'')) = r_message (expected_request form)"
    using runs(8) by (cases "form_field form (js ''message'') = []")
      (simp_all add: message_ok optional_absent expected_request_def)
  ultimately show "request_of d = expected_request form"
    using runs(1-6)
    by (simp add: request_of_def expected_request_def name_ok email_schema_ok company_ok enum_ok array_ok plan)
qed

end

section \<open>Outcomes\<close>

definition spam :: "(jstr \<Rightarrow> rat option) \<Rightarrow> form \<Rightarrow> rat \<Rightarrow> bool" where
  "spam number form now \<longleftrightarrow> honeypot_filled form \<or> tooFast number form now"

definition configured :: "submit_deps \<Rightarrow> bool" where
  "configured deps \<longleftrightarrow> dep_send deps \<noteq> None \<and> truthy (dep_inbox deps) \<and> truthy (dep_from deps)"

definition expected_mail :: "form \<Rightarrow> submit_deps \<Rightarrow> mail" where
  "expected_mail form deps = mail_of (expected_request form) (the (dep_inbox deps)) (the (dep_from deps))"

lemma submit_spam: "spam number form (dep_now deps) \<Longrightarrow> submitDemo sp number form deps = (Ok, [])"
  by (simp add: submitDemo_def spam_def)

context zod
begin

lemma submit_invalid:
  assumes "\<not> spam number form (dep_now deps)" "\<not> valid_form isEmail form"
  shows "\<exists>errs. submitDemo safeParse number form deps = (Invalid errs (readValues form), []) \<and>
    dom errs = invalid_fields isEmail form"
proof -
  obtain iss where iss: "safeParse demoSchema (schema_input (readValues form)) = Inl iss"
    using parse_ok_iff [of form] assms(2) by (cases "safeParse demoSchema (schema_input (readValues form))") auto
  with assms(1) failed_fields [OF iss] show ?thesis
    by (simp add: submitDemo_def spam_def Let_def)
qed

lemma submit_valid:
  assumes "\<not> spam number form (dep_now deps)" "valid_form isEmail form"
  shows "submitDemo safeParse number form deps =
    (if configured deps then
       (case the (dep_send deps) (expected_mail form deps) of
          Inl e \<Rightarrow> (Failed (dep_inbox deps) (readValues form), [Send (expected_mail form deps), failure_log e])
        | Inr _ \<Rightarrow> (Ok, [Send (expected_mail form deps)]))
     else (Failed (dep_inbox deps) (readValues form), [LogNotConfigured]))"
proof -
  obtain d where d: "safeParse demoSchema (schema_input (readValues form)) = Inr d"
    using parse_ok_iff [of form] assms(2) by blast
  with assms(1) parsed_request(1) [OF d] show ?thesis
    by (simp add: submitDemo_def spam_def configured_def expected_mail_def Let_def split: sum.splits)
qed

lemma valid_email: "valid_form isEmail form \<Longrightarrow> isEmail (trim (form_field form (js ''email'')))"
  by (simp add: valid_form_def field_checks_def Let_def)

end

lemma oneLine_clean: "LF \<notin> set (oneLine s)" "CR \<notin> set (oneLine s)"
  by (auto simp: oneLine_def)

lemma mail_of_simps [simp]:
  "m_to (mail_of r i f) = i" "m_from (mail_of r i f) = f" "m_replyTo (mail_of r i f) = r_email r"
  "m_subject (mail_of r i f) = e_subject (formatEmail r)" "m_text (mail_of r i f) = e_text (formatEmail r)"
  by (simp_all add: mail_of_def)

lemma subject_clean: "LF \<notin> set (e_subject (formatEmail r))" "CR \<notin> set (e_subject (formatEmail r))"
  by (simp_all add: formatEmail_def oneLine_clean)

lemma invalid_fields_Nil: "invalid_fields isEmail form = {} \<longleftrightarrow> valid_form isEmail form"
  unfolding invalid_fields_def valid_form_def list_all_iff image_is_empty set_empty filter_empty_conv
  by (simp add: split_beta)

lemma invalid_fields_plan: "js ''plan'' \<notin> invalid_fields isEmail form"
  by (simp add: invalid_fields_def field_checks_def Let_def)

lemma send_of_failure_log [simp]: "Send m \<noteq> failure_log e" "failure_log e \<noteq> Send m"
  by (simp_all add: failure_log_def)

lemma production_deps:
  assumes "assertBuildEnv env = Inr ()" "isProductionDeploy env"
  obtains key inbox from_addr where "choose_sender env = Some (Resend key)" "key \<noteq> []"
    "env (js ''DEMO_INBOX'') = Some inbox" "env (js ''DEMO_FROM'') = Some from_addr"
    "action_deps resend env now =
       \<lparr>dep_send = Some (resendSender resend key), dep_inbox = Some inbox, dep_from = Some from_addr, dep_now = now\<rparr>"
    "configured (action_deps resend env now)"
proof -
  have t: "truthy (env (js ''RESEND_API_KEY''))" "truthy (env (js ''DEMO_INBOX''))" "truthy (env (js ''DEMO_FROM''))"
    by (rule build_env_required [OF assms]; simp add: required_keys)+
  then obtain key inbox from_addr where e: "env (js ''RESEND_API_KEY'') = Some key" "key \<noteq> []"
    "env (js ''DEMO_INBOX'') = Some inbox" "inbox \<noteq> []" "env (js ''DEMO_FROM'') = Some from_addr" "from_addr \<noteq> []"
    by (auto simp: truthy_def split: option.splits)
  have c: "choose_sender env = Some (Resend key)"
    using assms(2) e by (simp add: choose_sender_def isProductionDeploy_def truthy_def)
  have a: "action_deps resend env now =
       \<lparr>dep_send = Some (resendSender resend key), dep_inbox = Some inbox, dep_from = Some from_addr, dep_now = now\<rparr>"
    using e by (simp add: action_deps_def senderFromEnv_def c or_null_def truthy_def)
  show thesis
    by (rule that [OF c e(2) e(3) e(5) a]) (use e in \<open>simp add: configured_def a truthy_def\<close>)
qed

section \<open>A sample submission\<close>

definition sample_form :: form where
  "sample_form =
     [(js ''name'', FStr (js '' Ada '')), (js ''email'', FStr (js ''ada@acme.io'')), (js ''company'', FStr (js ''Acme'')),
      (js ''size'', FStr (js ''1-50'')), (js ''agents'', FStr (js ''codex'')), (js ''agents'', FFile),
      (js ''deployment'', FStr (js ''hosted'')), (js ''plan'', FStr (js ''nope''))]"

definition sample_resend :: resend where
  "sample_resend key m = Inr None"

definition no_number :: "jstr \<Rightarrow> rat option" where
  "no_number s = None"

lemma sample_fields:
  "form_field sample_form (js ''name'') = js '' Ada ''" "form_field sample_form (js ''email'') = js ''ada@acme.io''"
  "form_field sample_form (js ''company'') = js ''Acme''" "form_field sample_form (js ''size'') = js ''1-50''"
  "form_field sample_form (js ''deployment'') = js ''hosted''" "form_field sample_form (js ''message'') = []"
  "form_agents sample_form = [js ''codex'']"
  by (simp_all add: form_field_def form_agents_def form_get_def form_getAll_def sample_form_def)

lemma sample_valid: "valid_form plain_email sample_form"
  unfolding valid_form_def field_checks_def Let_def sample_fields
  by (simp add: plain_email_def sizeOptions_def agentOptions_def deploymentOptions_def option_values_def js_eval)

lemma empty_invalid: "\<not> valid_form plain_email []"
  by (simp add: valid_form_def field_checks_def Let_def form_field_def form_get_def)

lemma sample_not_spam: "\<not> spam no_number sample_form now" "\<not> spam no_number [] now"
  by (simp_all add: spam_def honeypot_filled_def tooFast_def form_get_def sample_form_def)

lemma sample_build: "assertBuildEnv sample_env = Inr ()" "isProductionDeploy sample_env"
  by (simp_all add: assertBuildEnv_def isProductionDeploy_def missing_env_def REQUIRED_IN_PRODUCTION_def sample_env_def
      truthy_def js_eval)

section \<open>Properties\<close>

text \<open>A submission that is neither spam nor valid comes back with the values the visitor typed,
  sends and logs nothing, and carries an error for exactly the fields that break a rule of the
  form: at least one, and never the plan, which falls back to none.\<close>

theorem submit_reports_invalid_fields:
  assumes "zod isEmail run safeParse"
    and "\<not> spam number form (dep_now deps)" and "\<not> valid_form isEmail form"
  shows "\<exists>errs. submitDemo safeParse number form deps = (Invalid errs (readValues form), []) \<and>
    dom errs = invalid_fields isEmail form \<and> dom errs \<noteq> {} \<and> errs (js ''plan'') = None"
proof -
  obtain errs where "submitDemo safeParse number form deps = (Invalid errs (readValues form), [])"
    "dom errs = invalid_fields isEmail form"
    using zod.submit_invalid [OF assms] by blast
  moreover have "invalid_fields isEmail form \<noteq> {}"
    using assms(3) by (simp add: invalid_fields_Nil)
  moreover have "js ''plan'' \<notin> invalid_fields isEmail form" by (rule invalid_fields_plan)
  ultimately show ?thesis by (metis domIff)
qed

theorem submit_reports_invalid_fields_witness:
  "\<exists>errs. submitDemo (zod_ref plain_email) no_number [] (action_deps sample_resend sample_env 0) =
      (Invalid errs (readValues []), []) \<and>
    dom errs = invalid_fields plain_email [] \<and> dom errs \<noteq> {} \<and> errs (js ''plan'') = None"
  by (rule submit_reports_invalid_fields [OF zref.zod_axioms sample_not_spam(2) empty_invalid])

text \<open>C1. Mail leaves only for a valid, configured submission that is not spam, once: to the
  configured inbox, from the configured address, with the request the visitor described, answering
  to the trimmed address, and with no line break in the subject or the reply address, so that a
  visitor cannot inject a mail header.\<close>

theorem submit_sends_only_valid:
  assumes "zod isEmail run safeParse" and "Send m \<in> set (snd (submitDemo safeParse number form deps))"
  shows "valid_form isEmail form \<and> configured deps \<and> \<not> spam number form (dep_now deps) \<and>
    filter (\<lambda>e. \<exists>x. e = Send x) (snd (submitDemo safeParse number form deps)) = [Send m] \<and>
    m = mail_of (expected_request form) (the (dep_inbox deps)) (the (dep_from deps)) \<and>
    m_replyTo m = trim (form_field form (js ''email'')) \<and> isEmail (m_replyTo m) \<and>
    {LF, CR} \<inter> (set (m_subject m) \<union> set (m_replyTo m)) = {}"
proof -
  have ns: "\<not> spam number form (dep_now deps)"
    using assms(2) submit_spam [of number form deps safeParse] by auto
  have v: "valid_form isEmail form"
    using assms(2) zod.submit_invalid [OF assms(1) ns] by force
  note eq = zod.submit_valid [OF assms(1) ns v]
  have c: "configured deps" using assms(2) by (simp add: eq split: if_splits)
  have m: "m = expected_mail form deps"
    using assms(2) c by (simp add: eq split: sum.splits)
  have r: "r_email (expected_request form) = trim (form_field form (js ''email''))"
    by (simp add: expected_request_def)
  note e = zod.valid_email [OF assms(1) v] zod.email_one_line [OF assms(1) zod.valid_email [OF assms(1) v]]
  show ?thesis
    using ns v c e subject_clean
    by (simp add: eq m r expected_mail_def split: sum.splits)
qed

theorem submit_sends_only_valid_witness:
  "configured (action_deps sample_resend sample_env 0) \<and>
   m_replyTo (expected_mail sample_form (action_deps sample_resend sample_env 0)) = js ''ada@acme.io''"
proof -
  let ?d = "action_deps sample_resend sample_env 0"
  have c: "configured ?d" using production_deps [OF sample_build] by blast
  have "Send (expected_mail sample_form ?d) \<in> set (snd (submitDemo (zod_ref plain_email) no_number sample_form ?d))"
    unfolding zod.submit_valid [OF zref.zod_axioms sample_not_spam(1) sample_valid]
    using c by (simp split: sum.splits)
  from submit_sends_only_valid [OF zref.zod_axioms this]
  have "m_replyTo (expected_mail sample_form ?d) = trim (js ''ada@acme.io'')"
    unfolding sample_fields by blast
  moreover have "trim (js ''ada@acme.io'') = js ''ada@acme.io''" by (simp add: js_eval)
  ultimately show ?thesis using c by simp
qed

text \<open>The visitor is told the request was received exactly when it was judged to be spam, or
  was valid, configured and accepted by the mail service. No failure is shown as a success, and
  apart from spam no success is made up.\<close>

theorem submit_ok_iff:
  assumes "zod isEmail run safeParse"
  shows "fst (submitDemo safeParse number form deps) = Ok \<longleftrightarrow>
    spam number form (dep_now deps) \<or>
    (valid_form isEmail form \<and> configured deps \<and>
     the (dep_send deps) (mail_of (expected_request form) (the (dep_inbox deps)) (the (dep_from deps))) = Inr ())"
proof (cases "spam number form (dep_now deps)")
  case True then show ?thesis by (simp add: submit_spam)
next
  case ns: False
  show ?thesis
  proof (cases "valid_form isEmail form")
    case True
    show ?thesis
      using ns True by (simp add: zod.submit_valid [OF assms ns True] expected_mail_def split: sum.splits)
  next
    case False
    with ns zod.submit_invalid [OF assms ns False] show ?thesis by auto
  qed
qed

theorem submit_ok_iff_witness:
  "fst (submitDemo (zod_ref plain_email) no_number sample_form (action_deps sample_resend sample_env 0)) = Ok"
proof -
  let ?d = "action_deps sample_resend sample_env 0"
  obtain key where d: "dep_send ?d = Some (resendSender sample_resend key)" and c: "configured ?d"
    using production_deps [OF sample_build, of sample_resend 0] by (metis submit_deps.select_convs(1))
  show ?thesis
    unfolding submit_ok_iff [OF zref.zod_axioms]
    using c by (simp add: sample_valid d resendSender_def sample_resend_def)
qed

text \<open>C32. In a production deploy that passed the build check, a valid request that is not spam
  always reaches the Resend client under a non-empty key, with the configured inbox as its
  recipient: the test sender cannot be chosen and the request is never dropped as unconfigured. The
  visitor sees success exactly when Resend resolved without an error, and the inbox otherwise.\<close>

theorem production_request_reaches_resend:
  assumes "zod isEmail run safeParse" and "assertBuildEnv env = Inr ()" and "isProductionDeploy env"
    and "\<not> spam number form now" and "valid_form isEmail form"
  shows "\<exists>key inbox from_addr m. env (js ''RESEND_API_KEY'') = Some key \<and> key \<noteq> [] \<and>
    env (js ''DEMO_INBOX'') = Some inbox \<and> env (js ''DEMO_FROM'') = Some from_addr \<and>
    m = mail_of (expected_request form) inbox from_addr \<and>
    hd (snd (submitDemoAction safeParse number resend env now form)) = Send m \<and>
    fst (submitDemoAction safeParse number resend env now form) =
      (if resend key m = Inr None then Ok else Failed (Some inbox) (readValues form))"
proof -
  obtain key inbox from_addr where k: "choose_sender env = Some (Resend key)" "key \<noteq> []"
    "env (js ''DEMO_INBOX'') = Some inbox" "env (js ''DEMO_FROM'') = Some from_addr"
    and a: "action_deps resend env now =
       \<lparr>dep_send = Some (resendSender resend key), dep_inbox = Some inbox, dep_from = Some from_addr, dep_now = now\<rparr>"
    and c: "configured (action_deps resend env now)"
    by (rule production_deps [OF assms(2,3)])
  have key: "env (js ''RESEND_API_KEY'') = Some key"
    using k(1) by (auto simp: choose_sender_def truthy_def split: if_splits option.splits)
  have ns: "\<not> spam number form (dep_now (action_deps resend env now))"
    using assms(4) by (simp add: a)
  let ?m = "mail_of (expected_request form) inbox from_addr"
  have m: "expected_mail form (action_deps resend env now) = ?m" by (simp add: expected_mail_def a)
  show ?thesis
    unfolding submitDemoAction_def zod.submit_valid [OF assms(1) ns assms(5)] m
    using k(2-4) key c
    by (cases "resend key ?m")
      (auto simp: a resendSender_def split: option.splits)
qed

theorem production_request_reaches_resend_witness:
  "fst (submitDemoAction (zod_ref plain_email) no_number sample_resend sample_env 0 sample_form) = Ok"
  using production_request_reaches_resend
    [OF zref.zod_axioms sample_build sample_not_spam(1) sample_valid, of sample_resend]
  by (auto simp: sample_resend_def)

end
