(* ===== verification/View.thy ===== *)
theory View
  imports Prelude
begin

text \<open>
  What a component renders, and the query results the console renders from. A view is the tree of
  elements a JSX expression denotes: lower-case tags are HTML elements, capitalised ones the
  presentational components of \<^verbatim>\<open>components/ui\<close>; class names, inline styles and React keys are left
  out, event handlers are the operations of the state machines. A part that renders nothing
  (\<open>null\<close>, \<open>false\<close>) is the empty list.
\<close>

section \<open>Element trees\<close>

datatype attr = AS jstr | AB bool | AN int

datatype node = Txt jstr | El string "(string \<times> attr) list" "node list"

fun subnodes :: "node \<Rightarrow> node list" where
  "subnodes (Txt s) = [Txt s]"
| "subnodes (El t a cs) = El t a cs # concat (map subnodes cs)"

fun text_of_node :: "node \<Rightarrow> jstr" where
  "text_of_node (Txt s) = s"
| "text_of_node (El t a cs) = concat (map text_of_node cs)"

definition nodes :: "node list \<Rightarrow> node list" where
  "nodes v = concat (map subnodes v)"

definition text_of_view :: "node list \<Rightarrow> jstr" where
  "text_of_view v = concat (map text_of_node v)"

fun node_attr :: "node \<Rightarrow> string \<Rightarrow> attr option" where
  "node_attr (Txt s) k = None"
| "node_attr (El t a cs) k = map_of a k"

fun node_tag :: "node \<Rightarrow> string" where
  "node_tag (Txt s) = []"
| "node_tag (El t a cs) = t"

definition with_role :: "string \<Rightarrow> node list \<Rightarrow> node list" where
  "with_role r v = filter (\<lambda>n. node_attr n ''role'' = Some (AS (js r))) (nodes v)"

definition alerts :: "node list \<Rightarrow> node list" where
  "alerts v = with_role ''alert'' v"

definition with_tag :: "string \<Rightarrow> node list \<Rightarrow> node list" where
  "with_tag t v = filter (\<lambda>n. node_tag n = t) (nodes v)"

definition hrefs :: "node list \<Rightarrow> attr list" where
  "hrefs v = concat (map (\<lambda>n. case node_attr n ''href'' of None \<Rightarrow> [] | Some h \<Rightarrow> [h]) (nodes v))"

definition ids :: "node list \<Rightarrow> attr list" where
  "ids v = concat (map (\<lambda>n. case node_attr n ''id'' of None \<Rightarrow> [] | Some h \<Rightarrow> [h]) (nodes v))"

abbreviation em_dash :: jstr where "em_dash \<equiv> [8212]"
abbreviation mid_dot :: jstr where "mid_dot \<equiv> [183]"

lemma nodes_simps [simp]:
  "nodes [] = []" "nodes (Txt s # v) = Txt s # nodes v"
  "nodes (El t a cs # v) = El t a cs # nodes cs @ nodes v" "nodes (v @ w) = nodes v @ nodes w"
  by (simp_all add: nodes_def)

lemma nodes_concat: "nodes (concat (map f xs)) = concat (map (\<lambda>x. nodes (f x)) xs)"
  by (induction xs) auto

lemma nodes_map: "nodes (map f xs) = concat (map (\<lambda>x. nodes [f x]) xs)"
  by (induction xs) (auto simp: nodes_def)

lemma with_role_simps [simp]:
  "with_role r [] = []" "with_role r (Txt s # v) = with_role r v"
  "with_role r (El t a cs # v) =
     (if map_of a ''role'' = Some (AS (js r)) then [El t a cs] else []) @ with_role r cs @ with_role r v"
  "with_role r (v @ w) = with_role r v @ with_role r w"
  by (simp_all add: with_role_def)

lemma with_role_concat_Nil:
  "(\<And>x. x \<in> set xs \<Longrightarrow> with_role r (f x) = []) \<Longrightarrow> with_role r (concat (map f xs)) = []"
  by (induction xs) auto

lemma with_role_map_Nil:
  "(\<And>x. x \<in> set xs \<Longrightarrow> with_role r [f x] = []) \<Longrightarrow> with_role r (map f xs) = []"
proof (induction xs)
  case (Cons x xs)
  then show ?case using with_role_simps(4) [of r "[f x]" "map f xs"] by simp
qed simp

lemma hrefs_simps [simp]:
  "hrefs [] = []" "hrefs (Txt s # v) = hrefs v"
  "hrefs (El t a cs # v) = (case map_of a ''href'' of None \<Rightarrow> [] | Some h \<Rightarrow> [h]) @ hrefs cs @ hrefs v"
  "hrefs (v @ w) = hrefs v @ hrefs w"
  by (simp_all add: hrefs_def)

lemma hrefs_map: "hrefs (map f xs) = concat (map (\<lambda>x. hrefs [f x]) xs)"
proof (induction xs)
  case (Cons x xs)
  then show ?case using hrefs_simps(4) [of "[f x]" "map f xs"] by simp
qed simp

lemma ids_simps [simp]:
  "ids [] = []" "ids (Txt s # v) = ids v"
  "ids (El t a cs # v) = (case map_of a ''id'' of None \<Rightarrow> [] | Some h \<Rightarrow> [h]) @ ids cs @ ids v"
  "ids (v @ w) = ids v @ ids w"
  by (simp_all add: ids_def)

lemma ids_map: "ids (map f xs) = concat (map (\<lambda>x. ids [f x]) xs)"
proof (induction xs)
  case (Cons x xs)
  then show ?case using ids_simps(4) [of "[f x]" "map f xs"] by simp
qed simp

section \<open>Errors and query results\<close>

text \<open>
  A rejected request: an \<open>ApiError\<close> of \<^verbatim>\<open>console/src/api.ts\<close> with its status, another \<open>Error\<close>, or a
  thrown value that is no \<open>Error\<close>.
\<close>

datatype js_error = ApiError nat jstr | PlainError jstr | NotAnError

fun error_message :: "js_error \<Rightarrow> jstr option" where
  "error_message (ApiError s m) = Some m"
| "error_message (PlainError m) = Some m"
| "error_message NotAnError = None"

text \<open>\<open>error instanceof Error ? error.message : fallback\<close>, and the same for \<open>ApiError\<close>.\<close>

definition error_or :: "jstr \<Rightarrow> js_error option \<Rightarrow> jstr" where
  "error_or fallback e = (case e of None \<Rightarrow> fallback | Some x \<Rightarrow> nullish (error_message x) fallback)"

definition api_error_or :: "jstr \<Rightarrow> js_error option \<Rightarrow> jstr" where
  "api_error_or fallback e = (case e of Some (ApiError s m) \<Rightarrow> m | _ \<Rightarrow> fallback)"

text \<open>
  A query result of \<^verbatim>\<open>@tanstack/react-query\<close>, a third-party package. Its documentation promises that
  a successful query has data, a failed one an error, and a pending one neither; a query that
  failed after a success keeps its data.
\<close>

datatype query_status = Pending | Failed_query | Success

record 'a query =
  q_status :: query_status
  q_data :: "'a option"
  q_error :: "js_error option"

definition wf_query :: "'a query \<Rightarrow> bool" where
  "wf_query q \<longleftrightarrow>
     (case q_status q of
        Pending \<Rightarrow> q_data q = None \<and> q_error q = None
      | Failed_query \<Rightarrow> q_error q \<noteq> None
      | Success \<Rightarrow> q_data q \<noteq> None \<and> q_error q = None)"

definition alert_p :: "jstr \<Rightarrow> node" where
  "alert_p s = El ''p'' [(''role'', AS (js ''alert''))] [Txt s]"

definition muted_p :: "node list \<Rightarrow> node" where
  "muted_p cs = El ''p'' [] cs"

section \<open>The contract of a panel that shows a query\<close>

text \<open>For a query: an alert exactly on failure, the empty state exactly on a success with nothing.\<close>

definition honest_panel :: "('a query \<Rightarrow> node list) \<Rightarrow> node list \<Rightarrow> ('a \<Rightarrow> bool) \<Rightarrow> 'a query \<Rightarrow> bool" where
  "honest_panel view empty_state is_empty q \<longleftrightarrow>
     (alerts (view q) \<noteq> [] \<longleftrightarrow> q_status q = Failed_query) \<and>
     (view q = empty_state \<longleftrightarrow> q_status q = Success \<and> is_empty (the (q_data q)))"

text \<open>
  Every list of the console is shown the same way: an alert with the error's message when the
  request failed (never the empty state, whatever old data there is), nothing while it is
  pending, the empty state when it succeeded with nothing, the data otherwise.
\<close>

locale query_panel =
  fixes view :: "'a query \<Rightarrow> node list"
    and fallback :: jstr
    and is_empty :: "'a \<Rightarrow> bool"
    and empty_state :: "node list"
  assumes on_error: "q_status q = Failed_query \<Longrightarrow> view q = [alert_p (error_or fallback (q_error q))]"
    and on_pending: "wf_query q \<Longrightarrow> q_status q = Pending \<Longrightarrow> view q = []"
    and on_empty: "q_status q = Success \<Longrightarrow> q_data q = Some d \<Longrightarrow> is_empty d \<Longrightarrow> view q = empty_state"
    and on_data: "q_status q = Success \<Longrightarrow> q_data q = Some d \<Longrightarrow> \<not> is_empty d \<Longrightarrow>
      alerts (view q) = [] \<and> view q \<noteq> empty_state"
    and empty_no_alert: "alerts empty_state = []" and empty_shown: "empty_state \<noteq> []"
begin

lemma alert_iff_error: "wf_query q \<Longrightarrow> alerts (view q) \<noteq> [] \<longleftrightarrow> q_status q = Failed_query"
proof (cases "q_status q")
  case Success
  assume "wf_query q"
  with Success obtain d where "q_data q = Some d" by (auto simp: wf_query_def)
  with Success show ?thesis
    using on_empty [of q d] on_data [of q d] empty_no_alert by (cases "is_empty d") auto
qed (simp_all add: on_error on_pending, simp_all add: alerts_def alert_p_def)

lemma empty_iff:
  "wf_query q \<Longrightarrow> view q = empty_state \<longleftrightarrow> q_status q = Success \<and> is_empty (the (q_data q))"
proof (cases "q_status q")
  case Success
  assume "wf_query q"
  with Success obtain d where "q_data q = Some d" by (auto simp: wf_query_def)
  with Success show ?thesis
    using on_empty [of q d] on_data [of q d] by (cases "is_empty d") auto
next
  case Failed_query
  then have "alerts (view q) \<noteq> []"
    by (simp add: on_error alerts_def alert_p_def)
  with Failed_query empty_no_alert show ?thesis by auto
qed (simp_all add: on_pending empty_shown [symmetric])

lemma honest: "wf_query q \<Longrightarrow> honest_panel view empty_state is_empty q"
  unfolding honest_panel_def using alert_iff_error empty_iff by blast

end

end
