(* ===== verification/DemoForm.thy ===== *)
theory DemoForm
  imports DemoSubmit View
begin

text \<open>
  \<^verbatim>\<open>web/components/demo/demo-form.tsx\<close> and \<^verbatim>\<open>web/app/demo/page.tsx\<close>: the demo form for each state of
  the server action, where the focus goes, and the page that renders it. \<open>entries\<close> says what a
  browser submits for a form as it was rendered, before anyone touches it.
\<close>

section \<open>Fields\<close>

definition FIELD_ORDER :: "jstr list" where
  "FIELD_ORDER = [js ''name'', js ''email'', js ''company'', js ''size'', js ''agents'', js ''deployment'',
     js ''plan'', js ''message'']"

type_synonym field_texts = "jstr \<Rightarrow> jstr option"

fun state_errors :: "demo_state \<Rightarrow> field_texts" where
  "state_errors (Invalid errs vs) = errs"
| "state_errors s = Map.empty"

fun state_values :: "demo_state \<Rightarrow> form_values" where
  "state_values (Invalid errs vs) = vs"
| "state_values (Failed inbox vs) = vs"
| "state_values s = Map.empty"

definition value_str :: "form_values \<Rightarrow> jstr \<Rightarrow> jstr \<Rightarrow> jstr" where
  "value_str vs k fallback = (case vs k of Some (ZStr s) \<Rightarrow> s | _ \<Rightarrow> fallback)"

definition value_agents :: "form_values \<Rightarrow> jstr list" where
  "value_agents vs = (case vs (js ''agents'') of Some (ZArr xs) \<Rightarrow> xs | _ \<Rightarrow> [])"

definition ErrorText :: "jstr \<Rightarrow> field_texts \<Rightarrow> node list" where
  "ErrorText field errors =
     (if truthy (errors field)
      then [El ''p'' [(''id'', AS (field @ js ''-error''))] [Txt (the (errors field))]] else [])"

definition describedBy :: "field_texts \<Rightarrow> jstr \<Rightarrow> jstr option" where
  "describedBy errors f = (if truthy (errors f) then Some (f @ js ''-error'') else None)"

text \<open>An attribute whose value is \<open>undefined\<close> is not rendered.\<close>

definition opt_attr :: "string \<Rightarrow> jstr option \<Rightarrow> (string \<times> attr) list" where
  "opt_attr k v = (case v of None \<Rightarrow> [] | Some s \<Rightarrow> [(k, AS s)])"

definition field_attrs :: "field_texts \<Rightarrow> jstr \<Rightarrow> (string \<times> attr) list" where
  "field_attrs errors f =
     [(''id'', AS f), (''name'', AS f), (''aria-invalid'', AB (truthy (errors f)))] @
     opt_attr ''aria-describedby'' (describedBy errors f)"

section \<open>The form\<close>

definition email_describedBy :: "field_texts \<Rightarrow> bool \<Rightarrow> jstr option" where
  "email_describedBy errors webmail =
     (let parts = (case describedBy errors (js ''email'') of None \<Rightarrow> [] | Some d \<Rightarrow> [d]) @
        (if webmail then [js ''email-hint''] else []) in
      if parts = [] then None else Some (join [32] parts))"

definition text_field :: "jstr \<Rightarrow> string \<Rightarrow> field_texts \<Rightarrow> form_values \<Rightarrow> node" where
  "text_field f label errors vs =
     El ''div'' []
       ([El ''Label'' [(''htmlFor'', AS f)] [Txt (js label)],
         El ''Input'' (field_attrs errors f @ [(''defaultValue'', AS (value_str vs f []))]) []] @
        ErrorText f errors)"

definition email_field :: "field_texts \<Rightarrow> form_values \<Rightarrow> bool \<Rightarrow> node" where
  "email_field errors vs webmail =
     El ''div'' []
       ([El ''Label'' [(''htmlFor'', AS (js ''email''))] [Txt (js ''Work email'')],
         El ''Input''
           ([(''id'', AS (js ''email'')), (''name'', AS (js ''email'')), (''type'', AS (js ''email'')),
             (''defaultValue'', AS (value_str vs (js ''email'') [])),
             (''aria-invalid'', AB (truthy (errors (js ''email''))))] @
            opt_attr ''aria-describedby'' (email_describedBy errors webmail)) []] @
        (if webmail
         then [El ''p'' [(''id'', AS (js ''email-hint''))]
                 [Txt (js ''A work address helps us reply faster, but this one works too.'')]] else []) @
        ErrorText (js ''email'') errors)"

definition size_field :: "field_texts \<Rightarrow> form_values \<Rightarrow> node" where
  "size_field errors vs =
     El ''div'' []
       ([El ''Label'' [(''htmlFor'', AS (js ''size''))] [Txt (js ''Company size'')],
         El ''select'' (field_attrs errors (js ''size'') @ [(''defaultValue'', AS (value_str vs (js ''size'') []))])
           (El ''option'' [(''value'', AS []), (''disabled'', AB True)] [Txt (js ''Choose'' @ [8230])] #
            map (\<lambda>(v, l). El ''option'' [(''value'', AS v)] [Txt l]) sizeOptions)] @
        ErrorText (js ''size'') errors)"

definition choice :: "string \<Rightarrow> string \<Rightarrow> (jstr \<Rightarrow> bool) \<Rightarrow> jstr \<times> jstr \<Rightarrow> node" where
  "choice kind name checked o1 =
     El ''label'' []
       [El ''input''
          [(''type'', AS (js kind)), (''name'', AS (js name)), (''value'', AS (fst o1)),
           (''defaultChecked'', AB (checked (fst o1)))] [],
        Txt (snd o1)]"

definition choice_field :: "string \<Rightarrow> string \<Rightarrow> string \<Rightarrow> (jstr \<Rightarrow> bool) \<Rightarrow> (jstr \<times> jstr) list \<Rightarrow> field_texts \<Rightarrow> node" where
  "choice_field kind name legend checked opts errors =
     El ''fieldset'' (opt_attr ''aria-describedby'' (describedBy errors (js name)))
       (El ''legend'' [] [Txt (js legend)] # map (choice kind name checked) opts @ ErrorText (js name) errors)"

definition plan_field :: "plan_id option \<Rightarrow> form_values \<Rightarrow> node" where
  "plan_field plan vs =
     El ''div'' []
       [El ''Label'' [(''htmlFor'', AS (js ''plan''))] [Txt (js ''Plan'')],
        El ''select''
          [(''id'', AS (js ''plan'')), (''name'', AS (js ''plan'')),
           (''defaultValue'', AS (value_str vs (js ''plan'') (case plan of None \<Rightarrow> [] | Some p \<Rightarrow> plan_value p)))]
          (El ''option'' [(''value'', AS [])] [Txt (js ''Not sure yet'')] #
           map (\<lambda>t. El ''option'' [(''value'', AS (plan_value (t_id t)))] [Txt (t_name t)]) (pr_tiers pricing))]"

definition message_field :: "field_texts \<Rightarrow> form_values \<Rightarrow> node" where
  "message_field errors vs =
     El ''div'' []
       ([El ''Label'' [(''htmlFor'', AS (js ''message''))] [Txt (js ''Anything we should know? (optional)'')],
         El ''Textarea''
           (field_attrs errors (js ''message'') @
            [(''maxLength'', AN 2000), (''defaultValue'', AS (value_str vs (js ''message'') []))]) []] @
        ErrorText (js ''message'') errors)"

fun failed_alert :: "demo_state \<Rightarrow> node list" where
  "failed_alert (Failed inbox vs) =
     [El ''div'' [(''tabIndex'', AN (-1)), (''role'', AS (js ''alert''))]
        (Txt (js ''Couldn'' @ [39] @ js ''t send your request. '') #
         (if truthy inbox
          then [Txt (js ''Email us at ''),
                El ''a'' [(''href'', AS (js ''mailto:'' @ the inbox))] [Txt (the inbox)], Txt (js ''.'')]
          else [Txt (js ''Please try again later.'')]))]"
| "failed_alert s = []"

definition form_fields :: "plan_id option \<Rightarrow> jstr \<Rightarrow> field_texts \<Rightarrow> form_values \<Rightarrow> bool \<Rightarrow> node list" where
  "form_fields plan startedAt errors vs webmail =
     [El ''input'' [(''type'', AS (js ''hidden'')), (''name'', AS (js ''startedAt'')), (''value'', AS startedAt)] [],
      El ''div'' [(''aria-hidden'', AS (js ''true''))]
        [El ''label'' [(''htmlFor'', AS (js ''website''))] [Txt (js ''Website'')],
         El ''input'' [(''id'', AS (js ''website'')), (''name'', AS (js ''website'')), (''type'', AS (js ''text'')),
            (''tabIndex'', AN (-1)), (''autoComplete'', AS (js ''off''))] []],
      text_field (js ''name'') ''Name'' errors vs,
      email_field errors vs webmail,
      text_field (js ''company'') ''Company'' errors vs,
      size_field errors vs,
      choice_field ''checkbox'' ''agents'' ''Agents your developers use''
        (\<lambda>v. v \<in> set (value_agents vs)) agentOptions errors,
      choice_field ''radio'' ''deployment'' ''Deployment''
        (\<lambda>v. value_str vs (js ''deployment'') [] = v) deploymentOptions errors,
      plan_field plan vs,
      message_field errors vs]"

definition DemoForm :: "plan_id option \<Rightarrow> jstr \<Rightarrow> demo_state \<Rightarrow> bool \<Rightarrow> bool \<Rightarrow> node" where
  "DemoForm plan startedAt state webmail pending =
     (if state = Ok
      then El ''p'' [(''tabIndex'', AN (-1)), (''role'', AS (js ''status''))]
             [Txt (js ''Thanks '' @ [8212] @ js '' we have your request and will reply by email.'')]
      else El ''form'' [(''noValidate'', AB True)]
             (failed_alert state @
              form_fields plan startedAt (state_errors state) (state_values state) webmail @
              [El ''Button'' [(''type'', AS (js ''submit'')), (''disabled'', AB pending)]
                 [Txt (if pending then js ''Sending'' @ [8230] else js ''Request demo'')]]))"

text \<open>What the effects focus after a new state: the first control of the first field in error.\<close>

definition querySelector_name :: "jstr \<Rightarrow> node \<Rightarrow> node option" where
  "querySelector_name f v = find (\<lambda>n. node_attr n ''name'' = Some (AS f)) (nodes [v])"

definition focus_after :: "demo_state \<Rightarrow> node \<Rightarrow> node option" where
  "focus_after state v =
     (case state of
        Invalid errs vs \<Rightarrow>
          (case find (\<lambda>f. truthy (errs f)) FIELD_ORDER of
             None \<Rightarrow> None | Some first \<Rightarrow> querySelector_name first v)
      | Ok \<Rightarrow> find (\<lambda>n. node_attr n ''role'' = Some (AS (js ''status''))) (nodes [v])
      | Failed inbox vs \<Rightarrow> find (\<lambda>n. node_attr n ''role'' = Some (AS (js ''alert''))) (nodes [v])
      | Idle \<Rightarrow> None)"

definition email_blur :: "(jstr \<Rightarrow> jstr) \<Rightarrow> jstr \<Rightarrow> bool" where
  "email_blur lc value = isWebmail lc value"

text \<open>The page: the plan of the link is the form's preset, the time of rendering its start.\<close>

definition DemoPage :: "(jstr \<Rightarrow> zval option) \<Rightarrow> jstr \<Rightarrow> demo_state \<Rightarrow> bool \<Rightarrow> bool \<Rightarrow> node" where
  "DemoPage searchParams now state webmail pending =
     El ''div'' []
       [El ''h1'' [] [Txt (js ''Request a demo'')],
        El ''p'' [] [Txt (js ''Tell us which agents your developers use. We will reply by email.'')],
        DemoForm (parsePlan (searchParams (js ''plan''))) now state webmail pending]"

section \<open>What the browser submits\<close>

text \<open>
  The form data set of a freshly rendered form (HTML, form submission): text controls send their
  value, checkboxes and radio buttons only when checked, a select the option React selected for
  its default value (the first enabled one when none has it) unless that option is disabled.
\<close>

fun attr_text :: "attr option \<Rightarrow> jstr" where
  "attr_text (Some (AS s)) = s"
| "attr_text _ = []"

definition enabled_option :: "node \<Rightarrow> bool" where
  "enabled_option n \<longleftrightarrow> node_attr n ''disabled'' \<noteq> Some (AB True)"

definition selected_option :: "jstr \<Rightarrow> node list \<Rightarrow> node option" where
  "selected_option v opts =
     (case find (\<lambda>n. attr_text (node_attr n ''value'') = v) opts of
        Some n \<Rightarrow> Some n | None \<Rightarrow> find enabled_option opts)"

fun entries :: "node \<Rightarrow> form" where
  "entries (Txt s) = []"
| "entries (El t a cs) =
     (let name = attr_text (map_of a ''name'') in
      if t = ''Input'' \<or> t = ''Textarea'' then [(name, FStr (attr_text (map_of a ''defaultValue'')))]
      else if t = ''input'' then
        (if map_of a ''type'' \<in> {Some (AS (js ''checkbox'')), Some (AS (js ''radio''))}
         then (if map_of a ''defaultChecked'' = Some (AB True) then [(name, FStr (attr_text (map_of a ''value'')))] else [])
         else [(name, FStr (attr_text (map_of a ''value'')))])
      else if t = ''select'' then
        (case selected_option (attr_text (map_of a ''defaultValue'')) cs of
           None \<Rightarrow> []
         | Some n \<Rightarrow> if enabled_option n then [(name, FStr (attr_text (node_attr n ''value'')))] else [])
      else concat (map entries cs))"

text \<open>The values a person can enter on the page: the offered choices, in the order of the page.\<close>

definition page_form :: "form \<Rightarrow> bool" where
  "page_form form \<longleftrightarrow>
     form_field form (js ''size'') \<in> set ([] # option_values sizeOptions) \<and>
     form_agents form = filter (\<lambda>v. v \<in> set (form_agents form)) (option_values agentOptions) \<and>
     form_field form (js ''deployment'') \<in> set ([] # option_values deploymentOptions) \<and>
     form_field form (js ''plan'') \<in> set ([] # map plan_value planIds)"


section \<open>Lemmas on the entries\<close>

lemma map_of_opt_attr [simp]:
  "map_of (opt_attr k v) k' = (if k' = k then map_option AS v else None)"
  by (cases v) (auto simp: opt_attr_def)

lemma entries_ErrorText [simp]: "concat (map entries (ErrorText f errors)) = []"
  by (simp add: ErrorText_def)

lemma entries_text_field:
  "entries (text_field f label errors vs) = [(f, FStr (value_str vs f []))]"
  by (simp add: text_field_def field_attrs_def Let_def map_add_def split: option.splits)

lemma entries_email_field:
  "entries (email_field errors vs w) = [(js ''email'', FStr (value_str vs (js ''email'') []))]"
  by (simp add: email_field_def Let_def)

lemma entries_message_field:
  "entries (message_field errors vs) = [(js ''message'', FStr (value_str vs (js ''message'') []))]"
  by (simp add: message_field_def field_attrs_def Let_def map_add_def split: option.splits)

lemma entries_choices:
  assumes "kind = ''checkbox'' \<or> kind = ''radio''"
  shows "concat (map entries (map (choice kind name checked) opts)) =
    map (\<lambda>v. (js name, FStr v)) (filter checked (option_values opts))"
  using assms by (induction opts) (auto simp: choice_def option_values_def Let_def)

lemma entries_choice_field:
  assumes "kind = ''checkbox'' \<or> kind = ''radio''"
  shows "entries (choice_field kind name legend checked opts errors) =
    map (\<lambda>v. (js name, FStr v)) (filter checked (option_values opts))"
  using entries_choices [OF assms, of name checked opts] by (simp add: choice_field_def Let_def)

lemma selected_plain:
  assumes "v \<in> f ` set xs"
  shows "\<exists>n. find (\<lambda>n. attr_text (node_attr n ''value'') = v)
      (map (\<lambda>x. El ''option'' [(''value'', AS (f x))] [Txt (g x)]) xs) = Some n \<and>
    attr_text (node_attr n ''value'') = v \<and> enabled_option n"
  using assms by (induction xs) (auto simp: enabled_option_def)

lemma entries_size_field:
  assumes "value_str vs (js ''size'') [] \<in> set ([] # option_values sizeOptions)"
  shows "entries (size_field errors vs) =
    (if value_str vs (js ''size'') [] = [] then [] else [(js ''size'', FStr (value_str vs (js ''size'') []))])"
proof (cases "value_str vs (js ''size'') [] = []")
  case True
  then show ?thesis
    by (simp add: size_field_def field_attrs_def Let_def selected_option_def enabled_option_def map_add_def
        split: option.splits)
next
  case False
  let ?v = "value_str vs (js ''size'') []"
  have "?v \<in> fst ` set sizeOptions" using assms False by (simp add: option_values_def)
  from selected_plain [OF this, of snd] obtain n where
    "find (\<lambda>n. attr_text (node_attr n ''value'') = ?v)
       (map (\<lambda>x. El ''option'' [(''value'', AS (fst x))] [Txt (snd x)]) sizeOptions) = Some n"
    "attr_text (node_attr n ''value'') = ?v" "enabled_option n" by blast
  with False show ?thesis
    by (simp add: size_field_def field_attrs_def Let_def selected_option_def map_add_def split_def split: option.splits)
qed

lemma entries_plan_field:
  assumes "value_str vs (js ''plan'') (case plan of None \<Rightarrow> [] | Some p \<Rightarrow> plan_value p) \<in> set ([] # map plan_value planIds)"
  shows "entries (plan_field plan vs) =
    [(js ''plan'', FStr (value_str vs (js ''plan'') (case plan of None \<Rightarrow> [] | Some p \<Rightarrow> plan_value p)))]"
proof -
  let ?v = "value_str vs (js ''plan'') (case plan of None \<Rightarrow> [] | Some p \<Rightarrow> plan_value p)"
  show ?thesis
  proof (cases "?v = []")
    case True
    then show ?thesis by (simp add: plan_field_def Let_def selected_option_def enabled_option_def)
  next
    case False
    have "map plan_value planIds = map (\<lambda>t. plan_value (t_id t)) (pr_tiers pricing)"
      by (simp add: pricing_def pricing_tiers_def planIds_def)
    then have "?v \<in> (\<lambda>t. plan_value (t_id t)) ` set (pr_tiers pricing)"
      using assms False by (metis image_set set_ConsD)
    from selected_plain [OF this, of t_name] obtain n where
      "find (\<lambda>n. attr_text (node_attr n ''value'') = ?v)
         (map (\<lambda>t. El ''option'' [(''value'', AS (plan_value (t_id t)))] [Txt (t_name t)]) (pr_tiers pricing)) = Some n"
      "attr_text (node_attr n ''value'') = ?v" "enabled_option n" by blast
    with False False [symmetric] show ?thesis by (simp add: plan_field_def Let_def selected_option_def)
  qed
qed

lemma entries_failed_alert [simp]: "concat (map entries (failed_alert s)) = []"
  by (cases s) (simp_all add: Let_def)


text \<open>The entries of the form as rendered.\<close>

definition rendered_entries :: "jstr \<Rightarrow> form_values \<Rightarrow> jstr \<Rightarrow> form" where
  "rendered_entries startedAt vs plan =
     [(js ''startedAt'', FStr startedAt), (js ''website'', FStr []),
      (js ''name'', FStr (value_str vs (js ''name'') [])), (js ''email'', FStr (value_str vs (js ''email'') [])),
      (js ''company'', FStr (value_str vs (js ''company'') []))] @
     (if value_str vs (js ''size'') [] = [] then [] else [(js ''size'', FStr (value_str vs (js ''size'') []))]) @
     map (\<lambda>v. (js ''agents'', FStr v)) (filter (\<lambda>v. v \<in> set (value_agents vs)) (option_values agentOptions)) @
     map (\<lambda>v. (js ''deployment'', FStr v))
       (filter (\<lambda>v. value_str vs (js ''deployment'') [] = v) (option_values deploymentOptions)) @
     [(js ''plan'', FStr plan), (js ''message'', FStr (value_str vs (js ''message'') []))]"

lemma entries_form:
  assumes "state \<noteq> Ok" "vs = state_values state"
    and "value_str vs (js ''size'') [] \<in> set ([] # option_values sizeOptions)"
    and "p = value_str vs (js ''plan'') (case plan of None \<Rightarrow> [] | Some p \<Rightarrow> plan_value p)"
    and "p \<in> set ([] # map plan_value planIds)"
  shows "entries (DemoForm plan startedAt state webmail pending) = rendered_entries startedAt vs p"
  using assms
  by (simp add: DemoForm_def form_fields_def rendered_entries_def entries_text_field entries_email_field
      entries_size_field entries_choice_field entries_plan_field entries_message_field Let_def
      )

lemma entry_strings_map [simp]: "entry_strings (map (\<lambda>x. FStr (f x)) xs) = map f xs"
  by (induction xs) auto

lemma map_of_other_key: "k \<noteq> k' \<Longrightarrow> map_of (map (\<lambda>v. (k', f v)) xs) k = None"
  by (induction xs) auto

lemma filter_eq_distinct: "distinct xs \<Longrightarrow> filter (\<lambda>v. s = v) xs = (if s \<in> set xs then [s] else [])"
  by (induction xs) auto

lemma deployment_values: "distinct (option_values deploymentOptions)" "[] \<notin> set (option_values deploymentOptions)"
  by (simp_all add: option_values_def deploymentOptions_def)

lemma form_field_rendered:
  assumes "value_str vs (js ''deployment'') [] \<in> set ([] # option_values deploymentOptions)"
  shows "form_field (rendered_entries startedAt vs p) (js ''name'') = value_str vs (js ''name'') []"
    "form_field (rendered_entries startedAt vs p) (js ''email'') = value_str vs (js ''email'') []"
    "form_field (rendered_entries startedAt vs p) (js ''company'') = value_str vs (js ''company'') []"
    "form_field (rendered_entries startedAt vs p) (js ''size'') = value_str vs (js ''size'') []"
    "form_field (rendered_entries startedAt vs p) (js ''deployment'') = value_str vs (js ''deployment'') []"
    "form_field (rendered_entries startedAt vs p) (js ''plan'') = p"
    "form_field (rendered_entries startedAt vs p) (js ''message'') = value_str vs (js ''message'') []"
    "form_field (rendered_entries startedAt vs p) (js ''website'') = []"
    "form_agents (rendered_entries startedAt vs p) = filter (\<lambda>v. v \<in> set (value_agents vs)) (option_values agentOptions)"
  using assms deployment_values(2)
  by (auto simp: form_field_def form_get_def rendered_entries_def map_add_def map_of_other_key
      filter_eq_distinct [OF deployment_values(1)] form_agents_def form_getAll_def filter_map o_def)


lemma value_str_readValues: "k \<in> set TEXT_FIELDS \<Longrightarrow> value_str (readValues form) k d = form_field form k"
  by (simp add: value_str_def readValues_field)

lemma value_agents_readValues: "value_agents (readValues form) = form_agents form"
  by (simp add: value_agents_def readValues_agents)

lemma readValues_cong:
  assumes "\<forall>k \<in> set TEXT_FIELDS. form_field f k = form_field g k" "form_agents f = form_agents g"
  shows "readValues f = readValues g"
  using assms by (simp add: readValues_def TEXT_FIELDS_def form_field_def form_agents_def)

lemma page_form_values:
  assumes "page_form form"
  shows "value_str (readValues form) (js ''size'') [] \<in> set ([] # option_values sizeOptions)"
    "value_str (readValues form) (js ''deployment'') [] \<in> set ([] # option_values deploymentOptions)"
    "value_str (readValues form) (js ''plan'') d \<in> set ([] # map plan_value planIds)"
  using assms by (simp_all add: page_form_def value_str_readValues TEXT_FIELDS_def)

lemma readValues_rendered:
  assumes "page_form form"
  shows "readValues (rendered_entries startedAt (readValues form) (form_field form (js ''plan''))) = readValues form"
proof (rule readValues_cong)
  note r = form_field_rendered [OF page_form_values(2) [OF assms]]
  show "\<forall>k \<in> set TEXT_FIELDS. form_field (rendered_entries startedAt (readValues form) (form_field form (js ''plan''))) k =
      form_field form k"
    by (simp add: TEXT_FIELDS_def r value_str_readValues)
  show "form_agents (rendered_entries startedAt (readValues form) (form_field form (js ''plan''))) = form_agents form"
    unfolding r(9) value_agents_readValues using assms by (simp add: page_form_def)
qed

section \<open>Lemmas on errors and focus\<close>

lemma ErrorText_shown:
  "truthy (errs f) \<Longrightarrow> ErrorText f errs = [El ''p'' [(''id'', AS (f @ js ''-error''))] [Txt (the (errs f))]]"
  by (simp add: ErrorText_def)

definition error_shown :: "field_texts \<Rightarrow> jstr \<Rightarrow> node \<Rightarrow> bool" where
  "error_shown errs f v \<longleftrightarrow>
     El ''p'' [(''id'', AS (f @ js ''-error''))] [Txt (the (errs f))] \<in> set (nodes [v])"

lemma error_shown_child:
  "error_shown errs f c \<Longrightarrow> c \<in> set cs \<Longrightarrow> error_shown errs f (El t a cs)"
  by (auto simp: error_shown_def nodes_def)

lemma error_text_child:
  "truthy (errs f) \<Longrightarrow> set (ErrorText f errs) \<subseteq> set cs \<Longrightarrow> error_shown errs f (El t a cs)"
  by (rule error_shown_child [of errs f "El ''p'' [(''id'', AS (f @ js ''-error''))] [Txt (the (errs f))]"])
    (auto simp: ErrorText_shown error_shown_def)

lemma field_shows_error:
  "truthy (errs f) \<Longrightarrow> error_shown errs f (text_field f label errs vs)"
  "truthy (errs (js ''email'')) \<Longrightarrow> error_shown errs (js ''email'') (email_field errs vs webmail)"
  "truthy (errs (js ''size'')) \<Longrightarrow> error_shown errs (js ''size'') (size_field errs vs)"
  "truthy (errs (js name)) \<Longrightarrow> error_shown errs (js name) (choice_field kind name legend checked opts errs)"
  "truthy (errs (js ''message'')) \<Longrightarrow> error_shown errs (js ''message'') (message_field errs vs)"
  unfolding text_field_def email_field_def size_field_def choice_field_def message_field_def
  by (rule error_text_child; force)+

lemma errors_in_form:
  assumes "f \<in> set FIELD_ORDER" "f \<noteq> js ''plan''" "truthy (errs f)"
  shows "error_shown errs f (DemoForm plan startedAt (Invalid errs vs) webmail pending)"
proof -
  have "\<exists>c \<in> set (form_fields plan startedAt errs vs webmail). error_shown errs f c"
    using assms field_shows_error [of errs]
    by (auto simp: FIELD_ORDER_def form_fields_def)
  then obtain c where c: "c \<in> set (form_fields plan startedAt errs vs webmail)" "error_shown errs f c" ..
  have "DemoForm plan startedAt (Invalid errs vs) webmail pending =
      El ''form'' [(''noValidate'', AB True)]
        (form_fields plan startedAt errs vs webmail @
         [El ''Button'' [(''type'', AS (js ''submit'')), (''disabled'', AB pending)]
            [Txt (if pending then js ''Sending'' @ [8230] else js ''Request demo'')]])"
    by (simp add: DemoForm_def)
  then show ?thesis using error_shown_child [OF c(2)] c(1) by simp
qed

text \<open>The names of the controls of a view, in document order.\<close>

definition control_names :: "node list \<Rightarrow> attr list" where
  "control_names v = concat (map (\<lambda>n. case node_attr n ''name'' of None \<Rightarrow> [] | Some a \<Rightarrow> [a]) (nodes v))"

lemma control_names_simps [simp]:
  "control_names [] = []" "control_names (Txt s # v) = control_names v"
  "control_names (El t a cs # v) =
     (case map_of a ''name'' of None \<Rightarrow> [] | Some n \<Rightarrow> [n]) @ control_names cs @ control_names v"
  "control_names (v @ w) = control_names v @ control_names w"
  by (simp_all add: control_names_def)

lemma control_names_Cons: "control_names (n # m # v) = control_names [n] @ control_names (m # v)"
  using control_names_simps(4) [of "[n]" "m # v"] by simp

lemma control_names_ErrorText [simp]: "control_names (ErrorText f errs) = []"
  by (simp add: ErrorText_def)

lemma control_names_no_attr:
  "(\<And>x. x \<in> set xs \<Longrightarrow> control_names [f x] = []) \<Longrightarrow> control_names (map f xs) = []"
proof (induction xs)
  case (Cons x xs)
  then show ?case using control_names_simps(4) [of "[f x]" "map f xs"] by simp
qed simp

lemma control_names_choices: "control_names (map (choice kind name checked) opts) = map (\<lambda>_. AS (js name)) opts"
proof (induction opts)
  case (Cons x xs)
  then show ?case
    using control_names_simps(4) [of "[choice kind name checked x]" "map (choice kind name checked) xs"]
    by (simp add: choice_def)
qed simp

lemma control_names_fields [simp]:
  "control_names [text_field f label errs vs] = [AS f]"
  "control_names [email_field errs vs webmail] = [AS (js ''email'')]"
  "control_names [size_field errs vs] = [AS (js ''size'')]"
  "control_names [choice_field kind name legend checked opts errs] = map (\<lambda>_. AS (js name)) opts"
  "control_names [plan_field plan vs] = [AS (js ''plan'')]"
  "control_names [message_field errs vs] = [AS (js ''message'')]"
  by (simp_all add: text_field_def email_field_def size_field_def choice_field_def plan_field_def message_field_def
      field_attrs_def control_names_choices control_names_no_attr split_def)

lemma control_names_form:
  "control_names [DemoForm plan startedAt (Invalid errs vs) webmail pending] =
     map (\<lambda>f. AS (js f)) [''startedAt'', ''website'', ''name'', ''email'', ''company'', ''size'',
       ''agents'', ''agents'', ''agents'', ''agents'', ''deployment'', ''deployment'', ''deployment'', ''plan'', ''message'']"
  by (simp add: DemoForm_def form_fields_def control_names_Cons agentOptions_def deploymentOptions_def)

fun attr_error :: "field_texts \<Rightarrow> attr \<Rightarrow> bool" where
  "attr_error errs (AS f) = truthy (errs f)"
| "attr_error errs a = False"

text \<open>A control whose field is in error.\<close>

definition error_control :: "field_texts \<Rightarrow> node \<Rightarrow> bool" where
  "error_control errs n \<longleftrightarrow> (case node_attr n ''name'' of None \<Rightarrow> False | Some a \<Rightarrow> attr_error errs a)"

lemma find_error_control:
  "find (error_control errs) ns =
     (case find (attr_error errs) (concat (map (\<lambda>n. case node_attr n ''name'' of None \<Rightarrow> [] | Some a \<Rightarrow> [a]) ns)) of
        None \<Rightarrow> None | Some a \<Rightarrow> find (\<lambda>n. node_attr n ''name'' = Some a) ns)"
proof (induction ns)
  case (Cons n ns)
  show ?case
  proof (cases "node_attr n ''name''")
    case None
    with Cons show ?thesis by (auto simp: error_control_def split: option.splits)
  next
    case (Some a)
    with Cons show ?thesis by (auto simp: error_control_def split: option.splits dest: find_Some_mem)
  qed
qed simp

lemma find_AS: "find (attr_error errs) (map AS fs) = map_option AS (find (\<lambda>f. truthy (errs f)) fs)"
  by (induction fs) auto

lemma first_error_name:
  assumes "\<not> truthy (errs (js ''startedAt''))" "\<not> truthy (errs (js ''website''))"
  shows "find (attr_error errs) (control_names [DemoForm plan startedAt (Invalid errs vs) webmail pending]) =
    map_option AS (find (\<lambda>f. truthy (errs f)) FIELD_ORDER)"
  using assms unfolding control_names_form FIELD_ORDER_def by simp

lemma focus_first_error:
  assumes "\<not> truthy (errs (js ''startedAt''))" "\<not> truthy (errs (js ''website''))"
    and v: "v = DemoForm plan startedAt (Invalid errs vs) webmail pending"
  shows "focus_after (Invalid errs vs) v = find (error_control errs) (nodes [v])"
  using first_error_name [OF assms(1,2), of plan startedAt vs webmail pending]
  unfolding find_error_control v control_names_def
  by (auto simp: focus_after_def querySelector_name_def split: option.splits)


section \<open>Properties\<close>

text \<open>Nothing entered is lost when the server answers with a problem: the form rendered for the answer,
  submitted again untouched, sends exactly the values that were sent before, and leaves the
  honeypot empty. (Line breaks of the message count as one kind, as forms submit them.)\<close>

theorem resubmission_keeps_values:
  assumes "page_form form"
    and "state = Invalid errs (readValues form) \<or> state = Failed inbox (readValues form)"
  shows "readValues (entries (DemoForm plan startedAt state webmail pending)) = readValues form \<and>
    \<not> honeypot_filled (entries (DemoForm plan startedAt state webmail pending))"
proof -
  have vs: "state_values state = readValues form" "state \<noteq> Ok" using assms(2) by auto
  have plan: "value_str (readValues form) (js ''plan'') d = form_field form (js ''plan'')" for d
    by (simp add: value_str_readValues TEXT_FIELDS_def)
  have "entries (DemoForm plan startedAt state webmail pending) =
      rendered_entries startedAt (readValues form) (form_field form (js ''plan''))"
    by (rule entries_form [OF vs(2)])
      (use page_form_values [OF assms(1)] in \<open>simp_all add: vs plan\<close>)
  then show ?thesis
    using readValues_rendered [OF assms(1)] form_field_rendered(8) [OF page_form_values(2) [OF assms(1)]]
    by (simp add: honeypot_filled_def form_field_def)
qed

definition sample_page_form :: form where
  "sample_page_form =
     [(js ''name'', FStr (js ''Ada'')), (js ''size'', FStr (js ''1-50'')), (js ''agents'', FStr (js ''codex'')),
      (js ''deployment'', FStr (js ''hosted'')), (js ''plan'', FStr (js ''team''))]"

theorem resubmission_keeps_values_witness:
  "readValues (entries (DemoForm None (js ''0'') (Failed None (readValues sample_page_form)) False False)) =
     readValues sample_page_form"
proof -
  have "page_form sample_page_form"
    by (simp add: page_form_def option_values_def sizeOptions_def agentOptions_def deploymentOptions_def planIds_def
        form_field_def form_agents_def form_get_def form_getAll_def sample_page_form_def)
  from resubmission_keeps_values [OF this, of "Failed None (readValues sample_page_form)"] show ?thesis by blast
qed

text \<open>C33. A rejected submission is explained on the page: every field the server rejected has its message
  rendered in the form it answers with, and the focus goes to the first control in document order
  whose field was rejected; it is one of the form's fields, never a hidden one.\<close>

theorem rejected_fields_explained:
  assumes "zod isEmail run safeParse"
    and "fst (submitDemo safeParse number form deps) = Invalid errs vs"
    and "v = DemoForm plan startedAt (Invalid errs vs) webmail pending"
  shows "(\<forall>f m. errs f = Some m \<longrightarrow> m \<noteq> [] \<longrightarrow> f \<in> set FIELD_ORDER \<and> error_shown errs f v) \<and>
    focus_after (Invalid errs vs) v = find (error_control errs) (nodes [v])"
proof -
  obtain iss where iss: "safeParse demoSchema (schema_input (readValues form)) = Inl iss" "errs = field_errors iss"
    using assms(2) by (auto simp: submitDemo_def Let_def split: if_splits sum.splits)
  have dom: "dom errs = invalid_fields isEmail form"
    unfolding iss(2) by (rule zod.failed_fields [OF assms(1) iss(1)])
  have inv: "invalid_fields isEmail form \<subseteq> set FIELD_ORDER - {js ''plan''}"
    by (auto simp: invalid_fields_def field_checks_def FIELD_ORDER_def Let_def)
  have shown: "f \<in> set FIELD_ORDER \<and> error_shown errs f v" if "errs f = Some m" "m \<noteq> []" for f m
  proof -
    have f: "f \<in> set FIELD_ORDER" "f \<noteq> js ''plan''" using that(1) dom inv by auto
    moreover have "truthy (errs f)" using that by (simp add: truthy_Some)
    ultimately show ?thesis unfolding assms(3) using errors_in_form by blast
  qed
  have "js ''startedAt'' \<notin> dom errs" "js ''website'' \<notin> dom errs"
    unfolding dom using inv by (auto simp: FIELD_ORDER_def)
  then have "errs (js ''startedAt'') = None" "errs (js ''website'') = None" by (simp_all add: domIff)
  then have "focus_after (Invalid errs vs) v = find (error_control errs) (nodes [v])"
    by (intro focus_first_error [OF _ _ assms(3)]) simp_all
  with shown show ?thesis by blast
qed


theorem rejected_fields_explained_witness:
  "\<exists>errs vs v. fst (submitDemo (zod_ref plain_email) no_number [] (action_deps sample_resend sample_env 0)) = Invalid errs vs \<and>
     v = DemoForm None (js ''0'') (Invalid errs vs) False False \<and>
     focus_after (Invalid errs vs) v = find (error_control errs) (nodes [v])"
proof -
  obtain errs vs where e: "fst (submitDemo (zod_ref plain_email) no_number [] (action_deps sample_resend sample_env 0)) = Invalid errs vs"
    using zod.submit_invalid [OF zref.zod_axioms sample_not_spam(2) empty_invalid, of "action_deps sample_resend sample_env 0"]
    by auto
  with rejected_fields_explained [OF zref.zod_axioms e refl] show ?thesis by blast
qed

end
