(* ===== verification/Unicode.thy ===== *)
theory Unicode
  imports Prelude
begin

text \<open>
  Code points, UTF-8 and \<open>encodeURIComponent\<close>, which the console uses to put a machine id or a
  user name into a request path, and the interface \<open>symbol_code\<close> that every escaping of the
  program satisfies: symbols are encoded one by one and the first symbol of an encoded text can
  be decoded without looking further. Decoding a whole escaped text is then the identity.
\<close>

section \<open>Surrogate pairs and code points\<close>

definition is_hi :: "nat \<Rightarrow> bool" where
  "is_hi c \<longleftrightarrow> 55296 \<le> c \<and> c \<le> 56319"

definition is_lo :: "nat \<Rightarrow> bool" where
  "is_lo c \<longleftrightarrow> 56320 \<le> c \<and> c \<le> 57343"

declare is_hi_def [js_eval] is_lo_def [js_eval]

fun code_points :: "jstr \<Rightarrow> nat list" where
  "code_points [] = []"
| "code_points [c] = [c]"
| "code_points (c # d # cs) =
     (if is_hi c \<and> is_lo d
      then (65536 + (c - 55296) * 1024 + (d - 56320)) # code_points cs
      else c # code_points (d # cs))"

definition units_of :: "nat \<Rightarrow> jstr" where
  "units_of p = (if p < 65536 then [p]
     else [55296 + (p - 65536) div 1024, 56320 + (p - 65536) mod 1024])"

declare units_of_def [js_eval]

text \<open>A code point that UTF-8 can carry: a Unicode scalar value.\<close>

definition is_scalar :: "nat \<Rightarrow> bool" where
  "is_scalar p \<longleftrightarrow> p < 1114112 \<and> \<not> is_hi p \<and> \<not> is_lo p"

declare is_scalar_def [js_eval]

lemma units_code_points: "concat (map units_of (code_points s)) = s"
  if "\<forall>c \<in> set s. c < 65536"
  using that
proof (induction s rule: code_points.induct)
  case (3 c d cs)
  show ?case
  proof (cases "is_hi c \<and> is_lo d")
    case True
    define p where "p = 65536 + (c - 55296) * 1024 + (d - 56320)"
    from True have lt: "d - 56320 < 1024" and c: "55296 \<le> c" and d: "56320 \<le> d"
      by (auto simp: is_hi_def is_lo_def)
    have "(p - 65536) div 1024 = c - 55296" "(p - 65536) mod 1024 = d - 56320"
      using lt by (simp_all add: p_def)
    with c d have "units_of p = [c, d]" by (simp add: units_of_def p_def)
    with True 3 show ?thesis by (simp add: p_def)
  next
    case False
    with 3 show ?thesis by (auto simp: units_of_def)
  qed
qed (auto simp: units_of_def)

section \<open>The interface of an escaping\<close>

fun decode_all :: "(jstr \<Rightarrow> (nat \<times> jstr) option) \<Rightarrow> nat \<Rightarrow> jstr \<Rightarrow> nat list option" where
  "decode_all dec n [] = Some []"
| "decode_all dec 0 (c # cs) = None"
| "decode_all dec (Suc n) (c # cs) =
     (case dec (c # cs) of None \<Rightarrow> None
      | Some (x, r) \<Rightarrow> map_option (Cons x) (decode_all dec n r))"

locale symbol_code =
  fixes valid :: "nat \<Rightarrow> bool"
    and enc :: "nat \<Rightarrow> jstr"
    and dec :: "jstr \<Rightarrow> (nat \<times> jstr) option"
  assumes dec_enc: "valid c \<Longrightarrow> dec (enc c @ r) = Some (c, r)"
    and enc_nonempty: "valid c \<Longrightarrow> enc c \<noteq> []"
begin

lemma decode_encode_fuel:
  "\<forall>c \<in> set cs. valid c \<Longrightarrow> length (concat (map enc cs)) \<le> n \<Longrightarrow>
     decode_all dec n (concat (map enc cs)) = Some cs"
proof (induction cs arbitrary: n)
  case (Cons c cs)
  from Cons.prems obtain x xs where x: "enc c = x # xs"
    using enc_nonempty by (cases "enc c") auto
  with Cons.prems obtain m where m: "n = Suc m" by (cases n) auto
  have "dec (enc c @ concat (map enc cs)) = Some (c, concat (map enc cs))"
    using Cons.prems by (simp add: dec_enc)
  moreover have "decode_all dec m (concat (map enc cs)) = Some cs"
    using Cons x m by auto
  ultimately show ?case by (simp add: x m)
qed simp

lemma decode_encode:
  "\<forall>c \<in> set cs. valid c \<Longrightarrow>
     decode_all dec (length (concat (map enc cs))) (concat (map enc cs)) = Some cs"
  by (rule decode_encode_fuel [OF _ order_refl])

lemma encode_injective:
  "\<forall>c \<in> set cs. valid c \<Longrightarrow> \<forall>c \<in> set ds. valid c \<Longrightarrow>
     concat (map enc cs) = concat (map enc ds) \<Longrightarrow> cs = ds"
  by (metis decode_encode option.inject)

end

section \<open>UTF-8 and percent-encoding\<close>

definition utf8 :: "nat \<Rightarrow> nat list" where
  "utf8 p =
     (if p < 128 then [p]
      else if p < 2048 then [192 + p div 64, 128 + p mod 64]
      else if p < 65536 then [224 + p div 4096, 128 + p div 64 mod 64, 128 + p mod 64]
      else [240 + p div 262144, 128 + p div 4096 mod 64, 128 + p div 64 mod 64, 128 + p mod 64])"

definition hex_digit :: "nat \<Rightarrow> nat" where
  "hex_digit n = (if n < 10 then 48 + n else 55 + n)"

definition percent :: "nat \<Rightarrow> jstr" where
  "percent b = [37, hex_digit (b div 16), hex_digit (b mod 16)]"

text \<open>The characters \<open>encodeURIComponent\<close> leaves alone: letters, digits and \<open>-_.!~*'()\<close>.\<close>

definition uri_unreserved :: "nat \<Rightarrow> bool" where
  "uri_unreserved c \<longleftrightarrow> is_word c \<or> c \<in> {45, 46, 33, 126, 42, 39, 40, 41}"

definition uri_enc1 :: "nat \<Rightarrow> jstr" where
  "uri_enc1 p = (if uri_unreserved p then [p] else concat (map percent (utf8 p)))"

text \<open>\<open>None\<close> is the \<open>URIError\<close> of a lone surrogate.\<close>

definition encodeURIComponent :: "jstr \<Rightarrow> jstr option" where
  "encodeURIComponent s =
     (if \<forall>p \<in> set (code_points s). is_scalar p
      then Some (concat (map uri_enc1 (code_points s))) else None)"

declare utf8_def [js_eval] hex_digit_def [js_eval] percent_def [js_eval]
  uri_unreserved_def [js_eval] uri_enc1_def [js_eval] encodeURIComponent_def [js_eval]

text \<open>A decoder of one symbol: the inverse that \<open>decodeURIComponent\<close> computes.\<close>

definition unhex :: "nat \<Rightarrow> nat" where
  "unhex c = (if c < 58 then c - 48 else c - 55)"

definition cont :: "nat \<Rightarrow> nat \<Rightarrow> nat" where
  "cont h l = 16 * unhex h + unhex l - 128"

fun uri_dec1 :: "jstr \<Rightarrow> (nat \<times> jstr) option" where
  "uri_dec1 [] = None"
| "uri_dec1 (c # s) =
     (if c \<noteq> 37 then Some (c, s)
      else case s of
        h # l # r \<Rightarrow>
          (let b = 16 * unhex h + unhex l in
           if b < 128 then Some (b, r)
           else if b < 224 then
             (case r of _ # h2 # l2 # r2 \<Rightarrow> Some (64 * (b - 192) + cont h2 l2, r2) | _ \<Rightarrow> None)
           else if b < 240 then
             (case r of _ # h2 # l2 # _ # h3 # l3 # r3 \<Rightarrow>
                Some (4096 * (b - 224) + 64 * cont h2 l2 + cont h3 l3, r3) | _ \<Rightarrow> None)
           else
             (case r of _ # h2 # l2 # _ # h3 # l3 # _ # h4 # l4 # r4 \<Rightarrow>
                Some (262144 * (b - 240) + 4096 * cont h2 l2 + 64 * cont h3 l3 + cont h4 l4, r4)
              | _ \<Rightarrow> None))
      | _ \<Rightarrow> None)"

lemma unhex_hex_digit [simp]: "n < 16 \<Longrightarrow> unhex (hex_digit n) = n"
  by (auto simp: unhex_def hex_digit_def)

lemma unhex_byte: "b < 256 \<Longrightarrow> 16 * unhex (hex_digit (b div 16)) + unhex (hex_digit (b mod 16)) = b"
  by simp

lemma cont_percent [simp]: "m < 64 \<Longrightarrow>
    cont (hex_digit ((128 + m) div 16)) (hex_digit ((128 + m) mod 16)) = m"
  unfolding cont_def by (subst unhex_byte) auto

lemma mod64_less: "(x::nat) mod 64 < 64"
  by simp

lemma split64: "64 * (p div 64) + p mod 64 = (p::nat)"
  by simp

lemma split4096: "4096 * (p div 4096) + 64 * (p div 64 mod 64) + p mod 64 = (p::nat)"
proof -
  have "p div 64 = 64 * (p div 64 div 64) + p div 64 mod 64" by simp
  then have "64 * (p div 64) = 4096 * (p div 4096) + 64 * (p div 64 mod 64)"
    by (simp add: div_mult2_eq [of p 64 64, simplified, symmetric])
  then show ?thesis using split64 [of p] by simp
qed

lemma split262144:
  "262144 * (p div 262144) + 4096 * (p div 4096 mod 64) + 64 * (p div 64 mod 64) + p mod 64 = (p::nat)"
proof -
  have "p div 4096 = 64 * (p div 4096 div 64) + p div 4096 mod 64" by simp
  then have "4096 * (p div 4096) = 262144 * (p div 262144) + 4096 * (p div 4096 mod 64)"
    by (simp add: div_mult2_eq [of p 4096 64, simplified, symmetric])
  then show ?thesis using split4096 [of p] by simp
qed

lemma uri_unreserved_ascii: "uri_unreserved p \<Longrightarrow> p \<noteq> 37 \<and> 32 < p \<and> p < 127"
  by (auto simp: uri_unreserved_def is_word_def is_digit_def)

lemma hex_pair_div [simp]: "b < 256 \<Longrightarrow> unhex (hex_digit (b div 16)) = b div 16"
  and hex_pair_mod [simp]: "unhex (hex_digit (b mod 16)) = b mod 16" for b :: nat
  by simp_all

lemma uri_dec_enc: "uri_dec1 (uri_enc1 p @ r) = Some (p, r)" if "is_scalar p"
proof -
  have p: "p < 1114112" using that by (simp add: is_scalar_def)
  consider "uri_unreserved p" | "\<not> uri_unreserved p" "p < 128"
    | "\<not> uri_unreserved p" "128 \<le> p" "p < 2048" | "\<not> uri_unreserved p" "2048 \<le> p" "p < 65536"
    | "\<not> uri_unreserved p" "65536 \<le> p"
    by linarith
  then show ?thesis
  proof cases
    case 1
    then show ?thesis using uri_unreserved_ascii [of p] by (simp add: uri_enc1_def)
  next
    case 2
    then show ?thesis by (simp add: uri_enc1_def utf8_def percent_def unhex_byte)
  next
    case 3
    then have b: "192 + p div 64 < 224" by linarith
    from 3 b show ?thesis
      by (simp add: uri_enc1_def utf8_def percent_def unhex_byte split64)
  next
    case 4
    then have b: "224 + p div 4096 < 240" by linarith
    from 4 b show ?thesis
      by (simp add: uri_enc1_def utf8_def percent_def unhex_byte split4096)
  next
    case 5
    then have b: "240 + p div 262144 < 256" using p by linarith
    from 5 b show ?thesis
      by (simp add: uri_enc1_def utf8_def percent_def unhex_byte split262144)
  qed
qed

interpretation uri: symbol_code is_scalar uri_enc1 uri_dec1
  by unfold_locales (simp_all add: uri_dec_enc, auto simp: uri_enc1_def utf8_def percent_def)

lemma hex_digit_word: "n < 16 \<Longrightarrow> is_word (hex_digit n)"
  unfolding is_word_def is_digit_def hex_digit_def by (cases "n < 10") auto

lemma set_percent: "c \<in> set (percent b) \<Longrightarrow> b < 256 \<Longrightarrow> c = 37 \<or> is_word c"
proof -
  assume c: "c \<in> set (percent b)" and "b < 256"
  then have "b div 16 < 16" by linarith
  with c show ?thesis
    using hex_digit_word [of "b div 16"] hex_digit_word [of "b mod 16"]
    by (auto simp: percent_def)
qed

lemma utf8_bytes: "p < 1114112 \<Longrightarrow> b \<in> set (utf8 p) \<Longrightarrow> b < 256"
  by (auto simp: utf8_def split: if_splits)

lemma set_uri_enc1: "p < 1114112 \<Longrightarrow> c \<in> set (uri_enc1 p) \<Longrightarrow> c = 37 \<or> uri_unreserved c"
  by (auto simp: uri_enc1_def uri_unreserved_def split: if_splits dest!: set_percent utf8_bytes)

lemma encodeURIComponent_SomeD:
  assumes "encodeURIComponent s = Some e"
  shows "\<forall>p \<in> set (code_points s). is_scalar p" and "e = concat (map uri_enc1 (code_points s))"
  using assms by (auto simp: encodeURIComponent_def split: if_splits)

text \<open>Nothing that separates the parts of a URL survives in an encoded component.\<close>

lemma encodeURIComponent_safe:
  assumes e: "encodeURIComponent s = Some e" and c: "c \<in> set e"
  shows "c \<notin> {slash, 63, 35, 38, 61, 32}"
proof -
  from c obtain p where p: "p \<in> set (code_points s)" "c \<in> set (uri_enc1 p)"
    unfolding encodeURIComponent_SomeD(2) [OF e] by auto
  with encodeURIComponent_SomeD(1) [OF e] have "p < 1114112" by (simp add: is_scalar_def)
  then have "c = 37 \<or> uri_unreserved c" using p(2) by (rule set_uri_enc1)
  then show ?thesis by (auto simp: uri_unreserved_def is_word_def is_digit_def)
qed

lemma encodeURIComponent_inject:
  assumes s: "encodeURIComponent s = Some e" and t: "encodeURIComponent t = Some e"
    and "\<forall>c \<in> set s. c < 65536" "\<forall>c \<in> set t. c < 65536"
  shows "s = t"
proof -
  have "code_points s = code_points t"
    using encodeURIComponent_SomeD [OF s] encodeURIComponent_SomeD [OF t]
    by (metis uri.encode_injective)
  then show ?thesis using assms(3,4) by (metis units_code_points)
qed

lemma uri_enc1_nonempty [simp]: "uri_enc1 p \<noteq> []"
  by (simp add: uri_enc1_def utf8_def percent_def)

lemma code_points_eq_Nil [simp]: "code_points s = [] \<longleftrightarrow> s = []"
  by (cases s rule: code_points.cases) auto

end
