(* ===== verification/Json.thy ===== *)
theory Json
  imports Unicode
begin

text \<open>
  JSON as the program uses it: the values the console sends and receives, \<open>JSON.stringify\<close>, and
  \<^verbatim>\<open>web/components/json-ld.tsx\<close>, which writes a JSON text into a script element. A number is
  kept as the text JSON prints for it. \<open>read_json\<close> is a reader of compact JSON, the specification
  the two writers are checked against.
\<close>

section \<open>Values and their text\<close>

datatype json =
    JNull
  | JBool bool
  | JNum jstr
  | JStr jstr
  | JArr "json list"
  | JObj "(jstr \<times> json) list"

definition hex4 :: "nat \<Rightarrow> jstr" where
  "hex4 c = map (\<lambda>d. if d < 10 then 48 + d else 87 + d)
     [c div 4096 mod 16, c div 256 mod 16, c div 16 mod 16, c mod 16]"

definition u_escape :: "nat \<Rightarrow> jstr" where
  "u_escape c = 92 # 117 # hex4 c"

text \<open>The escape of one code point; a surrogate that is not part of a pair is its own code point.\<close>

definition json_enc1 :: "nat \<Rightarrow> jstr" where
  "json_enc1 p =
     (if p = 8 then [92, 98] else if p = 9 then [92, 116] else if p = 10 then [92, 110]
      else if p = 12 then [92, 102] else if p = 13 then [92, 114]
      else if p = 34 then [92, 34] else if p = 92 then [92, 92]
      else if p < 32 \<or> is_hi p \<or> is_lo p then u_escape p
      else units_of p)"

definition quote_with :: "(nat \<Rightarrow> jstr) \<Rightarrow> jstr \<Rightarrow> jstr" where
  "quote_with enc s = 34 # concat (map enc (code_points s)) @ [34]"

fun stringify_with :: "(nat \<Rightarrow> jstr) \<Rightarrow> json \<Rightarrow> jstr" where
  "stringify_with enc JNull = js ''null''"
| "stringify_with enc (JBool b) = (if b then js ''true'' else js ''false'')"
| "stringify_with enc (JNum l) = l"
| "stringify_with enc (JStr s) = quote_with enc s"
| "stringify_with enc (JArr xs) = 91 # join [44] (map (stringify_with enc) xs) @ [93]"
| "stringify_with enc (JObj kvs) =
     123 # join [44] (map (\<lambda>kv. quote_with enc (fst kv) @ 58 # stringify_with enc (snd kv)) kvs) @ [125]"

definition stringify :: "json \<Rightarrow> jstr" where
  "stringify d = stringify_with json_enc1 d"

text \<open>The text inside the script element of \<open>JsonLd\<close>.\<close>

definition JsonLd :: "json \<Rightarrow> jstr" where
  "JsonLd data = replace_unit 60 (92 # js ''u003c'') (stringify data)"

definition json_field :: "json \<Rightarrow> jstr \<Rightarrow> json option" where
  "json_field d k = (case d of JObj kvs \<Rightarrow> map_of kvs k | _ \<Rightarrow> None)"

section \<open>A reader\<close>

definition unhex1 :: "nat \<Rightarrow> nat option" where
  "unhex1 c = (if is_digit c then Some (c - 48) else if 97 \<le> c \<and> c \<le> 102 then Some (c - 87)
     else if 65 \<le> c \<and> c \<le> 70 then Some (c - 55) else None)"

fun unhex4 :: "jstr \<Rightarrow> (nat \<times> jstr) option" where
  "unhex4 (a # b # c # d # r) =
     (case (unhex1 a, unhex1 b, unhex1 c, unhex1 d) of
        (Some w, Some x, Some y, Some z) \<Rightarrow> Some (4096 * w + 256 * x + 16 * y + z, r)
      | _ \<Rightarrow> None)"
| "unhex4 _ = None"

fun json_dec1 :: "jstr \<Rightarrow> (nat \<times> jstr) option" where
  "json_dec1 [] = None"
| "json_dec1 [c] = (if c = 92 then None else Some (c, []))"
| "json_dec1 (c # e # r) =
     (if c = 92 then
        (if e = 98 then Some (8, r) else if e = 116 then Some (9, r) else if e = 110 then Some (10, r)
         else if e = 102 then Some (12, r) else if e = 114 then Some (13, r)
         else if e = 34 \<or> e = 92 \<or> e = 47 then Some (e, r)
         else if e = 117 then unhex4 r else None)
      else if is_hi c \<and> is_lo e then Some (65536 + (c - 55296) * 1024 + (e - 56320), r)
      else Some (c, e # r))"

fun read_str :: "nat \<Rightarrow> jstr \<Rightarrow> (nat list \<times> jstr) option" where
  "read_str 0 s = None"
| "read_str (Suc n) s =
     (case s of [] \<Rightarrow> None
      | c # cs \<Rightarrow> if c = 34 then Some ([], cs)
          else (case json_dec1 s of None \<Rightarrow> None
                | Some (p, r) \<Rightarrow> map_option (apfst (Cons p)) (read_str n r)))"

definition read_string :: "jstr \<Rightarrow> (jstr \<times> jstr) option" where
  "read_string s = map_option (apfst (\<lambda>ps. concat (map units_of ps))) (read_str (length s) s)"

definition is_num :: "nat \<Rightarrow> bool" where
  "is_num c \<longleftrightarrow> is_digit c \<or> c \<in> {43, 45, 46, 69, 101}"

fun read_val :: "nat \<Rightarrow> jstr \<Rightarrow> (json \<times> jstr) option"
  and read_elems :: "nat \<Rightarrow> jstr \<Rightarrow> (json list \<times> jstr) option"
  and read_members :: "nat \<Rightarrow> jstr \<Rightarrow> ((jstr \<times> json) list \<times> jstr) option" where
  "read_val 0 s = None"
| "read_val (Suc n) [] = None"
| "read_val (Suc n) (c # s) =
     (if c = 110 then map_option (Pair JNull) (strip_prefix (js ''ull'') s)
      else if c = 116 then map_option (Pair (JBool True)) (strip_prefix (js ''rue'') s)
      else if c = 102 then map_option (Pair (JBool False)) (strip_prefix (js ''alse'') s)
      else if c = 34 then map_option (apfst JStr) (read_string s)
      else if c = 91 then
        (case s of x # r \<Rightarrow> if x = 93 then Some (JArr [], r) else map_option (apfst JArr) (read_elems n s)
         | [] \<Rightarrow> None)
      else if c = 123 then
        (case s of x # r \<Rightarrow> if x = 125 then Some (JObj [], r) else map_option (apfst JObj) (read_members n s)
         | [] \<Rightarrow> None)
      else if is_num c then Some (JNum (c # takeWhile is_num s), dropWhile is_num s)
      else None)"
| "read_elems 0 s = None"
| "read_elems (Suc n) s =
     (case read_val n s of
        Some (v, c # r) \<Rightarrow>
          (if c = 93 then Some ([v], r)
           else if c = 44 then map_option (apfst (Cons v)) (read_elems n r) else None)
      | _ \<Rightarrow> None)"
| "read_members 0 s = None"
| "read_members (Suc n) s =
     (case s of q # s1 \<Rightarrow>
        (if q \<noteq> 34 then None
         else (case read_string s1 of
           Some (k, d # s2) \<Rightarrow>
             (if d \<noteq> 58 then None
              else (case read_val n s2 of
                Some (v, c # r) \<Rightarrow>
                  (if c = 125 then Some ([(k, v)], r)
                   else if c = 44 then map_option (apfst (Cons (k, v))) (read_members n r) else None)
              | _ \<Rightarrow> None))
         | _ \<Rightarrow> None))
      | [] \<Rightarrow> None)"

definition read_json :: "jstr \<Rightarrow> json option" where
  "read_json s = (case read_val (length s) s of Some (d, []) \<Rightarrow> Some d | _ \<Rightarrow> None)"

section \<open>Reading back what was written\<close>

definition json_text :: "jstr \<Rightarrow> bool" where
  "json_text s \<longleftrightarrow> list_all (\<lambda>c. c < 65536) s"

text \<open>Values that exist: units are 16-bit, and the text of a number is one JSON can print.\<close>

fun wf_json :: "json \<Rightarrow> bool" where
  "wf_json (JNum l) \<longleftrightarrow> l \<noteq> [] \<and> list_all is_num l"
| "wf_json (JStr s) \<longleftrightarrow> json_text s"
| "wf_json (JArr xs) \<longleftrightarrow> list_all wf_json xs"
| "wf_json (JObj kvs) \<longleftrightarrow> list_all (\<lambda>kv. json_text (fst kv) \<and> wf_json (snd kv)) kvs"
| "wf_json _ \<longleftrightarrow> True"

lemma code_points_bound: "\<forall>c \<in> set s. c < 65536 \<Longrightarrow> p \<in> set (code_points s) \<Longrightarrow> p < 1114112"
  by (induction s arbitrary: p rule: code_points.induct) (auto simp: is_hi_def is_lo_def split: if_splits)

lemma unhex1_digit: "d < 16 \<Longrightarrow> unhex1 (if d < 10 then 48 + d else 87 + d) = Some d"
  by (auto simp: unhex1_def is_digit_def)

lemma hex4_value: "4096 * (c div 4096) + 256 * (c div 256 mod 16) + 16 * (c div 16 mod 16) + c mod 16 = (c :: nat)"
proof -
  define a where "a = c div 16"
  define b where "b = a div 16"
  have q: "c div 256 = b" "c div 4096 = b div 16" "c div 16 = a"
    by (simp_all add: a_def b_def flip: div_mult2_eq)
  have "16 * a + c mod 16 = c" "16 * b + a mod 16 = a" "16 * (b div 16) + b mod 16 = b"
    by (simp_all add: a_def b_def)
  then show ?thesis unfolding q by linarith
qed

lemma unhex4_hex4: "c < 65536 \<Longrightarrow> unhex4 (hex4 c @ r) = Some (c, r)"
  using hex4_value [of c] by (simp add: hex4_def unhex1_digit)

lemma json_dec_u_escape: "c < 65536 \<Longrightarrow> json_dec1 (u_escape c @ r) = Some (c, r)"
  by (simp add: u_escape_def unhex4_hex4)

lemma json_dec_plain: "c \<noteq> 92 \<Longrightarrow> \<not> is_hi c \<Longrightarrow> json_dec1 (c # r) = Some (c, r)"
  by (cases r) auto

lemma units_of_pair: "65536 \<le> p \<Longrightarrow> p < 1114112 \<Longrightarrow> json_dec1 (units_of p @ r) = Some (p, r)"
proof -
  assume p: "65536 \<le> p" "p < 1114112"
  define q where "q = p - 65536"
  have q: "q < 1048576" "p = 65536 + q" using p by (auto simp: q_def)
  then have "q div 1024 < 1024" by simp
  then have "is_hi (55296 + q div 1024)" "is_lo (56320 + q mod 1024)"
    by (auto simp: is_hi_def is_lo_def)
  moreover have "units_of p = [55296 + q div 1024, 56320 + q mod 1024]"
    using p by (simp add: units_of_def q_def)
  moreover have "q div 1024 * 1024 + q mod 1024 = q" by simp
  ultimately show ?thesis using q by simp
qed

lemma json_dec_enc: "p < 1114112 \<Longrightarrow> json_dec1 (json_enc1 p @ r) = Some (p, r)"
proof -
  assume p: "p < 1114112"
  show ?thesis
  proof (cases "p < 65536")
    case True
    then show ?thesis
      by (auto simp: json_enc1_def json_dec_u_escape units_of_def json_dec_plain)
  next
    case False
    then have "json_enc1 p = units_of p" by (auto simp: json_enc1_def is_hi_def is_lo_def)
    with False p show ?thesis by (simp add: units_of_pair)
  qed
qed

definition member_text :: "(nat \<Rightarrow> jstr) \<Rightarrow> jstr \<times> json \<Rightarrow> jstr" where
  "member_text enc kv = quote_with enc (fst kv) @ 58 # stringify_with enc (snd kv)"

locale json_code = symbol_code "\<lambda>p. p < 1114112" enc json_dec1 for enc +
  assumes no_quote: "p < 1114112 \<Longrightarrow> hd (enc p) \<noteq> 34"
begin

lemma read_str_enc:
  "\<forall>p \<in> set ps. p < 1114112 \<Longrightarrow> length (concat (map enc ps)) < n \<Longrightarrow>
     read_str n (concat (map enc ps) @ 34 # r) = Some (ps, r)"
proof (induction ps arbitrary: n)
  case Nil
  then obtain m where "n = Suc m" by (cases n) auto
  then show ?case by simp
next
  case (Cons p ps)
  from Cons.prems obtain m where n: "n = Suc m" by (cases n) auto
  from Cons.prems enc_nonempty no_quote obtain c cs where e: "enc p = c # cs" "c \<noteq> 34"
    by (metis list.exhaust list.sel(1) list.set_intros(1))
  have "json_dec1 (c # cs @ concat (map enc ps) @ 34 # r) = Some (p, concat (map enc ps) @ 34 # r)"
    using dec_enc [of p "concat (map enc ps) @ 34 # r"] Cons.prems e by simp
  moreover have "read_str m (concat (map enc ps) @ 34 # r) = Some (ps, r)"
    using Cons.IH [of m] Cons.prems e n by simp
  ultimately show ?case by (simp add: n e)
qed

lemma read_string_quote:
  assumes "json_text s"
  shows "read_string (tl (quote_with enc s) @ r) = Some (s, r)"
proof -
  have s: "\<forall>c \<in> set s. c < 65536" using assms by (simp add: json_text_def list_all_iff)
  then have "read_str (length (concat (map enc (code_points s)) @ 34 # r)) (concat (map enc (code_points s)) @ 34 # r)
      = Some (code_points s, r)"
    by (intro read_str_enc) (auto dest: code_points_bound)
  then show ?thesis
    by (simp add: read_string_def quote_with_def units_code_points [OF s])
qed

lemma quote_hd: "quote_with enc s @ r = 34 # (tl (quote_with enc s) @ r)"
  by (simp add: quote_with_def)

lemma stringify_neq_Nil: "wf_json d \<Longrightarrow> stringify_with enc d \<noteq> []"
  by (cases d) (auto simp: quote_with_def)

lemma read_elems_join:
  assumes "\<And>x n r. x \<in> set xs \<Longrightarrow> length (stringify_with enc x) \<le> n \<Longrightarrow> r \<noteq> [] \<Longrightarrow> \<not> is_num (hd r) \<Longrightarrow>
      read_val n (stringify_with enc x @ r) = Some (x, r)"
    and "xs \<noteq> []" and "length (join [44] (map (stringify_with enc) xs)) < n"
  shows "read_elems n (join [44] (map (stringify_with enc) xs) @ 93 # r) = Some (xs, r)"
  using assms
proof (induction xs arbitrary: n)
  case (Cons x xs)
  from Cons.prems(3) obtain m where n: "n = Suc m" by (cases n) auto
  have sep: "\<not> is_num 93" "\<not> is_num 44" by (simp_all add: is_num_def is_digit_def)
  show ?case
  proof (cases xs)
    case Nil
    with Cons.prems(1) [of x m "93 # r"] Cons.prems(3) n sep show ?thesis by simp
  next
    case (Cons y ys)
    let ?rest = "join [44] (map (stringify_with enc) xs) @ 93 # r"
    have "read_val m (stringify_with enc x @ 44 # ?rest) = Some (x, 44 # ?rest)"
      using Cons.prems(1) [of x m "44 # ?rest"] Cons.prems(3) n sep Cons by simp
    moreover have "read_elems m ?rest = Some (xs, r)"
      using Cons.prems Cons n by (intro Cons.IH) auto
    ultimately show ?thesis using Cons n by simp
  qed
qed simp

lemma read_members_join:
  assumes "\<And>kv n r. kv \<in> set kvs \<Longrightarrow> length (stringify_with enc (snd kv)) \<le> n \<Longrightarrow> r \<noteq> [] \<Longrightarrow> \<not> is_num (hd r) \<Longrightarrow>
      read_val n (stringify_with enc (snd kv) @ r) = Some (snd kv, r)"
    and "list_all (\<lambda>kv. json_text (fst kv)) kvs"
    and "kvs \<noteq> []" and "length (join [44] (map (member_text enc) kvs)) < n"
  shows "read_members n (join [44] (map (member_text enc) kvs) @ 125 # r) = Some (kvs, r)"
  using assms
proof (induction kvs arbitrary: n)
  case (Cons kv kvs)
  obtain k v where kv: "kv = (k, v)" by (cases kv)
  from Cons.prems(4) obtain m where n: "n = Suc m" by (cases n) auto
  have sep: "\<not> is_num 125" "\<not> is_num 44" by (simp_all add: is_num_def is_digit_def)
  have key: "read_string (tl (quote_with enc k) @ rest) = Some (k, rest)" for rest
    using Cons.prems(2) kv by (intro read_string_quote) simp
  have mtext: "member_text enc (k, v) @ rest = 34 # (tl (quote_with enc k) @ 58 # stringify_with enc v @ rest)" for rest
    by (simp add: member_text_def quote_with_def)
  show ?case
  proof (cases kvs)
    case Nil
    with Cons.prems(1) [of kv m "125 # r"] Cons.prems(4) n sep kv
    have "read_val m (stringify_with enc v @ 125 # r) = Some (v, 125 # r)"
      by (simp add: member_text_def)
    with Nil kv n show ?thesis by (simp add: mtext key)
  next
    case (Cons y ys)
    let ?rest = "join [44] (map (member_text enc) kvs) @ 125 # r"
    have "read_val m (stringify_with enc v @ 44 # ?rest) = Some (v, 44 # ?rest)"
      using Cons.prems(1) [of kv m "44 # ?rest"] Cons.prems(4) n sep Cons kv
      by (simp add: member_text_def)
    moreover have "read_members m ?rest = Some (kvs, r)"
      using Cons.prems Cons n by (intro Cons.IH) auto
    ultimately show ?thesis using Cons n kv by (simp add: mtext key)
  qed
qed simp

lemma num_text: "wf_json (JNum l) \<Longrightarrow> r = [] \<or> \<not> is_num (hd r) \<Longrightarrow> length l \<le> n \<Longrightarrow>
    read_val n (l @ r) = Some (JNum l, r)"
proof -
  assume l: "wf_json (JNum l)" and r: "r = [] \<or> \<not> is_num (hd r)" and n: "length l \<le> n"
  then obtain c cs m where c: "l = c # cs" "n = Suc m" "is_num c" "\<forall>x \<in> set cs. is_num x"
    by (cases l; cases n) (auto simp: list_all_iff)
  have "takeWhile is_num (cs @ r) = cs" "dropWhile is_num (cs @ r) = r"
    using c(4) r by (cases r; simp add: takeWhile_append2 dropWhile_append2)+
  moreover have "c \<notin> {110, 116, 102, 34, 91, 123}"
    using c(3) by (auto simp: is_num_def is_digit_def)
  ultimately show ?thesis using c by simp
qed

lemma object_text: "stringify_with enc (JObj kvs) = 123 # join [44] (map (member_text enc) kvs) @ [125]"
  by (simp add: member_text_def [abs_def])

lemma read_val_arr:
  assumes "list_all wf_json xs"
    and elems: "xs \<noteq> [] \<Longrightarrow> read_elems m (join [44] (map (stringify_with enc) xs) @ 93 # r) = Some (xs, r)"
  shows "read_val (Suc m) (stringify_with enc (JArr xs) @ r) = Some (JArr xs, r)"
proof (cases xs)
  case (Cons y ys)
  have "wf_json y" using assms(1) Cons by simp
  then obtain c cs where c: "stringify_with enc y = c # cs" using stringify_neq_Nil by (cases "stringify_with enc y") auto
  from \<open>wf_json y\<close> have "c \<noteq> 93"
    using c
    by (cases y) (auto simp: quote_with_def js_def is_num_def is_digit_def list_all_iff Cons_eq_append_conv split: if_splits)
  then show ?thesis
    using elems Cons c by (cases ys) (simp_all add: join_Cons)
qed simp

lemma read_val_obj:
  assumes members: "kvs \<noteq> [] \<Longrightarrow> read_members m (join [44] (map (member_text enc) kvs) @ 125 # r) = Some (kvs, r)"
  shows "read_val (Suc m) (stringify_with enc (JObj kvs) @ r) = Some (JObj kvs, r)"
proof (cases kvs)
  case (Cons kv ys)
  then have "\<exists>cs. join [44] (map (member_text enc) kvs) = 34 # cs"
    by (simp add: join_Cons member_text_def quote_with_def)
  with members Cons show ?thesis unfolding object_text by auto
qed simp

lemma read_val_text:
  "wf_json d \<Longrightarrow> r = [] \<or> \<not> is_num (hd r) \<Longrightarrow> length (stringify_with enc d) \<le> n \<Longrightarrow>
     read_val n (stringify_with enc d @ r) = Some (d, r)"
proof (induction d arbitrary: r n)
  case (JNum l)
  then show ?case using num_text by simp
next
  case (JStr s)
  then obtain m where "n = Suc m" by (cases n) (auto simp: quote_with_def)
  with JStr read_string_quote [of s r] show ?case
    by (simp add: quote_hd [of s r])
next
  case (JArr xs)
  then obtain m where n: "n = Suc m" by (cases n) auto
  show ?case
    unfolding n
  proof (rule read_val_arr)
    show "list_all wf_json xs" using JArr.prems by simp
    show "read_elems m (join [44] (map (stringify_with enc) xs) @ 93 # r) = Some (xs, r)" if "xs \<noteq> []"
      using JArr n that by (intro read_elems_join) (auto simp: list_all_iff)
  qed
next
  case (JObj kvs)
  then obtain m where n: "n = Suc m" by (cases n) auto
  show ?case
    unfolding n
  proof (rule read_val_obj)
    assume ne: "kvs \<noteq> []"
    show "read_members m (join [44] (map (member_text enc) kvs) @ 125 # r) = Some (kvs, r)"
    proof (rule read_members_join)
      show "list_all (\<lambda>kv. json_text (fst kv)) kvs"
        using JObj.prems by (simp add: list_all_iff)
      show "kvs \<noteq> []" "length (join [44] (map (member_text enc) kvs)) < m"
        using JObj.prems(3) ne n unfolding object_text by simp_all
      fix kv n' r' assume "kv \<in> set kvs" "length (stringify_with enc (snd kv)) \<le> n'" "r' \<noteq> []" "\<not> is_num (hd r')"
      then show "read_val n' (stringify_with enc (snd kv) @ r') = Some (snd kv, r')"
        using JObj.prems by (intro JObj.IH [of kv "snd kv"]) (auto simp: list_all_iff snds.simps)
    qed
  qed
next
  case JNull
  then obtain m where "n = Suc m" by (cases n) auto
  then show ?case by (simp add: js_def)
next
  case (JBool b)
  then obtain m where "n = Suc m" by (cases n) (auto split: if_splits)
  then show ?case by (cases b) (simp_all add: js_def)
qed

lemma read_json_text: "wf_json d \<Longrightarrow> read_json (stringify_with enc d) = Some d"
  using read_val_text [of d "[]" "length (stringify_with enc d)"] by (simp add: read_json_def)

end

section \<open>The two writers\<close>

definition ld_enc1 :: "nat \<Rightarrow> jstr" where
  "ld_enc1 p = (if p = 60 then 92 # js ''u003c'' else json_enc1 p)"

lemma json_enc1_ends: "p < 1114112 \<Longrightarrow> json_enc1 p \<noteq> [] \<and> hd (json_enc1 p) \<noteq> 34"
  by (auto simp: json_enc1_def u_escape_def units_of_def)

interpretation plain: json_code json_enc1
  by unfold_locales (simp_all add: json_dec_enc json_enc1_ends)

interpretation ld: json_code ld_enc1
proof unfold_locales
  fix c r assume "c < (1114112 :: nat)"
  then show "json_dec1 (ld_enc1 c @ r) = Some (c, r)"
    by (simp add: ld_enc1_def json_dec_enc js_def unhex1_def is_digit_def)
qed (auto simp: ld_enc1_def json_enc1_ends)

lemma hex4_no_lt: "60 \<notin> set (hex4 c)"
proof -
  have "60 \<noteq> (if d < 10 then 48 + d else 87 + d)" if "d < 16" for d :: nat using that by auto
  then show ?thesis by (simp add: hex4_def)
qed

lemma ld_enc1_eq: "p < 1114112 \<Longrightarrow> replace_unit 60 (92 # js ''u003c'') (json_enc1 p) = ld_enc1 p"
proof -
  assume p: "p < 1114112"
  have id: "replace_unit 60 x s = s" if "60 \<notin> set s" for x s
    using that by (induction s) auto
  have "60 \<notin> set (json_enc1 p) \<or> p = 60"
    by (auto simp: json_enc1_def u_escape_def hex4_no_lt units_of_def split: if_splits)
  moreover have "json_enc1 60 = [60]" by (simp add: json_enc1_def is_hi_def is_lo_def units_of_def)
  ultimately show ?thesis by (auto simp: ld_enc1_def id)
qed

lemma replace_unit_id: "c \<notin> set s \<Longrightarrow> replace_unit c x s = s"
  by (induction s) auto

lemma replace_unit_join:
  "replace_unit c x (join sep xs) = join (replace_unit c x sep) (map (replace_unit c x) xs)"
  by (induction sep xs rule: join.induct) auto

lemma replace_unit_removes: "c \<notin> set x \<Longrightarrow> c \<notin> set (replace_unit c x s)"
  by (induction s) auto

lemma ld_enc1_units:
  "\<forall>p \<in> set ps. p < 1114112 \<Longrightarrow>
     replace_unit 60 (92 # js ''u003c'') (concat (map json_enc1 ps)) = concat (map ld_enc1 ps)"
  by (induction ps) (simp_all add: ld_enc1_eq)

lemma ld_quote:
  assumes "json_text s"
  shows "replace_unit 60 (92 # js ''u003c'') (quote_with json_enc1 s) = quote_with ld_enc1 s"
proof -
  have "\<forall>p \<in> set (code_points s). p < 1114112"
    using assms code_points_bound by (auto simp: json_text_def list_all_iff)
  then show ?thesis by (simp add: quote_with_def ld_enc1_units)
qed

lemma JsonLd_eq: "wf_json d \<Longrightarrow> JsonLd d = stringify_with ld_enc1 d"
  unfolding JsonLd_def stringify_def
proof (induction d)
  case (JNum l)
  then have "60 \<notin> set l" by (auto simp: list_all_iff is_num_def is_digit_def)
  then show ?case by (simp add: replace_unit_id)
next
  case (JArr xs)
  then have "map (\<lambda>x. replace_unit 60 (92 # js ''u003c'') (stringify_with json_enc1 x)) xs = map (stringify_with ld_enc1) xs"
    by (auto simp: list_all_iff)
  then show ?case by (simp add: replace_unit_join comp_def cong: map_cong)
next
  case (JObj kvs)
  have "replace_unit 60 (92 # js ''u003c'') (member_text json_enc1 kv) = member_text ld_enc1 kv" if "kv \<in> set kvs" for kv
    using that JObj.prems JObj.IH [OF that, of "snd kv"]
    by (auto simp: member_text_def ld_quote list_all_iff snds.simps)
  then have "map (\<lambda>kv. replace_unit 60 (92 # js ''u003c'') (member_text json_enc1 kv)) kvs = map (member_text ld_enc1) kvs"
    by simp
  then show ?case
    by (simp add: replace_unit_join comp_def member_text_def cong: map_cong)
next
  case (JBool b)
  show ?case by (cases b) (simp_all add: replace_unit_id js_def)
next
  case JNull
  have "60 \<notin> set (js ''null'')" by (simp add: js_def)
  then show ?case by (simp add: replace_unit_id)
qed (simp_all add: ld_quote)

section \<open>Properties\<close>

text \<open>C22. Structured data written into a page is read back by the browser as exactly that data, and the
  text holds no "<", so nothing in the data can close the script element it stands in.\<close>

theorem JsonLd_faithful:
  assumes "wf_json d"
  shows "read_json (JsonLd d) = Some d \<and> 60 \<notin> set (JsonLd d)"
proof
  show "read_json (JsonLd d) = Some d"
    unfolding JsonLd_eq [OF assms] by (rule ld.read_json_text [OF assms])
  show "60 \<notin> set (JsonLd d)"
    unfolding JsonLd_def by (rule replace_unit_removes) (simp add: js_def)
qed

theorem JsonLd_faithful_witness:
  "read_json (JsonLd (JObj [(js ''name'', JStr (js ''</script>''))])) = Some (JObj [(js ''name'', JStr (js ''</script>''))])"
  using JsonLd_faithful [of "JObj [(js ''name'', JStr (js ''</script>''))]"]
  by (simp add: json_text_def js_def)

end
