(* ===== verification/DocsParse.thy ===== *)
theory DocsParse
  imports Prelude "HOL-Library.Extended_Nat"
begin

text \<open>
  \<^verbatim>\<open>web/lib/docs.ts\<close>, lines 9 to 56: the documentation page record and the front matter parser.
  Each regular expression of \<open>parseDoc\<close> is written out as the deterministic scan its greedy and
  lazy quantifiers amount to. A thrown \<open>Error\<close> is a value of \<open>doc_error\<close>.
\<close>

section \<open>Sections and pages\<close>

datatype section_id = GetStarted | SecurityReview | Guides | Reference

definition SECTIONS :: "(section_id \<times> jstr \<times> jstr) list" where
  "SECTIONS =
     [(GetStarted, js ''get-started'', js ''Get started''),
      (SecurityReview, js ''security-review'', js ''Security review''),
      (Guides, js ''guides'', js ''Guides''),
      (Reference, js ''reference'', js ''Reference'')]"

text \<open>Sections are compared by their place in \<open>SECTIONS\<close>.\<close>

fun section_index :: "section_id \<Rightarrow> nat" where
  "section_index GetStarted = 0"
| "section_index SecurityReview = 1"
| "section_index Guides = 2"
| "section_index Reference = 3"

lemma section_index_inject [simp]: "section_index s = section_index t \<longleftrightarrow> s = t"
  by (cases s; cases t) auto

instantiation section_id :: linorder
begin

definition less_eq_section_id :: "section_id \<Rightarrow> section_id \<Rightarrow> bool" where
  "less_eq_section_id s t \<longleftrightarrow> section_index s \<le> section_index t"

definition less_section_id :: "section_id \<Rightarrow> section_id \<Rightarrow> bool" where
  "less_section_id s t \<longleftrightarrow> section_index s < section_index t"

instance
  by standard (auto simp: less_eq_section_id_def less_section_id_def)

end

record doc =
  d_slug :: jstr
  d_title :: jstr
  d_section :: section_id
  d_order :: enat
  d_description :: jstr
  d_body :: jstr

datatype doc_error =
    MissingFrontmatter jstr
  | NeedsKey jstr jstr
  | UnknownSection jstr jstr
  | OrderNotNumber jstr

definition doc_error_message :: "doc_error \<Rightarrow> jstr" where
  "doc_error_message e =
     (case e of
        MissingFrontmatter file \<Rightarrow> file @ js '': missing frontmatter''
      | NeedsKey file key \<Rightarrow> file @ js '': frontmatter needs '' @ key
      | UnknownSection file s \<Rightarrow> file @ js '': unknown section '' @ [34] @ s @ [34]
      | OrderNotNumber file \<Rightarrow> file @ js '': order must be a number'')"

section \<open>The number of a digit string\<close>

text \<open>
  \<open>Number(ds)\<close> for a string of decimal digits: the integer, rounded to 53 significant bits with
  ties to even, \<^term>\<open>\<infinity>\<close> when that is too large for a double.
\<close>

fun bit_len :: "nat \<Rightarrow> nat" where
  "bit_len n = (if n = 0 then 0 else Suc (bit_len (n div 2)))"

declare bit_len.simps [simp del]

definition round53 :: "nat \<Rightarrow> nat" where
  "round53 n =
     (if n < 2 ^ 53 then n
      else let e = bit_len n - 53; q = n div 2 ^ e; r = n mod 2 ^ e in
        (if 2 * r > 2 ^ e \<or> (2 * r = 2 ^ e \<and> odd q) then q + 1 else q) * 2 ^ e)"

definition number_of_digits :: "jstr \<Rightarrow> enat" where
  "number_of_digits ds =
     (let v = round53 (nat_of_digits ds) in if v < 2 ^ 1024 then enat v else \<infinity>)"

lemma number_of_show_nat: "n < 2 ^ 53 \<Longrightarrow> number_of_digits (show_nat n) = enat n"
  by (simp add: number_of_digits_def round53_def)

section \<open>The front matter block\<close>

text \<open>\<open>\r?\n---\<close> at the start of the text, returning what follows.\<close>

definition match_close :: "jstr \<Rightarrow> jstr option" where
  "match_close s =
     strip_prefix [LF, 45, 45, 45] (case s of [] \<Rightarrow> [] | c # cs \<Rightarrow> if c = CR then cs else s)"

text \<open>\<open>\r?\n?\<close> after the closing dashes.\<close>

definition chomp_cr :: "jstr \<Rightarrow> jstr" where
  "chomp_cr s = (case s of [] \<Rightarrow> [] | c # cs \<Rightarrow> if c = CR then cs else s)"

definition chomp_lf :: "jstr \<Rightarrow> jstr" where
  "chomp_lf s = (case s of [] \<Rightarrow> [] | c # cs \<Rightarrow> if c = LF then cs else s)"

text \<open>The lazy group \<open>([\s\S]*?)\<close>: the shortest text before a closing line.\<close>

fun find_close :: "jstr \<Rightarrow> (jstr \<times> jstr) option" where
  "find_close s =
     (case match_close s of
        Some r \<Rightarrow> Some ([], chomp_lf (chomp_cr r))
      | None \<Rightarrow> (case s of [] \<Rightarrow> None
                | c # cs \<Rightarrow> map_option (\<lambda>(h, b). (c # h, b)) (find_close cs)))"

declare find_close.simps [simp del]

text \<open>\<open>/^---\r?\n([\s\S]*?)\r?\n---\r?\n?([\s\S]*)$/\<close>.\<close>

definition match_frontmatter :: "jstr \<Rightarrow> (jstr \<times> jstr) option" where
  "match_frontmatter raw =
     (case strip_prefix (js ''---'') raw of
        None \<Rightarrow> None
      | Some r \<Rightarrow> (case chomp_cr r of [] \<Rightarrow> None
          | c # cs \<Rightarrow> if c = LF then find_close cs else None))"

text \<open>\<open>s.split(/\r?\n/)\<close>.\<close>

definition cons_head :: "nat \<Rightarrow> jstr list \<Rightarrow> jstr list" where
  "cons_head c xs = (case xs of [] \<Rightarrow> [[c]] | x # xs' \<Rightarrow> (c # x) # xs')"

fun split_lines :: "jstr \<Rightarrow> jstr list" where
  "split_lines [] = [[]]"
| "split_lines [c] = (if c = LF then [[], []] else [[c]])"
| "split_lines (c # d # cs) =
     (if c = LF then [] # split_lines (d # cs)
      else if c = CR \<and> d = LF then [] # split_lines cs
      else cons_head c (split_lines (d # cs)))"

text \<open>
  \<open>/^(\w+):\s*(.*?)\s*$/\<close>: a non-empty run of word characters, a colon, and a value that is the
  rest without the white space around it, which the dot confines to one line.
\<close>

definition parse_kv :: "jstr \<Rightarrow> (jstr \<times> jstr) option" where
  "parse_kv line =
     (let w = takeWhile is_word line; r = dropWhile is_word line in
      if w = [] then None
      else case r of [] \<Rightarrow> None
        | c # cs \<Rightarrow> if c \<noteq> 58 then None
                   else let v = trim cs in if \<exists>x \<in> set v. is_lt x then None else Some (w, v))"

text \<open>\<open>v.replace(/^(["'])(.*)\1$/, "$2")\<close>.\<close>

definition unquote :: "jstr \<Rightarrow> jstr" where
  "unquote v =
     (if 2 \<le> length v \<and> (hd v = 34 \<or> hd v = 39) \<and> last v = hd v
         \<and> (\<forall>x \<in> set (butlast (tl v)). \<not> is_lt x)
      then butlast (tl v) else v)"

definition read_frontmatter :: "jstr \<Rightarrow> (jstr \<Rightarrow> jstr option)" where
  "read_frontmatter text =
     fold (\<lambda>line fm. case parse_kv line of None \<Rightarrow> fm | Some (k, v) \<Rightarrow> fm(k \<mapsto> unquote v))
       (split_lines text) Map.empty"

text \<open>\<open>body.replace(/^\s*# .*\r?\n\s*/, "")\<close>.\<close>

definition strip_title :: "jstr \<Rightarrow> jstr" where
  "strip_title body =
     (case strip_prefix (js ''# '') (trim_start body) of
        None \<Rightarrow> body
      | Some r \<Rightarrow> (case chomp_cr (dropWhile (\<lambda>x. \<not> is_lt x) r) of [] \<Rightarrow> body
          | c # cs \<Rightarrow> if c = LF then trim_start cs else body))"

definition strip_md :: "jstr \<Rightarrow> jstr" where
  "strip_md file = (case strip_suffix (js ''.md'') file of None \<Rightarrow> file | Some s \<Rightarrow> s)"

definition required_keys_doc :: "jstr list" where
  "required_keys_doc = [js ''title'', js ''section'', js ''order'', js ''description'']"

definition find_section :: "jstr \<Rightarrow> section_id option" where
  "find_section s = map_option fst (find (\<lambda>(i, name, label). name = s) SECTIONS)"

definition parseDoc :: "jstr \<Rightarrow> jstr \<Rightarrow> doc_error + doc" where
  "parseDoc file raw =
     (case match_frontmatter raw of
        None \<Rightarrow> Inl (MissingFrontmatter file)
      | Some (m1, m2) \<Rightarrow>
          (let fm = read_frontmatter m1; get = (\<lambda>key. the (fm key)) in
           (case find (\<lambda>key. \<not> truthy (fm key)) required_keys_doc of
              Some key \<Rightarrow> Inl (NeedsKey file key)
            | None \<Rightarrow>
                (case find_section (get (js ''section'')) of
                   None \<Rightarrow> Inl (UnknownSection file (get (js ''section'')))
                 | Some s \<Rightarrow>
                     (if \<not> (\<forall>c \<in> set (get (js ''order'')). is_digit c) then Inl (OrderNotNumber file)
                      else Inr \<lparr>d_slug = strip_md file, d_title = get (js ''title''), d_section = s,
                                d_order = number_of_digits (get (js ''order'')),
                                d_description = get (js ''description''),
                                d_body = strip_title m2\<rparr>)))))"

text \<open>
  \<open>loadDocs\<close>: the directory is the list of its entries in the order \<open>readdirSync\<close> gives them, each
  with its contents; the first error is thrown.
\<close>

fun map_result :: "('a \<Rightarrow> 'e + 'b) \<Rightarrow> 'a list \<Rightarrow> 'e + 'b list" where
  "map_result f [] = Inr []"
| "map_result f (x # xs) =
     (case f x of Inl e \<Rightarrow> Inl e
      | Inr y \<Rightarrow> (case map_result f xs of Inl e \<Rightarrow> Inl e | Inr ys \<Rightarrow> Inr (y # ys)))"

definition loadDocs :: "(jstr \<times> jstr) list \<Rightarrow> doc_error + doc list" where
  "loadDocs dir =
     map_result (\<lambda>(f, raw). parseDoc f raw) (filter (\<lambda>(f, raw). ends_with (js ''.md'') f) dir)"

declare match_close_def [js_eval] chomp_cr_def [js_eval] chomp_lf_def [js_eval]
  match_frontmatter_def [js_eval] cons_head_def [js_eval] parse_kv_def [js_eval]
  unquote_def [js_eval] read_frontmatter_def [js_eval] strip_title_def [js_eval]
  strip_md_def [js_eval] find_section_def [js_eval] parseDoc_def [js_eval]
  required_keys_doc_def [js_eval] SECTIONS_def [js_eval]

section \<open>What a parsed page satisfies\<close>

lemma find_section_name:
  "find_section s = Some i \<Longrightarrow> \<exists>label. (i, s, label) \<in> set SECTIONS"
  by (auto simp: find_section_def dest!: find_Some_mem)

lemma parseDoc_InrD:
  assumes "parseDoc file raw = Inr d"
  obtains m1 m2 fm where "match_frontmatter raw = Some (m1, m2)" "fm = read_frontmatter m1"
    "\<forall>key \<in> set required_keys_doc. truthy (fm key)"
    "d_slug d = strip_md file" "fm (js ''title'') = Some (d_title d)"
    "fm (js ''description'') = Some (d_description d)" "d_body d = strip_title m2"
    "find_section (the (fm (js ''section''))) = Some (d_section d)"
    "\<forall>c \<in> set (the (fm (js ''order''))). is_digit c"
    "d_order d = number_of_digits (the (fm (js ''order'')))"
proof -
  from assms obtain m1 m2 where m: "match_frontmatter raw = Some (m1, m2)"
    by (auto simp: parseDoc_def split: option.splits)
  let ?fm = "read_frontmatter m1"
  from assms m have none: "find (\<lambda>key. \<not> truthy (?fm key)) required_keys_doc = None"
    by (auto simp: parseDoc_def Let_def split: option.splits)
  then have all: "\<forall>key \<in> set required_keys_doc. truthy (?fm key)"
    by (auto simp: find_None_ball)
  from assms m none obtain i where i: "find_section (the (?fm (js ''section''))) = Some i"
    by (auto simp: parseDoc_def Let_def split: option.splits)
  from assms m none i all show thesis
    by (intro that [of m1 m2 ?fm])
      (auto simp: parseDoc_def Let_def required_keys_doc_def truthy_iff split: if_splits)
qed

section \<open>Reading back a written page\<close>

text \<open>
  The page format of \<^verbatim>\<open>docs/site\<close>: four lines of front matter between dashes, then the body.
\<close>

definition kv_line :: "jstr \<Rightarrow> jstr \<Rightarrow> jstr" where
  "kv_line k v = k @ 58 # 32 # v"

definition section_name :: "section_id \<Rightarrow> jstr" where
  "section_name i = fst (the (map_of SECTIONS i))"

definition print_doc :: "jstr \<Rightarrow> section_id \<Rightarrow> nat \<Rightarrow> jstr \<Rightarrow> jstr \<Rightarrow> jstr" where
  "print_doc title i n descr body =
     js ''---'' @ LF #
     join [LF] [kv_line (js ''title'') title, kv_line (js ''section'') (section_name i),
                kv_line (js ''order'') (show_nat n), kv_line (js ''description'') descr] @
     LF # js ''---'' @ LF # body"

definition clean_value :: "jstr \<Rightarrow> bool" where
  "clean_value v \<longleftrightarrow> v \<noteq> [] \<and> (\<forall>x \<in> set v. \<not> is_lt x) \<and> \<not> is_ws (hd v) \<and> \<not> is_ws (last v)
     \<and> hd v \<noteq> 34 \<and> hd v \<noteq> 39"

text \<open>A value as it may stand in a line: not empty, on one line, with no white space around it.\<close>

definition plain_text :: "jstr \<Rightarrow> bool" where
  "plain_text v \<longleftrightarrow> v \<noteq> [] \<and> (\<forall>x \<in> set v. \<not> is_lt x) \<and> \<not> is_ws (hd v) \<and> \<not> is_ws (last v)"

lemma clean_plain: "clean_value v \<Longrightarrow> plain_text v" and clean_unquote: "clean_value v \<Longrightarrow> unquote v = v"
  by (auto simp: clean_value_def plain_text_def unquote_def)

lemma parse_kv_line:
  assumes k: "k \<noteq> []" "\<forall>c \<in> set k. is_word c" and v: "plain_text v"
  shows "parse_kv (kv_line k v) = Some (k, v)"
proof -
  have "\<not> is_word 58" by (simp add: is_word_def is_digit_def)
  note sp = takeWhile_append_stop [OF k(2) this, of "32 # v"]
  have "trim_start (32 # v) = trim_start v" by (simp add: trim_start_def is_ws_def)
  then have "trim (32 # v) = v"
    using v by (simp add: trim_def plain_text_def trim_start_id trim_end_id)
  with sp k v show ?thesis by (auto simp: parse_kv_def kv_line_def plain_text_def)
qed

text \<open>A value written as it is, or in quotes, where it may begin and end with anything.\<close>

fun written :: "nat option \<Rightarrow> jstr \<Rightarrow> jstr" where
  "written None v = v"
| "written (Some q) v = q # v @ [q]"

fun writable :: "nat option \<Rightarrow> jstr \<Rightarrow> bool" where
  "writable None v \<longleftrightarrow> clean_value v"
| "writable (Some q) v \<longleftrightarrow> q \<in> {34, 39} \<and> v \<noteq> [] \<and> (\<forall>x \<in> set v. \<not> is_lt x)"

lemma written_value: "writable q v \<Longrightarrow> plain_text (written q v) \<and> unquote (written q v) = v"
proof (cases q)
  case (Some c)
  assume w: "writable q v"
  then have c: "c = 34 \<or> c = 39" and v: "v \<noteq> []" "\<forall>x \<in> set v. \<not> is_lt x" using Some by auto
  have "\<not> is_lt c" "\<not> is_ws c" using c by (auto simp: is_lt_def is_ws_def)
  with v have "plain_text (c # v @ [c])" by (auto simp: plain_text_def)
  moreover have "unquote (c # v @ [c]) = v"
    using c v by (auto simp add: unquote_def butlast_append)
  ultimately show ?thesis by (simp add: Some)
qed (simp add: clean_plain clean_unquote)

text \<open>The body, under the title line that is kept for GitHub or without one.\<close>

fun titled :: "jstr option \<Rightarrow> jstr \<Rightarrow> jstr" where
  "titled None body = body"
| "titled (Some h) body = LF # js ''# '' @ h @ LF # LF # body"

fun body_ok :: "jstr option \<Rightarrow> jstr \<Rightarrow> bool" where
  "body_ok None body \<longleftrightarrow> strip_title body = body"
| "body_ok (Some h) body \<longleftrightarrow> (\<forall>x \<in> set h. \<not> is_lt x) \<and> (body = [] \<or> \<not> is_ws (hd body))"

lemma strip_titled: "body_ok heading body \<Longrightarrow> strip_title (titled heading body) = body"
proof (cases heading)
  case (Some h)
  assume "body_ok heading body"
  with Some have h: "\<forall>x \<in> set h. \<not> is_lt x" and body: "body = [] \<or> \<not> is_ws (hd body)" by simp_all
  have hash: "js ''# '' = [35, 32]" by (simp add: js_def)
  have "trim_start (LF # [35, 32] @ h @ LF # LF # body) = [35, 32] @ h @ LF # LF # body"
    by (simp add: trim_start_def is_ws_def)
  moreover have "dropWhile (\<lambda>x. \<not> is_lt x) (h @ LF # LF # body) = LF # LF # body"
    using h by (induction h) (auto simp: is_lt_def)
  moreover have "trim_start (LF # body) = body"
    using body by (cases body) (auto simp: trim_start_def is_ws_def)
  ultimately show ?thesis by (simp add: Some strip_title_def hash chomp_cr_def)
qed simp

lemma split_lines_append:
  "\<forall>c \<in> set x. \<not> is_lt c \<Longrightarrow> split_lines (x @ LF # r) = x # split_lines r"
proof (induction x)
  case Nil
  then show ?case by (cases r) auto
next
  case (Cons c x)
  then have c: "c \<noteq> LF" "c \<noteq> CR" by (auto simp: is_lt_def)
  with Cons show ?case by (cases x) (auto simp: cons_head_def)
qed

lemma split_lines_single: "\<forall>c \<in> set x. \<not> is_lt c \<Longrightarrow> split_lines x = [x]"
proof (induction x rule: split_lines.induct)
  case (3 c d cs)
  then have "c \<noteq> LF" "c \<noteq> CR" by (auto simp: is_lt_def)
  with 3 show ?case by (simp add: cons_head_def)
qed (auto simp: is_lt_def)

lemma split_lines_join:
  "xs \<noteq> [] \<Longrightarrow> \<forall>x \<in> set xs. \<forall>c \<in> set x. \<not> is_lt c \<Longrightarrow> split_lines (join [LF] xs) = xs"
  by (induction "[LF]" xs rule: join.induct) (auto simp: split_lines_append split_lines_single)

fun no_close :: "jstr \<Rightarrow> bool" where
  "no_close [] \<longleftrightarrow> True"
| "no_close [c] \<longleftrightarrow> c \<noteq> CR \<and> c \<noteq> LF"
| "no_close (c # d # cs) \<longleftrightarrow> c \<noteq> CR \<and> (c = LF \<longrightarrow> d \<noteq> 45 \<and> d \<noteq> LF) \<and> no_close (d # cs)"

lemma find_close_no_close:
  "no_close h \<Longrightarrow> find_close (h @ LF # 45 # 45 # 45 # r) = Some (h, chomp_lf (chomp_cr r))"
proof (induction h rule: no_close.induct)
  case 1
  show ?case by (subst find_close.simps) (simp add: match_close_def)
next
  case (2 c)
  then show ?case
    by (subst find_close.simps) (simp add: match_close_def, subst find_close.simps, simp add: match_close_def)
next
  case (3 c d cs)
  then have "match_close (c # d # cs @ LF # 45 # 45 # 45 # r) = None"
    by (auto simp: match_close_def)
  with 3 show ?case by (subst find_close.simps) simp
qed

lemma no_close_line: "\<forall>c \<in> set x. \<not> is_lt c \<Longrightarrow> no_close x"
  by (induction x rule: no_close.induct) (auto simp: is_lt_def)

lemma no_close_append:
  "\<forall>c \<in> set x. \<not> is_lt c \<Longrightarrow> y \<noteq> [] \<Longrightarrow> is_word (hd y) \<Longrightarrow> no_close y \<Longrightarrow> no_close (x @ LF # y)"
proof (induction x rule: no_close.induct)
  case 1
  then show ?case by (cases y) (auto simp: is_word_def is_digit_def)
next
  case (2 c)
  then show ?case by (cases y) (auto simp: is_word_def is_digit_def is_lt_def)
qed (auto simp: is_lt_def)

lemma kv_line_props:
  assumes "k \<noteq> []" "\<forall>c \<in> set k. is_word c" "plain_text v"
  shows "kv_line k v \<noteq> []" "is_word (hd (kv_line k v))" "\<forall>c \<in> set (kv_line k v). \<not> is_lt c"
proof -
  have "\<forall>c \<in> set k. \<not> is_lt c"
    using assms(2) by (auto simp: is_lt_def is_word_def is_digit_def)
  with assms show "kv_line k v \<noteq> []" "is_word (hd (kv_line k v))" "\<forall>c \<in> set (kv_line k v). \<not> is_lt c"
    by (auto simp: kv_line_def plain_text_def is_lt_def [of 58] is_lt_def [of 32])
qed

lemma section_name_simps:
  "section_name GetStarted = js ''get-started''" "section_name SecurityReview = js ''security-review''"
  "section_name Guides = js ''guides''" "section_name Reference = js ''reference''"
  by (simp_all add: section_name_def SECTIONS_def)

lemma clean_section_name: "clean_value (section_name i)"
  by (cases i) (simp_all add: section_name_simps clean_value_def js_eval)

lemma find_section_section_name: "find_section (section_name i) = Some i"
  by (cases i) (simp_all add: section_name_simps find_section_def SECTIONS_def)

lemma digit_clean: "is_digit c \<Longrightarrow> \<not> is_lt c \<and> \<not> is_ws c \<and> c \<noteq> 34 \<and> c \<noteq> 39"
  by (simp add: is_digit_def is_lt_def is_ws_def)

lemma clean_show_nat: "clean_value (show_nat n)"
proof -
  have "is_digit (hd (show_nat n))" "is_digit (last (show_nat n))"
    using show_nat_digits [of n] by simp_all
  then show ?thesis
    using show_nat_digits [of n] by (simp add: clean_value_def digit_clean)
qed

lemma key_words:
  "\<forall>c \<in> set (js ''title''). is_word c" "\<forall>c \<in> set (js ''section''). is_word c"
  "\<forall>c \<in> set (js ''order''). is_word c" "\<forall>c \<in> set (js ''description''). is_word c"
  by (simp_all add: js_eval)

lemma parseDoc_values:
  assumes "plain_text title" "unquote title \<noteq> []" "plain_text descr" "unquote descr \<noteq> []" "n < 2 ^ 53"
  shows "parseDoc (slug @ js ''.md'') (print_doc title i n descr body) =
    Inr \<lparr>d_slug = slug, d_title = unquote title, d_section = i, d_order = enat n,
         d_description = unquote descr, d_body = strip_title body\<rparr>"
proof -
  note plain = assms(1) clean_plain [OF clean_section_name [of i]] clean_plain [OF clean_show_nat [of n]] assms(3)
  note kv = parse_kv_line [OF _ key_words(1) plain(1)] parse_kv_line [OF _ key_words(2) plain(2)]
    parse_kv_line [OF _ key_words(3) plain(3)] parse_kv_line [OF _ key_words(4) plain(4)]
  note props = kv_line_props [OF _ key_words(1) plain(1)] kv_line_props [OF _ key_words(2) plain(2)]
    kv_line_props [OF _ key_words(3) plain(3)] kv_line_props [OF _ key_words(4) plain(4)]
  note same = clean_unquote [OF clean_section_name [of i]] clean_unquote [OF clean_show_nat [of n]]
  let ?ls = "[kv_line (js ''title'') title, kv_line (js ''section'') (section_name i),
    kv_line (js ''order'') (show_nat n), kv_line (js ''description'') descr]"
  have dashes: "js ''---'' = [45, 45, 45]" by (simp add: js_def)
  have "no_close (join [LF] ?ls)"
    using props by (simp add: no_close_append no_close_line)
  then have "match_frontmatter (print_doc title i n descr body) = Some (join [LF] ?ls, body)"
    by (simp add: match_frontmatter_def print_doc_def dashes chomp_cr_def find_close_no_close chomp_lf_def
        del: join.simps)
  moreover have "split_lines (join [LF] ?ls) = ?ls"
    using props by (intro split_lines_join) simp_all
  then have "read_frontmatter (join [LF] ?ls) =
      [js ''title'' \<mapsto> unquote title, js ''section'' \<mapsto> section_name i, js ''order'' \<mapsto> show_nat n,
       js ''description'' \<mapsto> unquote descr]"
    using kv same by (simp add: read_frontmatter_def del: join.simps)
  moreover have "section_name i \<noteq> []"
    using clean_section_name [of i] by (auto simp: clean_value_def)
  ultimately show ?thesis
    using show_nat_digits [of n] assms(2,4,5)
    by (simp add: parseDoc_def required_keys_doc_def find_section_section_name number_of_show_nat
        strip_md_def truthy_Some del: join.simps)
qed

lemma parseDoc_print:
  assumes "clean_value title" and "clean_value descr" and "n < 2 ^ 53" and "strip_title body = body"
  shows "parseDoc (slug @ js ''.md'') (print_doc title i n descr body) =
    Inr \<lparr>d_slug = slug, d_title = title, d_section = i, d_order = enat n,
         d_description = descr, d_body = body\<rparr>"
  using parseDoc_values [OF clean_plain [OF assms(1)] _ clean_plain [OF assms(2)] _ assms(3)] assms
  by (auto simp: clean_unquote clean_value_def)

text \<open>C37. A page in the format of the documentation is read back as it was written: the slug is the file
  name without its extension, title and description have their values whether they were written plainly
  or in quotes of either kind, the section and the order theirs, and the body is what stands below the
  title line, or all of it when there is none.\<close>

theorem parse_print_doc:
  assumes "writable q title" and "writable q' descr" and "n < 2 ^ 53" and "body_ok heading body"
  shows "parseDoc (slug @ js ''.md'') (print_doc (written q title) i n (written q' descr) (titled heading body)) =
    Inr \<lparr>d_slug = slug, d_title = title, d_section = i, d_order = enat n,
         d_description = descr, d_body = body\<rparr>"
proof -
  have "title \<noteq> []" "descr \<noteq> []" using assms(1,2) by (cases q; cases q'; auto simp: clean_value_def)+
  with parseDoc_values [of "written q title" "written q' descr" n slug i "titled heading body"]
    written_value [OF assms(1)] written_value [OF assms(2)] strip_titled [OF assms(4)] assms(3)
  show ?thesis by simp
qed

theorem parse_print_doc_witness:
  "parseDoc (js ''a'' @ js ''.md'') (print_doc ([34] @ js ''A: b '' @ [34]) Guides 10 (js ''About a'')
      (LF # js ''# '' @ js ''A: b'' @ LF # LF # js ''Text'')) =
    Inr \<lparr>d_slug = js ''a'', d_title = js ''A: b '', d_section = Guides, d_order = enat 10,
         d_description = js ''About a'', d_body = js ''Text''\<rparr>"
  using parse_print_doc [of "Some 34" "js ''A: b ''" None "js ''About a''" 10 "Some (js ''A: b'')" "js ''Text''" "js ''a''" Guides]
  by (simp add: clean_value_def js_def is_lt_def is_ws_def)

end
