(* ===== verification/Paths.thy ===== *)
theory Paths
  imports Prelude
begin

text \<open>
  The part of \<^verbatim>\<open>node:path\<close> (POSIX flavour) that the site uses: \<open>basename\<close> with one argument and
  \<open>join\<close>, with the normalisation of dot segments, as the Node documentation describes them. The
  lemmas say when normalisation leaves a path alone, which is what a containment argument needs.
\<close>

definition strip_trailing :: "jstr \<Rightarrow> jstr" where
  "strip_trailing p = rev (dropWhile (\<lambda>c. c = slash) (rev p))"

definition basename :: "jstr \<Rightarrow> jstr" where
  "basename p = last (split_char slash (strip_trailing p))"

text \<open>
  Resolving segments against a stack kept in reverse: empty and \<open>.\<close> segments vanish, \<open>..\<close> pops a
  normal segment, is dropped at the root and kept at the front of a relative path.
\<close>

definition dot :: jstr where "dot = [46]"
definition dotdot :: jstr where "dotdot = [46, 46]"

fun norm_segments :: "bool \<Rightarrow> jstr list \<Rightarrow> jstr list \<Rightarrow> jstr list" where
  "norm_segments absolute stack [] = rev stack"
| "norm_segments absolute stack (x # xs) =
     (if x = [] \<or> x = dot then norm_segments absolute stack xs
      else if x = dotdot then
        (case stack of
           [] \<Rightarrow> norm_segments absolute (if absolute then [] else [dotdot]) xs
         | t # ts \<Rightarrow> if t = dotdot then norm_segments absolute (dotdot # stack) xs
                     else norm_segments absolute ts xs)
      else norm_segments absolute (x # stack) xs)"

definition normalize_path :: "jstr \<Rightarrow> jstr" where
  "normalize_path p =
     (if p = [] then dot
      else
        let absolute = (hd p = slash); trailing = (last p = slash);
            s = join [slash] (norm_segments absolute [] (split_char slash p)) in
        if s = [] then (if absolute then [slash] else if trailing then dot @ [slash] else dot)
        else (if absolute then [slash] else []) @ s @ (if trailing then [slash] else []))"

definition path_join :: "jstr list \<Rightarrow> jstr" where
  "path_join ps =
     (let q = join [slash] (filter (\<lambda>p. p \<noteq> []) ps) in if q = [] then dot else normalize_path q)"

definition clean_segment :: "jstr \<Rightarrow> bool" where
  "clean_segment x \<longleftrightarrow> x \<noteq> [] \<and> x \<noteq> dot \<and> x \<noteq> dotdot \<and> slash \<notin> set x"

lemma basename_eq_iff: "basename f = f \<longleftrightarrow> slash \<notin> set f"
proof
  assume "basename f = f"
  then show "slash \<notin> set f" by (metis basename_def last_split_char_no_sep)
next
  assume no: "slash \<notin> set f"
  then have "dropWhile (\<lambda>c. c = slash) (rev f) = rev f"
    by (cases f rule: rev_cases) auto
  then show "basename f = f"
    using no by (simp add: basename_def strip_trailing_def split_char_no_sep)
qed

lemma norm_segments_clean:
  "\<forall>x \<in> set xs. clean_segment x \<Longrightarrow> norm_segments absolute stack (xs @ ys) = norm_segments absolute (rev xs @ stack) ys"
  by (induction xs arbitrary: stack) (auto simp: clean_segment_def)

lemma clean_segmentD:
  assumes "clean_segment x"
  shows "x \<noteq> []" "x \<noteq> dot" "x \<noteq> dotdot" "slash \<notin> set x" "last x \<noteq> slash"
  using assms last_in_set [of x] by (auto simp: clean_segment_def simp del: last_in_set)

lemma dot_not_dotdot: "dotdot \<noteq> dot" "dotdot \<noteq> []"
  by (simp_all add: dot_def dotdot_def)

lemma norm_segments_parts:
  "\<forall>x \<in> set stack. clean_segment x \<Longrightarrow> \<forall>x \<in> set xs. slash \<notin> set x \<Longrightarrow>
     y \<in> set (norm_segments True stack xs) \<Longrightarrow> clean_segment y"
proof (induction xs arbitrary: stack)
  case (Cons x xs)
  consider "x = [] \<or> x = dot" | "x = dotdot" "stack = []" | t ts where "x = dotdot" "stack = t # ts"
    | "x \<noteq> []" "x \<noteq> dot" "x \<noteq> dotdot"
    by (cases stack) auto
  then show ?case
  proof cases
    case 1
    with Cons.prems show ?thesis by (intro Cons.IH [of stack]) auto
  next
    case 2
    with Cons.prems show ?thesis by (intro Cons.IH [of "[]"]) (auto simp: dot_not_dotdot)
  next
    case 3
    with Cons.prems clean_segmentD(3) [of t] show ?thesis
      by (intro Cons.IH [of ts]) (auto simp: dot_not_dotdot)
  next
    case 4
    with Cons.prems have "\<forall>z \<in> set (x # stack). clean_segment z" by (simp add: clean_segment_def)
    from Cons.IH [OF this] 4 Cons.prems show ?thesis by simp
  qed
qed simp

lemma norm_segments_snoc:
  "clean_segment f \<Longrightarrow> norm_segments absolute stack (xs @ [f]) = norm_segments absolute stack xs @ [f]"
proof (induction xs arbitrary: stack)
  case Nil
  then show ?case by (simp add: clean_segment_def)
next
  case (Cons x xs)
  then show ?case by (cases stack) auto
qed

lemma join_slash_neq_Nil: "\<forall>x \<in> set xs. clean_segment x \<Longrightarrow> join [slash] xs = [] \<longleftrightarrow> xs = []"
  by (cases xs) (auto simp: join_Cons clean_segment_def)

lemma last_join_clean:
  "xs \<noteq> [] \<Longrightarrow> \<forall>x \<in> set xs. clean_segment x \<Longrightarrow> last (join [slash] xs) \<noteq> slash"
proof (induction "[slash]" xs rule: join.induct)
  case (2 x)
  then show ?case by (simp add: clean_segmentD)
next
  case (3 x y ys)
  moreover from 3 have "join [slash] (y # ys) \<noteq> []" by (simp add: join_slash_neq_Nil)
  ultimately show ?case by simp
qed simp

text \<open>The segments of an absolute path, for stating where a file lies.\<close>

definition absolute_path :: "jstr \<Rightarrow> jstr list \<Rightarrow> bool" where
  "absolute_path p segs \<longleftrightarrow> p = slash # join [slash] segs \<and> (\<forall>x \<in> set segs. clean_segment x)"

lemma normalize_clean_absolute:
  assumes "xs \<noteq> []" and clean: "\<forall>x \<in> set xs. clean_segment x"
  shows "normalize_path (slash # join [slash] xs) = slash # join [slash] xs"
proof -
  have "split_char slash (slash # join [slash] xs) = [] # xs"
    using assms by (simp add: split_char_join clean_segment_def)
  moreover have "norm_segments True [] xs = xs"
    using norm_segments_clean [OF clean, of True "[]" "[]"] by simp
  moreover have "join [slash] xs \<noteq> []" "last (join [slash] xs) \<noteq> slash"
    using assms by (simp_all add: join_slash_neq_Nil last_join_clean)
  ultimately show ?thesis by (simp add: normalize_path_def Let_def)
qed

text \<open>Joining an absolute directory and one clean segment appends that segment.\<close>

lemma path_join_child:
  assumes dir: "absolute_path d segs" "segs \<noteq> []" and f: "clean_segment f"
  shows "path_join [d, f] = d @ slash # f" and "absolute_path (path_join [d, f]) (segs @ [f])"
proof -
  have *: "d @ slash # f = slash # join [slash] (segs @ [f])"
  proof -
    have "join [slash] (segs @ [f]) = join [slash] segs @ slash # f" using dir(2)
      by (induction "[slash]" segs rule: join.induct) auto
    with dir(1) show ?thesis by (simp add: absolute_path_def)
  qed
  have clean: "\<forall>x \<in> set (segs @ [f]). clean_segment x"
    using dir f by (auto simp: absolute_path_def)
  have "f \<noteq> []" "d \<noteq> []" using dir f by (auto simp: absolute_path_def clean_segment_def)
  then have "path_join [d, f] = normalize_path (d @ slash # f)"
    by (simp add: path_join_def)
  also have "\<dots> = d @ slash # f"
    unfolding * using clean by (intro normalize_clean_absolute) auto
  finally show "path_join [d, f] = d @ slash # f" .
  then show "absolute_path (path_join [d, f]) (segs @ [f])"
    using clean by (simp add: * absolute_path_def)
qed

text \<open>Joining an absolute working directory with relative segments gives an absolute path again.\<close>

lemma path_join_absolute:
  assumes cwd: "cwd \<noteq> []" "hd cwd = slash" and rel: "\<forall>x \<in> set xs. slash \<notin> set x \<and> x \<noteq> []"
    and f: "clean_segment f"
  shows "\<exists>segs. absolute_path (path_join (cwd # xs @ [f])) (segs @ [f])"
proof -
  define r where "r = join [slash] (xs @ [f])"
  define q where "q = cwd @ slash # r"
  have r: "split_char slash r = xs @ [f]"
    using rel f by (auto simp: r_def clean_segment_def intro!: split_char_join)
  note f' = clean_segmentD(1,5) [OF f]
  have "last r = last f"
    using f' by (simp add: r_def) (induction "[slash]" "xs @ [f]" arbitrary: xs rule: join.induct; auto simp: join_Cons Cons_eq_append_conv)
  moreover have "r \<noteq> []" using r f' by auto
  ultimately have last_q: "last q \<noteq> slash" using f' by (simp add: q_def)
  have "path_join (cwd # xs @ [f]) = normalize_path q"
  proof -
    have "filter (\<lambda>p. p \<noteq> []) (cwd # xs @ [f]) = cwd # xs @ [f]"
      using cwd rel f' by (auto simp: filter_id_conv)
    then show ?thesis
      by (simp add: path_join_def Let_def q_def r_def join_Cons del: filter.simps)
  qed
  moreover define segs where "segs = norm_segments True [] (split_char slash cwd @ xs)"
  have ns: "norm_segments True [] (split_char slash q) = segs @ [f]"
    using norm_segments_snoc [OF f, of True "[]" "split_char slash cwd @ xs"]
    by (simp add: q_def split_char_append_sep r segs_def)
  have "\<forall>x \<in> set (segs @ [f]). clean_segment x"
    using norm_segments_parts [of "[]" "split_char slash q"] split_char_parts [of _ slash q]
    by (auto simp: ns [symmetric])
  moreover from this have "join [slash] (segs @ [f]) \<noteq> []"
    by (simp add: join_slash_neq_Nil)
  moreover have "q \<noteq> []" "hd q = slash" using cwd by (simp_all add: q_def)
  ultimately show ?thesis
    using last_q ns by (auto simp: absolute_path_def normalize_path_def Let_def)
qed

end
