(* ===== verification/DocsNav.thy ===== *)
theory DocsNav
  imports DocsParse Paths "HOL-Library.Multiset"
begin

text \<open>
  \<^verbatim>\<open>web/lib/docs.ts\<close>, lines 58 to 83, with the two routes built on it
  (\<^verbatim>\<open>web/app/docs/[[...slug]]/page.tsx\<close> and \<^verbatim>\<open>web/app/docs-assets/[file]/route.ts\<close>) and the data
  \<^verbatim>\<open>web/app/docs/layout.tsx\<close> hands to the navigation: where a page is served, how the navigation
  groups the pages, and which image files may be served.
\<close>

section \<open>Addresses of pages\<close>

definition docSlug :: "jstr \<Rightarrow> jstr list" where
  "docSlug slug = (if slug = js ''index'' then [] else [slug])"

definition docHref :: "jstr \<Rightarrow> jstr" where
  "docHref slug = join [slash] (js ''/docs'' # docSlug slug)"

lemma docHref_eq:
  "docHref slug = (if slug = js ''index'' then js ''/docs'' else js ''/docs/'' @ slug)"
  by (simp add: docHref_def docSlug_def join_Cons js_def)

lemma docHref_inject: "docHref s = docHref t \<longleftrightarrow> s = t"
  by (auto simp: docHref_eq js_def split: if_splits)

section \<open>Navigation\<close>

record nav_section =
  ns_id :: section_id
  ns_label :: jstr
  ns_pages :: "doc list"

text \<open>
  \<open>Array.prototype.sort\<close> is stable. The comparator \<open>a.order - b.order\<close> orders by the number (two
  infinite orders differ by \<open>NaN\<close>, which counts as equal, as \<^typ>\<open>enat\<close> has it).
\<close>

definition navSections :: "doc list \<Rightarrow> nav_section list" where
  "navSections docs =
     filter (\<lambda>s. length (ns_pages s) > 0)
       (map (\<lambda>(i, name, label).
          \<lparr>ns_id = i, ns_label = label,
           ns_pages = sort_key d_order (filter (\<lambda>d. d_section d = i) docs)\<rparr>) SECTIONS)"

text \<open>The sections as \<^verbatim>\<open>layout.tsx\<close> passes them on: per page its slug, title and address.\<close>

definition nav_links :: "doc list \<Rightarrow> (section_id \<times> jstr \<times> (jstr \<times> jstr \<times> jstr) list) list" where
  "nav_links docs =
     map (\<lambda>s. (ns_id s, ns_label s,
               map (\<lambda>p. (d_slug p, d_title p, docHref (d_slug p))) (ns_pages s))) (navSections docs)"

lemma SECTIONS_ids: "map fst SECTIONS = [GetStarted, SecurityReview, Guides, Reference]"
  by (simp add: SECTIONS_def)

lemma nav_pages_concat:
  "concat (map ns_pages (navSections docs)) =
     concat (map (\<lambda>i. sort_key d_order (filter (\<lambda>d. d_section d = i) docs)) (map fst SECTIONS))"
  by (simp add: navSections_def SECTIONS_def)

lemma mset_by_section:
  "mset docs = mset (filter (\<lambda>d. d_section d = GetStarted) docs) +
     mset (filter (\<lambda>d. d_section d = SecurityReview) docs) +
     mset (filter (\<lambda>d. d_section d = Guides) docs) + mset (filter (\<lambda>d. d_section d = Reference) docs)"
proof (induction docs)
  case (Cons d docs)
  then show ?case by (cases "d_section d") simp_all
qed simp

text \<open>The navigation lists every page exactly once.\<close>

theorem navSections_partition: "mset (concat (map ns_pages (navSections docs))) = mset docs"
  unfolding nav_pages_concat SECTIONS_ids by (subst (2) mset_by_section) simp

text \<open>The sections of the navigation come in the order of the section table, each at most once and
  none empty; a section holds pages of that section only, sorted by their order number, and pages
  with equal order numbers stay in the order they were loaded in.\<close>

theorem navSections_ordered:
  "sorted_wrt (<) (map ns_id (navSections docs)) \<and>
   (\<forall>s \<in> set (navSections docs).
      ns_pages s \<noteq> [] \<and> (\<forall>d \<in> set (ns_pages s). d_section d = ns_id s) \<and>
      sorted (map d_order (ns_pages s)) \<and>
      (\<forall>k. filter (\<lambda>d. d_order d = k) (ns_pages s) =
           filter (\<lambda>d. d_order d = k \<and> d_section d = ns_id s) docs))"
proof (intro conjI ballI)
  let ?all = "map (\<lambda>(i, name, label). \<lparr>ns_id = i, ns_label = label,
      ns_pages = sort_key d_order (filter (\<lambda>d. d_section d = i) docs)\<rparr>) SECTIONS"
  have "map ns_id ?all = map fst SECTIONS"
    by (simp add: SECTIONS_def)
  then have "sorted_wrt (<) (map ns_id ?all)"
    by (simp add: SECTIONS_ids less_section_id_def del: map_map)
  then have "sorted_wrt (\<lambda>s t. ns_id s < ns_id t) ?all"
    by (simp only: sorted_wrt_map)
  then have "sorted_wrt (\<lambda>s t. ns_id s < ns_id t) (navSections docs)"
    unfolding navSections_def by (rule sorted_wrt_filter)
  then show "sorted_wrt (<) (map ns_id (navSections docs))"
    by (simp add: sorted_wrt_map)
next
  fix s assume "s \<in> set (navSections docs)"
  then have s: "ns_pages s \<noteq> []" "ns_pages s = sort_key d_order (filter (\<lambda>d. d_section d = ns_id s) docs)"
    by (auto simp: navSections_def)
  then show "ns_pages s \<noteq> []" "sorted (map d_order (ns_pages s))" by simp_all
  from s show "d_section d = ns_id s" if "d \<in> set (ns_pages s)" for d using that by simp
  define i where "i = ns_id s"
  have "filter (\<lambda>d. d_order d = k) (sort_key d_order (filter (\<lambda>d. d_section d = i) docs)) =
      filter (\<lambda>d. d_order d = k \<and> d_section d = i) docs" for k
    by (subst sort_key_stable) (auto intro: filter_cong)
  with s(2) i_def show "\<forall>k. filter (\<lambda>d. d_order d = k) (ns_pages s) =
      filter (\<lambda>d. d_order d = k \<and> d_section d = ns_id s) docs" by simp
qed

definition sample_doc :: "jstr \<Rightarrow> section_id \<Rightarrow> nat \<Rightarrow> doc" where
  "sample_doc slug i n =
     \<lparr>d_slug = slug, d_title = slug, d_section = i, d_order = enat n, d_description = slug, d_body = []\<rparr>"

theorem navSections_ordered_witness:
  "\<exists>s. s \<in> set (navSections [sample_doc (js ''b'') Guides 2, sample_doc (js ''a'') Guides 1]) \<and>
    sorted (map d_order (ns_pages s)) \<and> ns_pages s \<noteq> []"
proof -
  let ?docs = "[sample_doc (js ''b'') Guides 2, sample_doc (js ''a'') Guides 1]"
  have "navSections ?docs \<noteq> []" by (simp add: navSections_def SECTIONS_def sample_doc_def)
  then obtain s where "s \<in> set (navSections ?docs)" by (meson last_in_set)
  with navSections_ordered [of ?docs] show ?thesis by blast
qed

section \<open>Pages and their static parameters\<close>

text \<open>The optional catch-all parameter defaults to the empty list.\<close>

definition find_page :: "doc list \<Rightarrow> jstr list option \<Rightarrow> doc option" where
  "find_page docs slug =
     find (\<lambda>d. join [slash] (docSlug (d_slug d)) = join [slash] (nullish slug [])) docs"

definition generateStaticParams :: "doc list \<Rightarrow> jstr list list" where
  "generateStaticParams docs = map (\<lambda>d. docSlug (d_slug d)) docs"

lemma map_result_Inr:
  "map_result f xs = Inr ys \<longleftrightarrow> length ys = length xs \<and> (\<forall>i < length xs. f (xs ! i) = Inr (ys ! i))"
proof (induction xs arbitrary: ys)
  case (Cons x xs)
  show ?case
  proof (cases ys)
    case Nil
    then show ?thesis by (auto split: sum.splits)
  next
    case (Cons y ys')
    have "(\<forall>i < length (x # xs). f ((x # xs) ! i) = Inr (ys ! i)) \<longleftrightarrow>
        f x = Inr y \<and> (\<forall>i < length xs. f (xs ! i) = Inr (ys' ! i))"
      unfolding Cons by (simp add: All_less_Suc2)
    then show ?thesis using Cons Cons.IH [of ys'] by (auto split: sum.splits)
  qed
qed auto

lemma map_result_map:
  "map_result f xs = Inr ys \<Longrightarrow> (\<And>x y. x \<in> set xs \<Longrightarrow> f x = Inr y \<Longrightarrow> g y = h x) \<Longrightarrow> map g ys = map h xs"
  by (induction xs arbitrary: ys) (auto split: sum.splits)

definition doc_files :: "(jstr \<times> jstr) list \<Rightarrow> jstr list" where
  "doc_files dir = filter (ends_with (js ''.md'')) (map fst dir)"

lemma loadDocs_slugs: "loadDocs dir = Inr docs \<Longrightarrow> map d_slug docs = map strip_md (doc_files dir)"
  unfolding loadDocs_def doc_files_def filter_map map_map
  by (drule map_result_map [where g = d_slug and h = "strip_md \<circ> fst"])
    (auto elim: parseDoc_InrD simp: comp_def split_def)

lemma strip_md_inj: "inj_on strip_md {f. ends_with (js ''.md'') f}"
  by (auto simp: inj_on_def ends_with_iff strip_md_def)

lemma loadDocs_distinct:
  assumes "loadDocs dir = Inr docs" and "distinct (map fst dir)"
  shows "distinct (map d_slug docs)"
proof -
  have "set (doc_files dir) \<subseteq> {f. ends_with (js ''.md'') f}" by (auto simp: doc_files_def)
  then have "inj_on strip_md (set (doc_files dir))" by (rule inj_on_subset [OF strip_md_inj])
  then show ?thesis
    unfolding loadDocs_slugs [OF assms(1)] using assms(2) by (simp add: distinct_map doc_files_def)
qed

lemma find_unique:
  "x \<in> set xs \<Longrightarrow> P x \<Longrightarrow> (\<And>y. y \<in> set xs \<Longrightarrow> P y \<Longrightarrow> y = x) \<Longrightarrow> find P xs = Some x"
  by (metis find_None_ball find_Some_mem not_None_eq)

lemma docSlug_join_inject:
  "s \<noteq> [] \<Longrightarrow> t \<noteq> [] \<Longrightarrow> join [slash] (docSlug s) = join [slash] (docSlug t) \<longleftrightarrow> s = t"
  by (auto simp: docSlug_def)

definition sample_dir :: "(jstr \<times> jstr) list" where
  "sample_dir =
     [(js ''index'' @ js ''.md'', print_doc (js ''index'') GetStarted 1 (js ''index'') []),
      (js ''README.txt'', js ''not a page''),
      (js ''a'' @ js ''.md'', print_doc (js ''a'') Guides 2 (js ''a'') [])]"

lemma loadDocs_sample:
  "loadDocs sample_dir = Inr [sample_doc (js ''index'') GetStarted 1, sample_doc (js ''a'') Guides 2]"
proof -
  have p: "parseDoc (s @ js ''.md'') (print_doc s i n s []) = Inr (sample_doc s i n)"
    if "clean_value s" "n < 2 ^ 53" for s i n
    unfolding sample_doc_def using that by (intro parseDoc_print) (simp_all add: strip_title_def js_eval)
  have "clean_value (js ''index'')" "clean_value (js ''a'')"
    by (simp_all add: clean_value_def js_eval)
  moreover have "ends_with (js ''.md'') (x @ js ''.md'')" for x by (auto simp: ends_with_iff)
  moreover have "\<not> ends_with (js ''.md'') (js ''README.txt'')" by (simp add: ends_with_def strip_suffix_def js_eval)
  ultimately show ?thesis by (simp add: loadDocs_def sample_dir_def p)
qed

lemma sample_dir_files: "distinct (map fst sample_dir)" "js ''.md'' \<notin> fst ` set sample_dir"
  by (simp_all add: sample_dir_def js_def)

text \<open>Every page that loads is served at its own address: the static parameters generated for it
  lead back to that page and to no other (file names in a directory differ; a file called just
  \<^verbatim>\<open>.md\<close> is excluded, since its empty slug would collide with the index page).\<close>

theorem static_params_resolve:
  assumes "loadDocs dir = Inr docs" and "distinct (map fst dir)" and "js ''.md'' \<notin> fst ` set dir"
    and "d \<in> set docs"
  shows "find_page docs (Some (docSlug (d_slug d))) = Some d"
proof -
  have nonempty: "d_slug e \<noteq> []" if "e \<in> set docs" for e
  proof
    assume "d_slug e = []"
    with that have "[] \<in> set (map d_slug docs)" by force
    then show False using assms(3)
      unfolding loadDocs_slugs [OF assms(1)] doc_files_def
      by (auto simp: strip_md_def ends_with_iff split: option.splits) (metis fst_conv image_eqI)
  qed
  have "inj_on d_slug (set docs)"
    using loadDocs_distinct [OF assms(1,2)] by (simp add: distinct_map)
  then show ?thesis
    unfolding find_page_def nullish_simps
    using assms(4) nonempty
    by (intro find_unique) (auto simp: docSlug_join_inject dest: inj_onD)
qed

theorem static_params_resolve_witness:
  "find_page [sample_doc (js ''index'') GetStarted 1, sample_doc (js ''a'') Guides 2] (Some [js ''a'']) =
     Some (sample_doc (js ''a'') Guides 2)"
  using static_params_resolve [OF loadDocs_sample sample_dir_files, of "sample_doc (js ''a'') Guides 2"]
  by (simp add: sample_doc_def docSlug_def)

section \<open>Images\<close>

text \<open>
  \<open>ASSET_TYPES\<close> is an object literal, so a lookup also finds what the object inherits from
  \<open>Object.prototype\<close>; the type annotation does not say so.
\<close>

datatype js_prop = OwnString jstr | Inherited jstr

definition object_prototype :: "jstr list" where
  "object_prototype =
     [js ''constructor'', js ''__defineGetter__'', js ''__defineSetter__'', js ''hasOwnProperty'',
      js ''__lookupGetter__'', js ''__lookupSetter__'', js ''isPrototypeOf'',
      js ''propertyIsEnumerable'', js ''toString'', js ''valueOf'', js ''__proto__'',
      js ''toLocaleString'']"

definition asset_types :: "(jstr \<times> jstr) list" where
  "asset_types = [(js ''gif'', js ''image/gif''), (js ''svg'', js ''image/svg+xml'')]"

definition assetType :: "jstr \<Rightarrow> js_prop option" where
  "assetType file =
     (let ext = last (split_char 46 file) in
      (case map_of asset_types ext of
         Some t \<Rightarrow> Some (OwnString t)
       | None \<Rightarrow> if ext \<in> set object_prototype then Some (Inherited ext) else None))"

definition ASSETS_DIR :: "jstr \<Rightarrow> jstr" where
  "ASSETS_DIR cwd = path_join [cwd, dotdot, js ''docs'', js ''assets'']"

definition assetPath :: "jstr \<Rightarrow> jstr \<Rightarrow> jstr option" where
  "assetPath cwd file =
     (if basename file \<noteq> file \<or> starts_with [46] file \<or> assetType file = None then None
      else Some (path_join [ASSETS_DIR cwd, file]))"

definition assetFiles :: "jstr \<Rightarrow> jstr list \<Rightarrow> jstr list" where
  "assetFiles cwd listing = filter (\<lambda>f. assetPath cwd f \<noteq> None) listing"

text \<open>
  The image route; reading a file is the function \<open>fs\<close> from paths to contents, \<^term>\<open>None\<close> where
  \<open>readFile\<close> rejects.
\<close>

datatype asset_response = NotFound | Image (content_type: js_prop) (bytes: "nat list")

definition GET_asset :: "jstr \<Rightarrow> (jstr \<Rightarrow> nat list option) \<Rightarrow> jstr \<Rightarrow> asset_response" where
  "GET_asset cwd fs file =
     (case assetPath cwd file of
        None \<Rightarrow> NotFound
      | Some path \<Rightarrow>
          (case fs path of None \<Rightarrow> NotFound
           | Some b \<Rightarrow> Image (the (assetType file)) b))"

lemma assetType_iff:
  "assetType file \<noteq> None \<longleftrightarrow>
     last (split_char 46 file) \<in> {js ''gif'', js ''svg''} \<union> set object_prototype"
  by (simp add: assetType_def Let_def asset_types_def)

lemma assetPath_SomeD:
  assumes "assetPath cwd file = Some p"
  shows "clean_segment file" "assetType file \<noteq> None" "p = path_join [ASSETS_DIR cwd, file]"
proof -
  from assms have *: "basename file = file" "\<not> starts_with [46] file" "assetType file \<noteq> None"
    "p = path_join [ASSETS_DIR cwd, file]"
    by (auto simp: assetPath_def split: if_splits)
  moreover have "file \<noteq> []"
    using *(3) unfolding assetType_iff by (auto simp: object_prototype_def)
  ultimately show "clean_segment file" "assetType file \<noteq> None" "p = path_join [ASSETS_DIR cwd, file]"
    by (auto simp: clean_segment_def basename_eq_iff starts_with_iff dot_def dotdot_def)
qed

lemma assets_dir_absolute:
  assumes "cwd \<noteq> []" "hd cwd = slash"
  shows "\<exists>segs. absolute_path (ASSETS_DIR cwd) (segs @ [js ''assets''])"
proof -
  have "clean_segment (js ''assets'')" and rel: "\<forall>x \<in> set [dotdot, js ''docs'']. slash \<notin> set x \<and> x \<noteq> []"
    by (simp_all add: clean_segment_def dot_def dotdot_def js_def)
  from path_join_absolute [OF assms rel this(1)] show ?thesis
    by (simp add: ASSETS_DIR_def)
qed

text \<open>C21. No request reads outside the asset directory: for an absolute working directory, a path
  that \<open>assetPath\<close> returns is the asset directory, one slash and the requested name, and its
  segments are those of the directory followed by that single name.\<close>

theorem assetPath_contained:
  assumes "cwd \<noteq> []" and "hd cwd = slash" and "assetPath cwd file = Some p"
  shows "p = ASSETS_DIR cwd @ slash # file \<and>
    (\<exists>segs. absolute_path (ASSETS_DIR cwd) segs \<and> absolute_path p (segs @ [file]))"
proof -
  obtain segs where segs: "absolute_path (ASSETS_DIR cwd) (segs @ [js ''assets''])"
    using assets_dir_absolute [OF assms(1,2)] by blast
  note f = assetPath_SomeD [OF assms(3)]
  from path_join_child [OF segs _ f(1)] f(3) segs show ?thesis by auto
qed

theorem assetPath_contained_witness:
  "assetPath (js ''/srv/web'') (js ''a.svg'') = Some (ASSETS_DIR (js ''/srv/web'') @ slash # js ''a.svg'')"
proof -
  have "\<exists>p. assetPath (js ''/srv/web'') (js ''a.svg'') = Some p"
    by (simp add: assetPath_def basename_eq_iff assetType_def asset_types_def starts_with_iff js_eval)
  then obtain p where p: "assetPath (js ''/srv/web'') (js ''a.svg'') = Some p" ..
  from assetPath_contained [OF _ _ p] p show ?thesis by (simp add: js_def)
qed

text \<open>The comment promises \<open>null\<close> for anything that is not an image file name, but the lookup
  also accepts every name inherited from \<open>Object.prototype\<close>: a name is accepted exactly when it is
  a plain file name whose text after the last dot is \<^verbatim>\<open>gif\<close>, \<^verbatim>\<open>svg\<close> or such an inherited name.\<close>

theorem assetPath_accepts_iff:
  "assetPath cwd file \<noteq> None \<longleftrightarrow>
     slash \<notin> set file \<and> \<not> starts_with [46] file \<and>
     last (split_char 46 file) \<in> {js ''gif'', js ''svg''} \<union> set object_prototype"
  unfolding assetType_iff [symmetric] by (simp add: assetPath_def basename_eq_iff)

end
