(* ===== verification/Seo.thy ===== *)
theory Seo
  imports Json Env Content DocsNav
begin

text \<open>
  \<^verbatim>\<open>web/lib/seo.ts\<close> and the routes built on it (\<^verbatim>\<open>web/app/robots.ts\<close>, \<^verbatim>\<open>sitemap.ts\<close>,
  \<^verbatim>\<open>llms.txt/route.ts\<close>, and \<open>generateMetadata\<close> of the documentation pages): page metadata,
  \<^verbatim>\<open>robots.txt\<close>, the site map, structured data and the text for language models.
\<close>

section \<open>Routes and metadata\<close>

record route =
  rt_path :: jstr
  rt_title :: jstr
  rt_description :: jstr

definition routes :: "route list" where
  "routes =
     [\<lparr>rt_path = js ''/'', rt_title = js ''Agentic Warden '' @ [8212] @ js '' one policy for your coding agents'',
       rt_description = s_description site\<rparr>,
      \<lparr>rt_path = js ''/product'', rt_title = js ''Product '' @ [8212] @ js '' Agentic Warden'',
       rt_description = js ''Group and repository targeting, signed bundles, SCIM provisioning and scheduled sync for Claude Code, Codex and Antigravity CLI.''\<rparr>,
      \<lparr>rt_path = js ''/pricing'', rt_title = js ''Pricing '' @ [8212] @ js '' Agentic Warden'',
       rt_description = js ''Team, Enterprise and Self-hosted plans for governing AI coding agents. Contact us for a quote.''\<rparr>,
      \<lparr>rt_path = js ''/demo'', rt_title = js ''Request a demo '' @ [8212] @ js '' Agentic Warden'',
       rt_description = js ''See Agentic Warden applied to your own agent policy. Tell us which coding agents your developers use.''\<rparr>]"

definition abs_url :: "jstr \<Rightarrow> env \<Rightarrow> jstr" where
  "abs_url path env = siteUrl env @ path"

record page_metadata =
  md_title :: jstr
  md_description :: jstr
  md_canonical :: jstr
  md_index :: bool
  md_follow :: bool
  md_og_type :: jstr
  md_og_siteName :: jstr
  md_og_title :: jstr
  md_og_description :: jstr
  md_og_url :: jstr
  md_tw_card :: jstr
  md_tw_title :: jstr
  md_tw_description :: jstr

text \<open>A path outside \<open>routes\<close> (which its type excludes) throws.\<close>

definition pageMetadata :: "jstr \<Rightarrow> env \<Rightarrow> page_metadata option" where
  "pageMetadata path env =
     (case find (\<lambda>r. rt_path r = path) routes of
        None \<Rightarrow> None
      | Some route \<Rightarrow>
          (let index = isProductionDeploy env in
           Some \<lparr>md_title = rt_title route, md_description = rt_description route,
                 md_canonical = abs_url path env, md_index = index, md_follow = index,
                 md_og_type = js ''website'', md_og_siteName = s_name site,
                 md_og_title = rt_title route, md_og_description = rt_description route,
                 md_og_url = abs_url path env, md_tw_card = js ''summary_large_image'',
                 md_tw_title = rt_title route, md_tw_description = rt_description route\<rparr>))"

record robots_rule =
  rr_userAgent :: jstr
  rr_allow :: "jstr option"
  rr_disallow :: "jstr option"

record robots =
  rb_rules :: "robots_rule list"
  rb_sitemap :: "jstr option"

definition robotsFor :: "env \<Rightarrow> robots" where
  "robotsFor env =
     (if \<not> isProductionDeploy env
      then \<lparr>rb_rules = [\<lparr>rr_userAgent = js ''*'', rr_allow = None, rr_disallow = Some (js ''/'')\<rparr>],
            rb_sitemap = None\<rparr>
      else \<lparr>rb_rules = [\<lparr>rr_userAgent = js ''*'', rr_allow = Some (js ''/''), rr_disallow = None\<rparr>],
            rb_sitemap = Some (abs_url (js ''/sitemap.xml'') env)\<rparr>)"

definition sitemapFor :: "env \<Rightarrow> jstr list \<Rightarrow> jstr list" where
  "sitemapFor env extraPaths = map (\<lambda>p. abs_url p env) (map rt_path routes @ extraPaths)"

definition sitemap :: "env \<Rightarrow> (jstr \<times> jstr) list \<Rightarrow> doc_error + jstr list" where
  "sitemap env dir =
     (case loadDocs dir of Inl e \<Rightarrow> Inl e
      | Inr docs \<Rightarrow> Inr (sitemapFor env (map (\<lambda>d. docHref (d_slug d)) docs)))"

record doc_metadata =
  dm_title :: jstr
  dm_description :: jstr
  dm_canonical :: jstr

text \<open>\<open>generateMetadata\<close>: nothing for an address without a page.\<close>

definition doc_page_metadata :: "env \<Rightarrow> doc list \<Rightarrow> jstr list option \<Rightarrow> doc_metadata option" where
  "doc_page_metadata env docs slug =
     (case find_page docs slug of
        None \<Rightarrow> None
      | Some d \<Rightarrow>
          Some \<lparr>dm_title = d_title d @ js '' '' @ [8212] @ js '' Agentic Warden docs'',
                dm_description = d_description d,
                dm_canonical = siteUrl env @ docHref (d_slug d)\<rparr>)"

section \<open>Structured data\<close>

definition organizationJsonLd :: "env \<Rightarrow> json" where
  "organizationJsonLd env = JObj
     [(js ''@context'', JStr (js ''https://schema.org'')),
      (js ''@type'', JStr (js ''Organization'')),
      (js ''name'', JStr (s_name site)),
      (js ''url'', JStr (abs_url [slash] env)),
      (js ''sameAs'', JArr [JStr (s_githubUrl site)])]"

definition softwareJsonLd :: "env \<Rightarrow> json" where
  "softwareJsonLd env = JObj
     [(js ''@context'', JStr (js ''https://schema.org'')),
      (js ''@type'', JStr (js ''SoftwareApplication'')),
      (js ''name'', JStr (s_name site)),
      (js ''description'', JStr (s_description site)),
      (js ''url'', JStr (abs_url [slash] env)),
      (js ''applicationCategory'', JStr (js ''DeveloperApplication'')),
      (js ''operatingSystem'', JStr (js ''Linux, macOS, Windows'')),
      (js ''license'', JStr (s_licenseUrl site))]"

definition faqJsonLd :: json where
  "faqJsonLd = JObj
     [(js ''@context'', JStr (js ''https://schema.org'')),
      (js ''@type'', JStr (js ''FAQPage'')),
      (js ''mainEntity'', JArr (map (\<lambda>(q, a). JObj
         [(js ''@type'', JStr (js ''Question'')),
          (js ''name'', JStr q),
          (js ''acceptedAnswer'', JObj [(js ''@type'', JStr (js ''Answer'')), (js ''text'', JStr a)])])
         (pr_faq pricing)))]"

section \<open>The text for language models\<close>

definition llmsTxt :: "env \<Rightarrow> jstr" where
  "llmsTxt env = join [LF]
     ([js ''# '' @ s_name site, [], js ''> '' @ s_description site, [], js ''## Pages'', []] @
      map (\<lambda>r. js ''- ['' @ rt_title r @ js '']('' @ abs_url (rt_path r) env @ js ''): '' @ rt_description r) routes @
      [[], js ''## Docs'', [],
       js ''- [Docs]('' @ abs_url (s_docsUrl site) env @
         js ''): quickstart, how it works and the security model'', []])"

text \<open>The routes themselves: \<^verbatim>\<open>robots.ts\<close>, and the body and content type of \<^verbatim>\<open>llms.txt\<close>.\<close>

definition robots_route :: "env \<Rightarrow> robots" where
  "robots_route env = robotsFor env"

definition llms_route :: "env \<Rightarrow> jstr \<times> jstr" where
  "llms_route env = (llmsTxt env, js ''text/plain; charset=utf-8'')"

section \<open>Lemmas\<close>

lemma route_paths: "map rt_path routes = [js ''/'', js ''/product'', js ''/pricing'', js ''/demo'']"
  by (simp add: routes_def)

lemma abs_url_inject [simp]: "abs_url p env = abs_url q env \<longleftrightarrow> p = q"
  by (simp add: abs_url_def)

lemma pageMetadata_SomeD:
  assumes "pageMetadata path env = Some m"
  shows "path \<in> set (map rt_path routes)" "md_canonical m = abs_url path env" "md_og_url m = abs_url path env"
    "md_index m = isProductionDeploy env" "md_follow m = isProductionDeploy env"
  using assms by (auto simp: pageMetadata_def Let_def split: option.splits dest!: find_Some_mem)

lemma docHref_not_route: "docHref s \<notin> set (map rt_path routes)"
  unfolding route_paths docHref_eq by (auto simp: js_def)

section \<open>Properties\<close>

text \<open>Search engines are told one thing: a page is marked for indexing, \<^verbatim>\<open>robots.txt\<close> allows the
  crawl and names the site map exactly in a production deploy, and everywhere else both forbid it.
  The canonical address of a page is the one in its Open Graph data and in the site map.\<close>

theorem indexing_consistent:
  assumes "pageMetadata path env = Some m"
  shows "(md_index m \<longleftrightarrow> isProductionDeploy env) \<and> md_follow m = md_index m \<and>
    (map rr_disallow (rb_rules (robotsFor env)) = [Some (js ''/'')] \<longleftrightarrow> \<not> md_index m) \<and>
    (rb_sitemap (robotsFor env) \<noteq> None \<longleftrightarrow> md_index m) \<and>
    md_canonical m = md_og_url m \<and> md_canonical m \<in> set (sitemapFor env extra)"
  using pageMetadata_SomeD [OF assms] by (auto simp: robotsFor_def sitemapFor_def)

theorem indexing_consistent_witness:
  "\<exists>m. pageMetadata (js ''/pricing'') sample_env = Some m \<and> md_index m"
proof -
  obtain m where m: "pageMetadata (js ''/pricing'') sample_env = Some m"
    by (auto simp: pageMetadata_def routes_def Let_def)
  moreover have "isProductionDeploy sample_env"
    by (simp add: isProductionDeploy_def sample_env_def)
  ultimately show ?thesis using indexing_consistent [OF m, of "[]"] by blast
qed

text \<open>The site map lists every page of the site once: the four routes and one address per
  documentation file, each the site address (which has no slash at its end) followed by a path that
  begins with one, so no address repeats and none has a doubled slash after the host.\<close>

theorem sitemap_complete:
  assumes "sitemap env dir = Inr urls" and "distinct (map fst dir)"
  shows "distinct urls \<and> length urls = 4 + length (doc_files dir) \<and>
    set urls = (\<lambda>p. siteUrl env @ p) `
      (set (map rt_path routes) \<union> (\<lambda>f. docHref (strip_md f)) ` set (doc_files dir)) \<and>
    (\<forall>u \<in> set urls. \<exists>p. u = siteUrl env @ slash # p) \<and> (siteUrl env = [] \<or> last (siteUrl env) \<noteq> slash)"
proof -
  obtain docs where docs: "loadDocs dir = Inr docs"
    and urls: "urls = sitemapFor env (map (\<lambda>d. docHref (d_slug d)) docs)"
    using assms(1) by (auto simp: sitemap_def split: sum.splits)
  note slugs = loadDocs_slugs [OF docs]
  have hrefs: "map (\<lambda>d. docHref (d_slug d)) docs = map (\<lambda>f. docHref (strip_md f)) (doc_files dir)"
    using arg_cong [OF slugs, of "map docHref"] by (simp add: comp_def)
  have "distinct (map docHref (map d_slug docs))"
    using loadDocs_distinct [OF docs assms(2)] by (subst distinct_map) (auto simp: inj_on_def docHref_inject)
  moreover have "set (map rt_path routes) \<inter> set (map docHref (map d_slug docs)) = {}"
  proof (rule ccontr)
    assume "set (map rt_path routes) \<inter> set (map docHref (map d_slug docs)) \<noteq> {}"
    then obtain p where p: "p \<in> set (map rt_path routes)" "p \<in> set (map docHref (map d_slug docs))" by blast
    from p(2) obtain s where "p = docHref s" by auto
    with p(1) have "docHref s \<in> set (map rt_path routes)" by (simp only:)
    with docHref_not_route show False by blast
  qed
  moreover have "distinct (map rt_path routes)" by (simp add: routes_def)
  ultimately have "distinct (map rt_path routes @ map docHref (map d_slug docs))"
    by (simp only: distinct_append simp_thms)
  then have "distinct (map rt_path routes @ map (\<lambda>d. docHref (d_slug d)) docs)" by (simp add: comp_def)
  then have "distinct urls"
    unfolding urls sitemapFor_def by (subst distinct_map) (simp add: inj_on_def)
  moreover have "length urls = 4 + length (doc_files dir)"
    unfolding urls sitemapFor_def hrefs by (simp add: routes_def)
  moreover have set_eq: "set urls = (\<lambda>p. siteUrl env @ p) `
      (set (map rt_path routes) \<union> (\<lambda>f. docHref (strip_md f)) ` set (doc_files dir))"
    unfolding urls sitemapFor_def hrefs by (simp add: abs_url_def image_image image_Un)
  moreover have "\<exists>q. p = slash # q" if "p \<in> set (map rt_path routes) \<union> range docHref" for p
    using that unfolding route_paths docHref_eq by (auto simp: js_def)
  then have "\<forall>u \<in> set urls. \<exists>p. u = siteUrl env @ slash # p"
    unfolding set_eq by fastforce
  ultimately show ?thesis using siteUrl_no_trailing_slash [of env] by blast
qed

theorem sitemap_complete_witness:
  "\<exists>urls. sitemap sample_env sample_dir = Inr urls \<and> distinct urls \<and> length urls = 4 + length (doc_files sample_dir)"
  using sitemap_complete [OF _ sample_dir_files(1), of sample_env]
  by (simp add: sitemap_def loadDocs_sample)

end
