(* ===== verification/SitePages.thy ===== *)
theory SitePages
  imports DemoForm Seo
begin

text \<open>
  The pages of the marketing site as element trees: \<^verbatim>\<open>web/app/layout.tsx\<close>, the home, product, pricing
  and not-found pages, the frame of the documentation, and the components they share
  (\<^verbatim>\<open>web/components/site-header.tsx\<close>, \<^verbatim>\<open>site-footer.tsx\<close>, \<^verbatim>\<open>home/hero.tsx\<close>, \<^verbatim>\<open>home/policy-snippet.tsx\<close>,
  \<^verbatim>\<open>docs-nav.tsx\<close>, \<^verbatim>\<open>docs-copy.tsx\<close>, \<^verbatim>\<open>theme-toggle.tsx\<close>). \<open>Link\<close> and \<open>ThemeProvider\<close> are
  third-party components and stay tags of the tree.
\<close>

section \<open>Header and footer\<close>

definition Link :: "link \<Rightarrow> node" where
  "Link l = El ''Link'' [(''href'', AS (l_href l))] [Txt (l_label l)]"

definition docs_link :: link where
  "docs_link = \<lparr>l_href = s_docsUrl site, l_label = js ''Docs''\<rparr>"

definition demo_link :: "string \<Rightarrow> link" where
  "demo_link label = \<lparr>l_href = js ''/demo'', l_label = js label\<rparr>"

definition ThemeToggle :: node where
  "ThemeToggle = El ''Button'' [(''aria-label'', AS (js ''Toggle theme''))] [El ''Sun'' [] [], El ''Moon'' [] []]"

text \<open>What the click hands to \<open>setTheme\<close> of \<^verbatim>\<open>next-themes\<close>.\<close>

definition toggled_theme :: "jstr option \<Rightarrow> jstr" where
  "toggled_theme resolved = (if resolved = Some (js ''dark'') then js ''light'' else js ''dark'')"

definition SiteHeader :: node where
  "SiteHeader =
     El ''header'' []
       [El ''div'' []
         [Link \<lparr>l_href = js ''/'', l_label = s_name site\<rparr>,
          El ''nav'' [(''aria-label'', AS (js ''Main''))] (map Link (s_nav site) @ [Link docs_link]),
          El ''div'' [] [Link docs_link, ThemeToggle, Link (demo_link ''Request demo'')]]]"

definition SiteFooter :: "nat \<Rightarrow> node" where
  "SiteFooter year =
     El ''footer'' []
       [El ''div'' []
         [El ''nav'' [(''aria-label'', AS (js ''Footer''))]
            (map Link (s_nav site) @
             [Link docs_link,
              El ''a'' [(''href'', AS (s_githubUrl site))] [Txt (js ''GitHub'')],
              El ''a'' [(''href'', AS (s_licenseUrl site))] [Txt (s_licenseName site)]]),
          El ''p'' [] [Txt ([169, 32] @ show_nat year @ js '' ''), Txt (s_name site)]]]"

definition JsonLd_script :: "json \<Rightarrow> node" where
  "JsonLd_script data = El ''script'' [(''type'', AS (js ''application/ld+json''))] [Txt (JsonLd data)]"

definition RootLayout :: "env \<Rightarrow> nat \<Rightarrow> node list \<Rightarrow> node list" where
  "RootLayout env year children =
     [El ''html'' [(''lang'', AS (js ''en''))]
       [El ''body'' []
         [JsonLd_script (organizationJsonLd env), JsonLd_script (softwareJsonLd env),
          El ''ThemeProvider'' [(''attribute'', AS (js ''class'')), (''defaultTheme'', AS (js ''dark'')), (''enableSystem'', AB False)]
            [El ''a'' [(''href'', AS (js ''#main''))] [Txt (js ''Skip to content'')],
             SiteHeader, El ''main'' [(''id'', AS (js ''main''))] children, SiteFooter year]]]]"

section \<open>Home\<close>

definition PolicySnippet :: node where
  "PolicySnippet =
     El ''figure'' [(''aria-label'', AS (js ''Policy''))]
       [El ''figcaption'' [] [Txt (js ''org-policy.yaml'')],
        El ''pre'' [] [El ''code'' [] [Txt (h_policy home)]]]"

definition terminal_line :: "jstr \<times> jstr \<Rightarrow> node" where
  "terminal_line line =
     El ''div'' []
       [El ''div'' [] [Txt (fst line)],
        El ''div'' [] [El ''span'' [] [Txt (js ''$ '')], Txt (snd line)]]"

definition Hero :: node where
  "Hero =
     El ''section'' []
       [El ''div'' []
          [El ''p'' [] [Txt (h_eyebrow home)], El ''h1'' [] [Txt (h_title home)], El ''p'' [] [Txt (h_lede home)],
           El ''div'' [] [Link (h_primaryCta home), Link (h_secondaryCta home)]],
        El ''div'' []
          [El ''figure'' [(''aria-label'', AS (js ''Terminal''))]
             [El ''div'' [] [El ''span'' [] [], El ''span'' [] [], El ''span'' [] []],
              El ''div'' [] (map terminal_line (h_terminal home))],
           PolicySnippet]]"

text \<open>\<open>String(i + 1).padStart(2, "0")\<close>.\<close>

definition pad2 :: "nat \<Rightarrow> jstr" where
  "pad2 n = replicate (2 - length (show_nat n)) 48 @ show_nat n"

definition home_step :: "nat \<times> jstr \<times> jstr \<times> jstr \<Rightarrow> node" where
  "home_step s =
     (case s of (i, command, title, body) \<Rightarrow>
        El ''li'' []
          [El ''span'' [] [Txt (pad2 (i + 1)), Txt (32 # mid_dot @ js '' ''), Txt command],
           El ''h3'' [] [Txt title], El ''p'' [] [Txt body]])"

definition HomePage :: "node list" where
  "HomePage =
     [Hero,
      El ''section'' []
        [El ''h2'' [] [Txt (fst (h_problem home))],
         El ''div'' []
           (map (\<lambda>(title, body). El ''Card'' [] [El ''CardHeader'' [] [El ''CardTitle'' [] [Txt title]],
              El ''CardContent'' [] [Txt body]]) (snd (h_problem home)))],
      El ''section'' []
        [El ''h2'' [] [Txt (fst (h_steps home))],
         El ''ol'' [] (map home_step (zip [0..<length (snd (h_steps home))] (snd (h_steps home))))],
      El ''section'' []
        [El ''h2'' [] [Txt (fst (h_agents home))],
         El ''div'' []
           (map (\<lambda>(name, body). El ''div'' [] [El ''h3'' [] [Txt name], El ''p'' [] [Txt body]]) (snd (h_agents home)))],
      (case h_closing home of (title, body, cta) \<Rightarrow>
        El ''section'' []
          [El ''div'' [] [El ''h2'' [] [Txt title], El ''p'' [] [Txt body], Link cta]])]"

section \<open>Product\<close>

definition product_section :: "feature \<Rightarrow> node" where
  "product_section f =
     El ''section'' [(''id'', AS (f_id f)), (''aria-labelledby'', AS (f_id f @ js ''-title''))]
       [El ''h2'' [(''id'', AS (f_id f @ js ''-title''))] [Txt (f_title f)], El ''p'' [] [Txt (f_body f)]]"

definition ProductPage :: "node list" where
  "ProductPage =
     [El ''div'' []
       [El ''h1'' [] [Txt (p_title product)],
        El ''p'' [] [Txt (p_lede product)],
        El ''div'' []
          (map product_section (p_features product) @
           [El ''section'' [(''id'', AS (f_id (p_console product))), (''aria-labelledby'', AS (js ''console-title''))]
              [El ''div'' []
                 [El ''h2'' [(''id'', AS (js ''console-title''))] [Txt (f_title (p_console product))],
                  El ''Badge'' [] [Txt (p_badge product)]],
               El ''p'' [] [Txt (f_body (p_console product))],
               Link (p_cta product)]])]]"

section \<open>Pricing\<close>

definition plan_href :: "plan_id \<Rightarrow> jstr" where
  "plan_href p = js ''/demo?plan='' @ plan_value p"

definition tier_card :: "tier \<Rightarrow> node" where
  "tier_card t =
     (let tid = js ''tier-'' @ plan_value (t_id t) in
      El ''article'' [(''aria-labelledby'', AS tid)]
        [El ''div'' []
           (El ''h2'' [(''id'', AS tid)] [Txt (t_name t)] #
            (case t_badge t of None \<Rightarrow> [] | Some b \<Rightarrow> if b = [] then [] else [El ''Badge'' [] [Txt b]])),
         El ''p'' [] [Txt (t_summary t)],
         El ''p'' [] [Txt (t_price t)],
         El ''ul'' [] (map (\<lambda>f. El ''li'' [] [El ''Check'' [] [], Txt f]) (t_features t)),
         Link \<lparr>l_href = plan_href (t_id t), l_label = t_cta t\<rparr>])"

definition comparison_row :: "jstr \<times> jstr list \<Rightarrow> node" where
  "comparison_row row =
     El ''TableRow'' []
       (El ''TableHead'' [(''scope'', AS (js ''row''))] [Txt (fst row)] #
        map (\<lambda>v. El ''TableCell'' [] [Txt v]) (snd row))"

definition PricingPage :: "node list" where
  "PricingPage =
     [El ''div'' []
       [JsonLd_script faqJsonLd,
        El ''h1'' [] [Txt (pr_title pricing)],
        El ''p'' [] [Txt (pr_lede pricing)],
        El ''div'' [] (map tier_card (pr_tiers pricing)),
        El ''section'' [(''aria-labelledby'', AS (js ''compare-title''))]
          [El ''h2'' [(''id'', AS (js ''compare-title''))] [Txt (js ''Compare plans'')],
           El ''div'' []
             [El ''Table'' []
               [El ''TableHeader'' []
                  [El ''TableRow'' []
                     (map (\<lambda>c. El ''TableHead'' [(''scope'', AS (js ''col''))] [Txt c]) (js ''Feature'' # pr_columns pricing))],
                El ''TableBody'' [] (map comparison_row (pr_rows pricing))]]],
        El ''section'' [(''aria-labelledby'', AS (js ''faq-title''))]
          [El ''h2'' [(''id'', AS (js ''faq-title''))] [Txt (js ''Frequently asked questions'')],
           El ''div'' []
             (map (\<lambda>(q, a). El ''details'' [] [El ''summary'' [] [Txt q], El ''p'' [] [Txt a]]) (pr_faq pricing))]]]"

section \<open>Not found\<close>

definition NotFound :: "node list" where
  "NotFound =
     [El ''section'' []
       [El ''p'' [] [Txt (js ''404'')], El ''h1'' [] [Txt (js ''Page not found'')],
        El ''p'' [] [Txt (js ''That page does not exist, or it moved.'')],
        Link \<lparr>l_href = js ''/'', l_label = js ''Back to home''\<rparr>]]"

section \<open>Documentation\<close>

text \<open>A link of the navigation; \<open>aria-current\<close> marks the page one is on.\<close>

definition nav_link :: "jstr \<Rightarrow> jstr \<times> jstr \<times> jstr \<Rightarrow> node" where
  "nav_link pathname p =
     (case p of (slug, title, href) \<Rightarrow>
        El ''li'' []
          [El ''Link''
             ((''href'', AS href) # (if pathname = href then [(''aria-current'', AS (js ''page''))] else []))
             [Txt title]])"

definition DocsNav_view :: "jstr \<Rightarrow> (section_id \<times> jstr \<times> (jstr \<times> jstr \<times> jstr) list) list \<Rightarrow> node" where
  "DocsNav_view pathname sections =
     El ''nav'' [(''aria-label'', AS (js ''Docs''))]
       [El ''details'' [(''open'', AB True)]
         [El ''summary'' [] [Txt (js ''Docs menu'')],
          El ''div'' []
            (map (\<lambda>(i, label, pages).
               El ''div'' [] [El ''h2'' [] [Txt label], El ''ul'' [] (map (nav_link pathname) pages)]) sections)]]"

definition DocsLayout :: "doc list \<Rightarrow> jstr \<Rightarrow> node list \<Rightarrow> node list" where
  "DocsLayout docs pathname children =
     [El ''div'' []
       [DocsNav_view pathname (nav_links docs),
        El ''div'' []
          (children @
           [El ''aside'' []
              [El ''p'' [] [El ''strong'' [] [Txt (js ''Bring your rules.'')], Txt (js '' See it against your own policy.'')],
               Link (demo_link ''Request a demo'')]])]]"

text \<open>The article of a page; the HTML of its body is put in as it is. \<^term>\<open>None\<close> is \<open>notFound()\<close>.\<close>

definition DocsPage :: "(jstr \<Rightarrow> jstr) \<Rightarrow> doc list \<Rightarrow> jstr list option \<Rightarrow> node list option" where
  "DocsPage renderMarkdown docs slug =
     map_option (\<lambda>d.
       [El ''article'' []
         [El ''h1'' [] [Txt (d_title d)], El ''p'' [] [Txt (d_description d)],
          El ''div'' [(''dangerouslySetInnerHTML'', AS (renderMarkdown (d_body d)))] []]])
       (find_page docs slug)"

section \<open>Preview images\<close>

text \<open>What \<^verbatim>\<open>web/lib/og.tsx\<close> draws (styles left out), and the image of each route with its alternative text.\<close>

record og_image =
  og_alt :: jstr
  og_view :: node

definition ogSize :: "nat \<times> nat" where
  "ogSize = (1200, 630)"

definition renderOg :: "jstr \<Rightarrow> jstr \<Rightarrow> node" where
  "renderOg title subtitle =
     El ''div'' []
       [El ''div'' [] [Txt (s_name site)],
        El ''div'' [] [El ''div'' [] [Txt title], El ''div'' [] [Txt subtitle]]]"

definition og_home :: og_image where
  "og_home = \<lparr>og_alt = js ''Agentic Warden '' @ em_dash @ js '' one policy for your coding agents'',
     og_view = renderOg (js ''One policy for your coding agents'')
       (js ''Claude Code '' @ mid_dot @ js '' Codex '' @ mid_dot @ js '' Antigravity CLI'')\<rparr>"

definition og_product :: og_image where
  "og_product = \<lparr>og_alt = js ''Agentic Warden product overview'',
     og_view = renderOg (js ''Govern coding agents like the rest of your fleet'')
       (js ''Targeting '' @ mid_dot @ js '' Signed bundles '' @ mid_dot @ js '' SCIM '' @ mid_dot @ js '' Sync'')\<rparr>"

definition og_pricing :: og_image where
  "og_pricing = \<lparr>og_alt = js ''Agentic Warden pricing'',
     og_view = renderOg (js ''Pricing'')
       (js ''Team '' @ mid_dot @ js '' Enterprise '' @ mid_dot @ js '' Self-hosted'')\<rparr>"

definition og_demo :: og_image where
  "og_demo = \<lparr>og_alt = js ''Request an Agentic Warden demo'',
     og_view = renderOg (js ''Request a demo'') (js ''See it against your own policy'')\<rparr>"

text \<open>The title an image draws is the heading of the page it stands for.\<close>

lemma og_titles:
  "\<exists>rest. og_view og_home = renderOg (h_title home) rest" "\<exists>rest. og_view og_product = renderOg (p_title product) rest"
  "\<exists>rest. og_view og_pricing = renderOg (pr_title pricing) rest"
  unfolding og_home_def og_product_def og_pricing_def home_def product_def pricing_def
  by (simp_all, (rule exI, rule refl)+)

section \<open>The links of a page\<close>

lemma hrefs_Link [simp]: "hrefs (Link l # v) = AS (l_href l) # hrefs v"
  by (simp add: Link_def)

lemma hrefs_map_Link: "hrefs (map Link ls) = map (\<lambda>l. AS (l_href l)) ls"
  by (induction ls) simp_all

lemma hrefs_none: "(\<And>x. x \<in> set xs \<Longrightarrow> hrefs [f x] = []) \<Longrightarrow> hrefs (map f xs) = []"
  by (simp add: hrefs_map)

lemma hrefs_single: "(\<And>x. hrefs [f x] = [AS (g x)]) \<Longrightarrow> hrefs (map f xs) = map (\<lambda>x. AS (g x)) xs"
  by (simp add: hrefs_map)

lemma hrefs_Cons2: "hrefs (n # m # v) = hrefs [n] @ hrefs (m # v)"
  using hrefs_simps(4) [of "[n]" "m # v"] by simp

lemma hrefs_frame [simp]:
  "hrefs [ThemeToggle] = []" "hrefs [JsonLd_script d] = []"
  "hrefs [SiteHeader] = map AS [js ''/'', js ''/product'', js ''/pricing'', js ''/docs'', js ''/docs'', js ''/demo'']"
  "hrefs [SiteFooter year] = map AS [js ''/product'', js ''/pricing'', js ''/docs'', s_githubUrl site, s_licenseUrl site]"
  by (simp_all add: ThemeToggle_def JsonLd_script_def SiteHeader_def SiteFooter_def hrefs_map_Link hrefs_Cons2
      docs_link_def demo_link_def site_def)

lemma hrefs_RootLayout:
  "hrefs (RootLayout env year content) =
     AS (js ''#main'') # hrefs [SiteHeader] @ hrefs content @ hrefs [SiteFooter year]"
  by (simp add: RootLayout_def hrefs_Cons2)

lemma hrefs_HomePage: "hrefs HomePage = map AS [js ''/demo'', js ''/product'', js ''/demo'']"
  by (simp add: HomePage_def Hero_def PolicySnippet_def hrefs_Cons2 hrefs_none terminal_line_def home_step_def
      split_def, simp add: home_def)

lemma hrefs_ProductPage: "hrefs ProductPage = [AS (js ''/demo?plan=team'')]"
  by (simp add: ProductPage_def hrefs_Cons2 hrefs_none product_section_def, simp add: product_def)

lemma hrefs_tier_card: "hrefs [tier_card t] = [AS (plan_href (t_id t))]"
  by (simp add: tier_card_def Let_def hrefs_none split: option.splits)

lemma hrefs_PricingPage: "hrefs PricingPage = map (\<lambda>t. AS (plan_href (t_id t))) (pr_tiers pricing)"
proof -
  have "hrefs (map tier_card ts) = map (\<lambda>t. AS (plan_href (t_id t))) ts" for ts
    by (rule hrefs_single) (rule hrefs_tier_card)
  moreover have "hrefs (map comparison_row rows) = []" for rows
    by (rule hrefs_none) (simp add: comparison_row_def hrefs_none)
  ultimately show ?thesis
    by (simp add: PricingPage_def hrefs_Cons2 hrefs_none split_def)
qed

lemma hrefs_NotFound: "hrefs NotFound = [AS (js ''/'')]"
  by (simp add: NotFound_def)

lemma href_opt_attrs [simp]:
  "map_of (field_attrs errors f) ''href'' = None" "map_of (opt_attr ''aria-describedby'' v) ''href'' = None"
  by (auto simp: field_attrs_def opt_attr_def split: option.splits)

lemma hrefs_ErrorText [simp]: "hrefs (ErrorText f errors) = []"
  by (simp add: ErrorText_def)

lemma hrefs_fields:
  "hrefs [text_field f l errors vs] = []" "hrefs [email_field errors vs w] = []" "hrefs [size_field errors vs] = []"
  "hrefs [choice_field k n l c os errors] = []" "hrefs [plan_field plan vs] = []" "hrefs [message_field errors vs] = []"
proof -
  have "hrefs (map (choice k n c) os) = []" for k n c os
    by (rule hrefs_none) (simp add: choice_def)
  then show "hrefs [text_field f l errors vs] = []" "hrefs [email_field errors vs w] = []" "hrefs [size_field errors vs] = []"
    "hrefs [choice_field k n l c os errors] = []" "hrefs [plan_field plan vs] = []" "hrefs [message_field errors vs] = []"
    by (simp_all add: text_field_def email_field_def size_field_def choice_field_def plan_field_def message_field_def
        hrefs_none split_def map_add_def)
qed

text \<open>The demo page has a link of its own only after a failure, to the inbox.\<close>

lemma hrefs_DemoPage:
  "hrefs [DemoPage q now state webmail pending] =
     (case state of Failed inbox vs \<Rightarrow> if truthy inbox then [AS (js ''mailto:'' @ the inbox)] else [] | _ \<Rightarrow> [])"
  by (cases state) (simp_all add: DemoPage_def DemoForm_def form_fields_def hrefs_Cons2 hrefs_fields)

lemma hrefs_nav_link: "hrefs [nav_link pathname p] = [AS (snd (snd p))]"
  by (cases p) (simp add: nav_link_def)

lemma hrefs_DocsLayout:
  "hrefs (DocsLayout docs pathname children) =
     map AS (concat (map (\<lambda>s. map (\<lambda>p. docHref (d_slug p)) (ns_pages s)) (navSections docs))) @ hrefs children @
     [AS (js ''/demo'')]"
proof -
  have links: "hrefs (map (nav_link pathname) ps) = map (\<lambda>p. AS (snd (snd p))) ps" for ps
    by (rule hrefs_single) (rule hrefs_nav_link)
  have sec: "hrefs [El ''div'' [] [El ''h2'' [] [Txt label], El ''ul'' [] (map (nav_link pathname) ps)]] =
      map (\<lambda>p. AS (snd (snd p))) ps" for label ps
    by (simp add: links)
  have "hrefs [DocsNav_view pathname ss] = concat (map (\<lambda>s. map (\<lambda>p. AS (snd (snd p))) (snd (snd s))) ss)" for ss
    by (simp add: DocsNav_view_def split_def hrefs_map [where xs = ss] sec del: hrefs_simps(3),
        simp add: hrefs_map [where xs = ss] links split_def)
  then have "hrefs [DocsNav_view pathname (nav_links docs)] =
      map AS (concat (map (\<lambda>s. map (\<lambda>p. docHref (d_slug p)) (ns_pages s)) (navSections docs)))"
    by (simp add: nav_links_def map_concat o_def)
  then show ?thesis
    by (simp add: DocsLayout_def hrefs_Cons2 demo_link_def)
qed


section \<open>Plan links\<close>

text \<open>A plan link fills in the plan: the pricing page links every plan to the demo page, and the demo page
  opened with a plan in its address, not yet touched, submits that plan; opened with anything else
  there, it submits none.\<close>

theorem plan_link_preselects:
  "(\<forall>p. AS (js ''/demo?plan='' @ plan_value p) \<in> set (hrefs PricingPage)) \<and>
   form_field (entries (DemoPage q now Idle webmail pending)) (js ''plan'') =
     (case q (js ''plan'') of
        Some (ZStr v) \<Rightarrow> if v \<in> set (map plan_value planIds) then v else []
      | _ \<Rightarrow> [])"
proof
  show "\<forall>p. AS (js ''/demo?plan='' @ plan_value p) \<in> set (hrefs PricingPage)"
  proof
    fix p show "AS (js ''/demo?plan='' @ plan_value p) \<in> set (hrefs PricingPage)"
      unfolding hrefs_PricingPage plan_href_def by (cases p) (simp_all add: pricing_def pricing_tiers_def)
  qed
next
  let ?plan = "parsePlan (q (js ''plan''))"
  define v where "v = value_str Map.empty (js ''plan'') (case ?plan of None \<Rightarrow> [] | Some p \<Rightarrow> plan_value p)"
  have v: "v = (case ?plan of None \<Rightarrow> [] | Some p \<Rightarrow> plan_value p)" by (simp add: v_def value_str_def)
  have "entries (DemoForm ?plan now Idle webmail pending) = rendered_entries now Map.empty v"
    by (rule entries_form) (auto simp: v_def value_str_def split: option.splits)
  then have "entries (DemoPage q now Idle webmail pending) = rendered_entries now Map.empty v"
    by (simp add: DemoPage_def)
  then have "form_field (entries (DemoPage q now Idle webmail pending)) (js ''plan'') = v"
    using form_field_rendered(6) [of Map.empty now v] by (simp add: value_str_def)
  also have "v = (case q (js ''plan'') of
        Some (ZStr v) \<Rightarrow> if v \<in> set (map plan_value planIds) then v else [] | _ \<Rightarrow> [])"
    unfolding v parsePlan_def
    by (auto simp: find_None_ball split: option.splits zval.splits dest: find_Some_mem)
  finally show "form_field (entries (DemoPage q now Idle webmail pending)) (js ''plan'') =
     (case q (js ''plan'') of
        Some (ZStr v) \<Rightarrow> if v \<in> set (map plan_value planIds) then v else [] | _ \<Rightarrow> [])" .
qed

end
