(* ===== verification/DocsRender.thy ===== *)
theory DocsRender
  imports DocsNav Unicode
begin

text \<open>
  \<^verbatim>\<open>web/lib/docs.ts\<close>, lines 85 to 124: what the site adds to the Markdown renderer. The parser
  \<^verbatim>\<open>marked\<close> is a third-party package; the functions here are the callbacks handed to it
  (\<open>walkTokens\<close>, the \<open>heading\<close> and \<open>code\<close> renderers), so their arguments are the values \<^verbatim>\<open>marked\<close>
  passes. The module-level map \<open>seen\<close> is explicit state. The Unicode tables behind
  \<open>toLowerCase\<close> and \<open>\p{L}\p{N}\<close> are parameters (\<open>lc\<close>, \<open>LN\<close>) of which only the ASCII part is used.
\<close>

section \<open>Escaping\<close>

definition escapeHtml :: "jstr \<Rightarrow> jstr" where
  "escapeHtml s =
     replace_unit 34 (js ''&quot;'')
       (replace_unit 62 (js ''&gt;'')
         (replace_unit 60 (js ''&lt;'')
           (replace_unit 38 (js ''&amp;'') s)))"

text \<open>One pass over the text, and the browser's reading of the four entities.\<close>

definition html_enc1 :: "nat \<Rightarrow> jstr" where
  "html_enc1 c =
     (if c = 38 then js ''&amp;'' else if c = 60 then js ''&lt;''
      else if c = 62 then js ''&gt;'' else if c = 34 then js ''&quot;'' else [c])"

fun html_dec1 :: "jstr \<Rightarrow> (nat \<times> jstr) option" where
  "html_dec1 [] = None"
| "html_dec1 (c # cs) =
     (if c \<noteq> 38 then Some (c, cs)
      else (case strip_prefix (js ''amp;'') cs of Some r \<Rightarrow> Some (38, r)
      | None \<Rightarrow> (case strip_prefix (js ''lt;'') cs of Some r \<Rightarrow> Some (60, r)
      | None \<Rightarrow> (case strip_prefix (js ''gt;'') cs of Some r \<Rightarrow> Some (62, r)
      | None \<Rightarrow> (case strip_prefix (js ''quot;'') cs of Some r \<Rightarrow> Some (34, r)
      | None \<Rightarrow> Some (38, cs))))))"

definition html_decode :: "jstr \<Rightarrow> jstr option" where
  "html_decode s = decode_all html_dec1 (length s) s"

lemma html_dec_enc: "html_dec1 (html_enc1 c @ r) = Some (c, r)"
  by (auto simp: html_enc1_def js_def)

interpretation html: symbol_code "\<lambda>_. True" html_enc1 html_dec1
  by unfold_locales (rule html_dec_enc, simp add: html_enc1_def)

lemma escapeHtml_single_pass: "escapeHtml s = concat (map html_enc1 s)"
proof (induction s)
  case (Cons c s)
  have "escapeHtml (c # s) = html_enc1 c @ escapeHtml s"
    by (auto simp: escapeHtml_def html_enc1_def js_def)
  with Cons show ?case by simp
qed (simp add: escapeHtml_def)

lemma html_enc1_chars: "c \<in> set (html_enc1 x) \<Longrightarrow> c \<notin> {34, 60, 62}"
  by (auto simp: html_enc1_def js_def split: if_splits)

text \<open>Escaped text decodes to the original text (the four replacements do not interfere with each
  other) and holds no character that could end an attribute or open a tag.\<close>

theorem escapeHtml_decodes:
  "html_decode (escapeHtml s) = Some s \<and> set (escapeHtml s) \<inter> {34, 60, 62} = {}"
proof
  show "html_decode (escapeHtml s) = Some s"
    unfolding html_decode_def escapeHtml_single_pass by (rule html.decode_encode) simp
  show "set (escapeHtml s) \<inter> {34, 60, 62} = {}"
    unfolding escapeHtml_single_pass using html_enc1_chars by auto
qed

section \<open>Links\<close>

definition slug_char :: "nat \<Rightarrow> bool" where
  "slug_char c \<longleftrightarrow> is_word c \<or> c = 45"

text \<open>\<open>/^\.\/([\w-]+)\.md(#.*)?$/\<close> and \<open>/^\.\.\/assets\/([^/#?]+)$/\<close>.\<close>

definition match_page :: "jstr \<Rightarrow> (jstr \<times> jstr) option" where
  "match_page href =
     (case strip_prefix (js ''./'') href of
        None \<Rightarrow> None
      | Some r \<Rightarrow>
          (let w = takeWhile slug_char r in
           if w = [] then None
           else (case strip_prefix (js ''.md'') (dropWhile slug_char r) of
                   None \<Rightarrow> None
                 | Some t \<Rightarrow> if t = [] \<or> (hd t = 35 \<and> (\<forall>c \<in> set (tl t). \<not> is_lt c))
                             then Some (w, t) else None)))"

definition match_asset :: "jstr \<Rightarrow> jstr option" where
  "match_asset href =
     (case strip_prefix (js ''../assets/'') href of
        None \<Rightarrow> None
      | Some a \<Rightarrow> if a \<noteq> [] \<and> (\<forall>c \<in> set a. c \<notin> {slash, 35, 63}) then Some a else None)"

definition rewriteHref :: "jstr \<Rightarrow> jstr" where
  "rewriteHref href =
     (case match_page href of
        Some (w, frag) \<Rightarrow> docHref w @ frag
      | None \<Rightarrow> (case match_asset href of
                   Some a \<Rightarrow> js ''/docs-assets/'' @ a
                 | None \<Rightarrow> href))"

datatype token = Link jstr | ImageTok jstr | Heading nat | OtherToken

fun walkToken :: "token \<Rightarrow> token" where
  "walkToken (Link href) = Link (rewriteHref href)"
| "walkToken (ImageTok href) = ImageTok (rewriteHref href)"
| "walkToken (Heading depth) = (if depth = 1 then Heading 2 else Heading depth)"
| "walkToken OtherToken = OtherToken"

lemma match_page_page:
  assumes "s \<noteq> []" "\<forall>c \<in> set s. slug_char c" "frag = [] \<or> (hd frag = 35 \<and> (\<forall>c \<in> set (tl frag). \<not> is_lt c))"
  shows "match_page (js ''./'' @ s @ js ''.md'' @ frag) = Some (s, frag)"
proof -
  have md: "js ''.md'' = 46 # js ''md''" by (simp add: js_def)
  have "\<not> slug_char 46" by (simp add: slug_char_def is_word_def is_digit_def)
  note sp = takeWhile_append_stop [OF assms(2) this, of "js ''md'' @ frag"]
  have "strip_prefix (js ''.md'') (46 # js ''md'' @ frag) = Some frag"
    by (simp add: md)
  with sp assms show ?thesis
    unfolding match_page_def md append_Cons by (simp add: md)
qed

lemma rooted_unchanged: "h = slash # r \<Longrightarrow> rewriteHref h = h"
  by (simp add: rewriteHref_def match_page_def match_asset_def js_def)

lemma docHref_rooted: "\<exists>r. docHref w @ x = slash # r" "\<exists>r. js ''/docs-assets/'' @ x = slash # r"
  by (simp_all add: docHref_eq js_def)

text \<open>The rewriting of links is idempotent, sends a GitHub-style page link to the address of that
  page with its fragment, and sends a link to an image to the route that serves it.\<close>

theorem rewriteHref_correct:
  "rewriteHref (rewriteHref h) = rewriteHref h \<and>
   (s \<noteq> [] \<and> list_all slug_char s \<longrightarrow>
      rewriteHref (js ''./'' @ s @ js ''.md'') = docHref s \<and>
      (list_all (\<lambda>c. \<not> is_lt c) f \<longrightarrow>
         rewriteHref (js ''./'' @ s @ js ''.md'' @ 35 # f) = docHref s @ 35 # f)) \<and>
   (assetPath cwd a \<noteq> None \<and> 35 \<notin> set a \<and> 63 \<notin> set a \<longrightarrow>
      rewriteHref (js ''../assets/'' @ a) = js ''/docs-assets/'' @ a)"
proof (intro conjI impI)
  show "rewriteHref (rewriteHref h) = rewriteHref h"
  proof (cases "match_page h = None \<and> match_asset h = None")
    case True
    then have "rewriteHref h = h" by (simp add: rewriteHref_def)
    then show ?thesis by simp
  next
    case False
    then obtain r where "rewriteHref h = slash # r"
      using docHref_rooted by (fastforce simp: rewriteHref_def split: option.splits)
    then show ?thesis by (simp add: rooted_unchanged)
  qed
next
  assume s: "s \<noteq> [] \<and> list_all slug_char s"
  then show "rewriteHref (js ''./'' @ s @ js ''.md'') = docHref s"
    using match_page_page [of s "[]"] by (simp add: rewriteHref_def list_all_iff)
  show "rewriteHref (js ''./'' @ s @ js ''.md'' @ 35 # f) = docHref s @ 35 # f"
    if "list_all (\<lambda>c. \<not> is_lt c) f"
    using s that match_page_page [of s "35 # f"] by (simp add: rewriteHref_def list_all_iff)
next
  assume a: "assetPath cwd a \<noteq> None \<and> 35 \<notin> set a \<and> 63 \<notin> set a"
  then have "clean_segment a" using assetPath_SomeD(1) by blast
  then have "a \<noteq> []" "slash \<notin> set a" by (auto dest: clean_segmentD)
  moreover have "match_page (js ''../assets/'' @ a) = None"
    by (simp add: match_page_def js_def)
  ultimately show "rewriteHref (js ''../assets/'' @ a) = js ''/docs-assets/'' @ a"
    using a by (auto simp: rewriteHref_def match_asset_def)
qed

theorem rewriteHref_correct_witness:
  "rewriteHref (js ''./'' @ js ''install'' @ js ''.md'' @ 35 # js ''linux'') = docHref (js ''install'') @ 35 # js ''linux''"
proof -
  have "list_all slug_char (js ''install'')" "list_all (\<lambda>c. \<not> is_lt c) (js ''linux'')"
    by (simp_all add: slug_char_def js_eval)
  moreover have "js ''install'' \<noteq> []" by (simp add: js_def)
  ultimately show ?thesis
    using rewriteHref_correct [of "[]" "js ''install''" "js ''linux''"] by blast
qed

section \<open>Headings\<close>

type_synonym seen = "jstr \<Rightarrow> nat option"

text \<open>The text of a heading from its inline tokens: \<open>text\<close> where a token has one, else \<open>raw\<close>.\<close>

definition heading_text :: "(jstr option \<times> jstr) list \<Rightarrow> jstr" where
  "heading_text tokens = concat (map (\<lambda>(t, raw). nullish t raw) tokens)"

definition keep_char :: "(nat \<Rightarrow> bool) \<Rightarrow> nat \<Rightarrow> bool" where
  "keep_char LN p \<longleftrightarrow> LN p \<or> p = 32 \<or> p = 95 \<or> p = 45"

definition heading_base :: "(jstr \<Rightarrow> jstr) \<Rightarrow> (nat \<Rightarrow> bool) \<Rightarrow> jstr \<Rightarrow> jstr" where
  "heading_base lc LN text =
     replace_unit 32 [45] (concat (map units_of (filter (keep_char LN) (code_points (lc text)))))"

definition mk_id :: "jstr \<Rightarrow> nat \<Rightarrow> jstr" where
  "mk_id base n = (if n \<noteq> 0 then base @ 45 # show_nat n else base)"

definition heading_id :: "seen \<Rightarrow> jstr \<Rightarrow> jstr \<times> seen" where
  "heading_id seen base =
     (let n = nullish (seen base) 0 in (mk_id base n, seen(base \<mapsto> n + 1)))"

definition tag :: "nat \<Rightarrow> jstr" where
  "tag depth = 104 # show_nat depth"

definition heading_html :: "(jstr \<Rightarrow> jstr) \<Rightarrow> (nat \<Rightarrow> bool) \<Rightarrow> seen \<Rightarrow> nat \<Rightarrow> (jstr option \<times> jstr) list \<Rightarrow> jstr \<Rightarrow>
    jstr \<times> seen" where
  "heading_html lc LN seen depth tokens inner =
     (if depth \<noteq> 2 \<and> depth \<noteq> 3
      then (js ''<'' @ tag depth @ js ''>'' @ inner @ js ''</'' @ tag depth @ js ''>'' @ [LF], seen)
      else
        (let (i, seen') = heading_id seen (heading_base lc LN (heading_text tokens)) in
         (js ''<'' @ tag depth @ js '' id='' @ [34] @ i @ [34] @ js ''>'' @ inner @
          js ''</'' @ tag depth @ js ''>'' @ [LF], seen')))"

text \<open>
  One call of \<open>renderMarkdown\<close>: the counters start empty, then the headings of the page are
  rendered in order. Only the ids matter here: \<open>page_heading_ids\<close> are those of the level 2 and 3
  headings of a page, given by their base texts.
\<close>

fun heading_ids :: "seen \<Rightarrow> jstr list \<Rightarrow> jstr list" where
  "heading_ids seen [] = []"
| "heading_ids seen (b # bs) = (let (i, seen') = heading_id seen b in i # heading_ids seen' bs)"

definition page_heading_ids :: "jstr list \<Rightarrow> jstr list" where
  "page_heading_ids bases = heading_ids Map.empty bases"

definition code_html :: "jstr \<Rightarrow> jstr option \<Rightarrow> jstr" where
  "code_html text lang =
     (let cls = (if truthy lang
                 then js '' class='' @ [34] @ js ''language-'' @ escapeHtml (the lang) @ [34] else []) in
      js ''<div class='' @ [34] @ js ''code-block'' @ [34] @ js ''><button type='' @ [34] @ js ''button'' @ [34] @
      js '' class='' @ [34] @ js ''copy-button'' @ [34] @ js '' aria-label='' @ [34] @ js ''Copy'' @ [34] @
      js ''>Copy</button><pre><code'' @ cls @ js ''>'' @ escapeHtml text @
      js ''</code></pre></div>'' @ [LF])"

subsection \<open>A page\<close>

text \<open>
  What \<^verbatim>\<open>marked\<close> makes of a text is the sequence of the pieces of HTML it puts out: those it renders
  itself, and those for which it calls the two renderers, in the order of the page (it renders the
  blocks inside a list or a quotation where they stand). \<open>walkTokens\<close> has seen every token before.
\<close>

datatype md_piece = RawHtml jstr | HeadingPiece nat "(jstr option \<times> jstr) list" jstr | CodePiece jstr "jstr option"

definition walked_depth :: "nat \<Rightarrow> nat" where
  "walked_depth depth = (if depth = 1 then 2 else depth)"

fun render_pieces :: "(jstr \<Rightarrow> jstr) \<Rightarrow> (nat \<Rightarrow> bool) \<Rightarrow> seen \<Rightarrow> md_piece list \<Rightarrow> jstr \<times> seen" where
  "render_pieces lc LN seen [] = ([], seen)"
| "render_pieces lc LN seen (RawHtml h # ps) =
     (let (r, seen') = render_pieces lc LN seen ps in (h @ r, seen'))"
| "render_pieces lc LN seen (HeadingPiece depth tokens inner # ps) =
     (let (h, seen1) = heading_html lc LN seen (walked_depth depth) tokens inner;
          (r, seen2) = render_pieces lc LN seen1 ps in (h @ r, seen2))"
| "render_pieces lc LN seen (CodePiece code lang # ps) =
     (let (r, seen') = render_pieces lc LN seen ps in (code_html code lang @ r, seen'))"

text \<open>The module variable \<open>seen\<close> is what the page before left in it; it is replaced before parsing.\<close>

definition renderMarkdown :: "(jstr \<Rightarrow> md_piece list) \<Rightarrow> (jstr \<Rightarrow> jstr) \<Rightarrow> (nat \<Rightarrow> bool) \<Rightarrow> seen \<Rightarrow> jstr \<Rightarrow> jstr \<times> seen" where
  "renderMarkdown marked lc LN seen body = render_pieces lc LN Map.empty (marked body)"

text \<open>The base texts of the headings that get an id, and the page with its ids filled in from a list.\<close>

fun heading_bases :: "(jstr \<Rightarrow> jstr) \<Rightarrow> (nat \<Rightarrow> bool) \<Rightarrow> md_piece list \<Rightarrow> jstr list" where
  "heading_bases lc LN [] = []"
| "heading_bases lc LN (HeadingPiece depth tokens inner # ps) =
     (if depth \<in> {1, 2, 3} then [heading_base lc LN (heading_text tokens)] else []) @ heading_bases lc LN ps"
| "heading_bases lc LN (p # ps) = heading_bases lc LN ps"

fun with_ids :: "md_piece list \<Rightarrow> jstr list \<Rightarrow> jstr" where
  "with_ids [] ids = []"
| "with_ids (RawHtml h # ps) ids = h @ with_ids ps ids"
| "with_ids (CodePiece code lang # ps) ids = code_html code lang @ with_ids ps ids"
| "with_ids (HeadingPiece depth tokens inner # ps) ids =
     (if depth \<in> {1, 2, 3}
      then js ''<'' @ tag (walked_depth depth) @ js '' id='' @ [34] @ hd ids @ [34] @ js ''>'' @ inner @
        js ''</'' @ tag (walked_depth depth) @ js ''>'' @ [LF] @ with_ids ps (tl ids)
      else js ''<'' @ tag depth @ js ''>'' @ inner @ js ''</'' @ tag depth @ js ''>'' @ [LF] @ with_ids ps ids)"

lemma render_pieces_ids:
  "fst (render_pieces lc LN seen ps) = with_ids ps (heading_ids seen (heading_bases lc LN ps))"
proof (induction ps arbitrary: seen)
  case (Cons p ps)
  then show ?case
  proof (cases p)
    case (HeadingPiece depth tokens inner)
    show ?thesis
    proof (cases "depth \<in> {1, 2, 3}")
      case True
      then have "walked_depth depth = 2 \<or> walked_depth depth = 3" by (auto simp: walked_depth_def)
      with True Cons HeadingPiece show ?thesis
        by (auto simp: heading_html_def heading_id_def Let_def split_def)
    next
      case False
      with Cons HeadingPiece show ?thesis
        by (simp add: heading_html_def walked_depth_def split_def)
    qed
  qed (simp_all add: split_def)
qed simp

subsection \<open>Uniqueness of heading ids\<close>

lemma mk_id_suffix_inject:
  assumes "b @ 45 # show_nat m = c @ 45 # show_nat n"
  shows "b = c \<and> m = n"
proof -
  have no: "\<not> is_digit 45" by (simp add: is_digit_def)
  have rev_d: "\<forall>x \<in> set (rev (show_nat k)). is_digit x" for k using show_nat_digits by simp
  from assms have "rev (show_nat m) @ 45 # rev b = rev (show_nat n) @ 45 # rev c"
    by (metis append.assoc append_Cons append_Nil rev.simps(2) rev_append)
  then have "rev (show_nat m) = rev (show_nat n)" "45 # rev b = 45 # rev c"
    by (metis takeWhile_append_stop [OF rev_d no])+
  then show ?thesis by simp
qed

definition no_numbered_base :: "jstr list \<Rightarrow> bool" where
  "no_numbered_base bs \<longleftrightarrow> (\<forall>a \<in> set bs. \<forall>b \<in> set bs. \<forall>n > 0. a \<noteq> b @ 45 # show_nat n)"

lemma mk_id_inject:
  assumes "no_numbered_base bs" "a \<in> set bs" "b \<in> set bs" "mk_id a m = mk_id b n"
  shows "a = b \<and> m = n"
  using assms mk_id_suffix_inject [of a m b n]
  by (auto simp: mk_id_def no_numbered_base_def split: if_splits)

lemma heading_ids_form:
  "i \<in> set (heading_ids seen bs) \<Longrightarrow> \<exists>b \<in> set bs. \<exists>k \<ge> nullish (seen b) 0. i = mk_id b k"
proof (induction bs arbitrary: seen)
  case (Cons b bs)
  consider "i = mk_id b (nullish (seen b) 0)"
    | "i \<in> set (heading_ids (seen(b \<mapsto> nullish (seen b) 0 + 1)) bs)"
    using Cons.prems by (auto simp: heading_id_def Let_def)
  then show ?case
  proof cases
    case 2
    from Cons.IH [OF this] show ?thesis by (auto split: if_splits) (metis Suc_leD)+
  qed auto
qed simp

lemma heading_ids_distinct_gen:
  "no_numbered_base cs \<Longrightarrow> set bs \<subseteq> set cs \<Longrightarrow> distinct (heading_ids seen bs)"
proof (induction bs arbitrary: seen)
  case (Cons b bs)
  let ?n = "nullish (seen b) 0"
  have "mk_id b ?n \<notin> set (heading_ids (seen(b \<mapsto> ?n + 1)) bs)"
  proof
    assume "mk_id b ?n \<in> set (heading_ids (seen(b \<mapsto> ?n + 1)) bs)"
    then obtain c k where c: "c \<in> set bs" "k \<ge> nullish ((seen(b \<mapsto> ?n + 1)) c) 0" "mk_id b ?n = mk_id c k"
      using heading_ids_form by blast
    with Cons.prems mk_id_inject [of cs b c ?n k] have "b = c \<and> ?n = k" by auto
    with c(2) show False by (metis Suc_eq_plus1 fun_upd_same not_less_eq_eq nullish_simps(2) order_refl)
  qed
  with Cons show ?case by (simp add: heading_id_def Let_def)
qed simp

lemma page_heading_ids_distinct: "no_numbered_base bases \<Longrightarrow> distinct (page_heading_ids bases)"
  unfolding page_heading_ids_def by (rule heading_ids_distinct_gen) auto

lemma length_heading_ids: "length (heading_ids seen bs) = length bs"
  by (induction bs arbitrary: seen) (simp_all add: heading_id_def Let_def)

text \<open>C38. A rendered page has one id per heading of the first three levels, in order, and they are
  pairwise different as long as no heading text is another one followed by a dash and a number;
  what was rendered before has no influence on the page.\<close>

theorem page_anchors_distinct:
  assumes "no_numbered_base (heading_bases lc LN (marked body))"
  shows "\<exists>ids. fst (renderMarkdown marked lc LN seen body) = with_ids (marked body) ids \<and>
    length ids = length (heading_bases lc LN (marked body)) \<and> distinct ids \<and>
    (\<forall>seen'. renderMarkdown marked lc LN seen' body = renderMarkdown marked lc LN seen body)"
  using page_heading_ids_distinct [OF assms]
  by (intro exI [of _ "page_heading_ids (heading_bases lc LN (marked body))"])
    (simp add: renderMarkdown_def render_pieces_ids page_heading_ids_def length_heading_ids)

definition ascii_letter :: "nat \<Rightarrow> bool" where
  "ascii_letter c \<longleftrightarrow> 97 \<le> c \<and> c \<le> 122"

definition sample_pieces :: "jstr \<Rightarrow> md_piece list" where
  "sample_pieces body =
     [HeadingPiece 1 [(Some [97], [97])] [97], RawHtml body, HeadingPiece 2 [(Some [97], [97])] [97], CodePiece body None]"

theorem page_anchors_distinct_witness:
  "\<exists>ids. fst (renderMarkdown sample_pieces id ascii_letter Map.empty [112]) = with_ids (sample_pieces [112]) ids \<and>
     length ids = 2 \<and> distinct ids"
proof -
  have "heading_bases id ascii_letter (sample_pieces [112]) = [[97], [97]]"
    by (simp add: sample_pieces_def heading_text_def heading_base_def keep_char_def ascii_letter_def units_of_def)
  moreover from this have "no_numbered_base (heading_bases id ascii_letter (sample_pieces [112]))"
    by (simp add: no_numbered_base_def)
  ultimately show ?thesis using page_anchors_distinct [of id ascii_letter sample_pieces "[112]" Map.empty] by auto
qed

text \<open>Without that condition ids repeat: two headings "A" and one "A 1" give the second "A" and
  "A 1" the same id, because the counter of a suffixed id is not itself recorded as seen.\<close>

theorem page_heading_ids_collide:
  "page_heading_ids [js ''a'', js ''a'', js ''a-1''] = [js ''a'', js ''a-1'', js ''a-1'']"
  by (simp add: page_heading_ids_def heading_id_def mk_id_def Let_def js_def show_nat.simps)

subsection \<open>Heading ids as attribute values\<close>

definition ascii_alnum :: "nat \<Rightarrow> bool" where
  "ascii_alnum c \<longleftrightarrow> is_word c \<and> c \<noteq> 95"

text \<open>The ASCII rows of the Unicode tables behind \<open>\p{L}\<close> and \<open>\p{N}\<close>.\<close>

definition letter_number_table :: "(nat \<Rightarrow> bool) \<Rightarrow> bool" where
  "letter_number_table LN \<longleftrightarrow> (\<forall>c < 128. LN c = ascii_alnum c)"

lemma units_of_big: "c \<in> set (units_of p) \<Longrightarrow> c = p \<and> p < 65536 \<or> 55296 \<le> c"
  by (auto simp: units_of_def split: if_splits)

text \<open>Whatever a heading says, the id made from it has no quote, angle bracket, ampersand or space
  in it, so it cannot leave the attribute it is written into.\<close>

theorem heading_id_safe:
  assumes "letter_number_table LN"
  shows "set (mk_id (heading_base lc LN text) n) \<inter> {32, 34, 38, 39, 60, 62} = {}"
proof -
  have base: "c \<notin> {32, 34, 38, 39, 60, 62}" if "c \<in> set (heading_base lc LN text)" for c
  proof -
    from that obtain p where p: "keep_char LN p" "c \<in> set (units_of p) \<and> c \<noteq> 32 \<or> c = 45"
      by (auto simp: heading_base_def replace_unit_def split: if_splits)
    show ?thesis
    proof (cases "c = p")
      case True
      with p assms show ?thesis
        by (cases "p < 128")
          (auto simp: keep_char_def letter_number_table_def ascii_alnum_def is_word_def is_digit_def)
    next
      case False
      with p(2) units_of_big [of c p] show ?thesis by auto
    qed
  qed
  have "c \<notin> {32, 34, 38, 39, 60, 62}" if "c \<in> set (show_nat n)" for c
    using that show_nat_digits [of n] by (auto simp: is_digit_def)
  with base show ?thesis by (auto simp: mk_id_def)
qed

theorem heading_id_safe_witness:
  "set (mk_id (heading_base (\<lambda>s. s) ascii_alnum (js ''A & b'')) 1) \<inter> {32, 34, 38, 39, 60, 62} = {}"
  by (rule heading_id_safe) (simp add: letter_number_table_def)

end
