(* ===== verification/Transitions.thy ===== *)
theory Transitions
  imports Main
begin

text \<open>
  Step relations: the interactive parts of the console are state machines whose steps are the
  operator's actions and the answers of the control plane, in any order. \<open>trace\<close> is a run of such
  a machine, and \<open>invariant_machine\<close> the contract by which an invariant holds in every state a run
  reaches.
\<close>

inductive trace :: "('s \<Rightarrow> 'e \<Rightarrow> 's \<Rightarrow> bool) \<Rightarrow> 's \<Rightarrow> 'e list \<Rightarrow> 's \<Rightarrow> bool" for step where
  trace_Nil: "trace step s [] s"
| trace_Cons: "step s e t \<Longrightarrow> trace step t es u \<Longrightarrow> trace step s (e # es) u"

inductive_simps trace_Nil_iff [simp]: "trace step s [] t"
inductive_simps trace_Cons_iff: "trace step s (e # es) u"

lemma trace_append:
  "trace step s (es @ fs) u \<longleftrightarrow> (\<exists>t. trace step s es t \<and> trace step t fs u)"
  by (induction es arbitrary: s) (auto simp: trace_Cons_iff)

lemma trace_snoc: "trace step s (es @ [e]) u \<longleftrightarrow> (\<exists>t. trace step s es t \<and> step t e u)"
  by (simp add: trace_append trace_Cons_iff)

locale invariant_machine =
  fixes init :: "'s \<Rightarrow> bool"
    and step :: "'s \<Rightarrow> 'e \<Rightarrow> 's \<Rightarrow> bool"
    and inv :: "'s \<Rightarrow> bool"
  assumes init_inv: "init s \<Longrightarrow> inv s"
    and step_inv: "inv s \<Longrightarrow> step s e t \<Longrightarrow> inv t"
begin

lemma trace_inv: "trace step s es t \<Longrightarrow> inv s \<Longrightarrow> inv t"
  by (induction rule: trace.induct) (auto intro: step_inv)

lemma reachable_inv: "init s \<Longrightarrow> trace step s es t \<Longrightarrow> inv t"
  using init_inv trace_inv by blast

lemma every_step:
  "init s \<Longrightarrow> trace step s (es @ e # fs) u \<Longrightarrow> \<exists>t t'. inv t \<and> step t e t' \<and> trace step t' fs u"
  by (auto simp: trace_append trace_Cons_iff intro: reachable_inv)

end

text \<open>
  A machine whose steps lower a measure, except that some events refill it: it cannot run for longer
  than the measure and what was refilled. Without refills it comes to rest.
\<close>

locale refilled_machine =
  fixes step :: "'s \<Rightarrow> 'e \<Rightarrow> 's \<Rightarrow> bool"
    and weight :: "'s \<Rightarrow> nat"
    and refill :: "'e \<Rightarrow> nat"
  assumes step_spends: "step s e t \<Longrightarrow> weight t < weight s + refill e"
begin

lemma trace_spends: "trace step s es t \<Longrightarrow> length es + weight t \<le> weight s + sum_list (map refill es)"
proof (induction rule: trace.induct)
  case (trace_Cons s e t es u)
  then show ?case using step_spends [of s e t] by simp
qed simp

end

locale terminating_machine =
  fixes step :: "'s \<Rightarrow> 'e \<Rightarrow> 's \<Rightarrow> bool"
    and weight :: "'s \<Rightarrow> nat"
  assumes step_lowers: "step s e t \<Longrightarrow> weight t < weight s"

sublocale terminating_machine \<subseteq> spending: refilled_machine step weight "\<lambda>e. 0"
  by unfold_locales (simp add: step_lowers)

context terminating_machine
begin

lemma trace_bounded: "trace step s es t \<Longrightarrow> length es + weight t \<le> weight s"
  using spending.trace_spends [of s es t] by simp

end

section \<open>Machines given by a guard and a function\<close>

text \<open>An event is possible when its guard holds; the next state is computed.\<close>

definition guarded :: "('e \<Rightarrow> 's \<Rightarrow> bool) \<Rightarrow> ('e \<Rightarrow> 's \<Rightarrow> 's) \<Rightarrow> 's \<Rightarrow> 'e \<Rightarrow> 's \<Rightarrow> bool" where
  "guarded can next s e t \<longleftrightarrow> can e s \<and> t = next e s"

fun possible :: "('e \<Rightarrow> 's \<Rightarrow> bool) \<Rightarrow> ('e \<Rightarrow> 's \<Rightarrow> 's) \<Rightarrow> 'e list \<Rightarrow> 's \<Rightarrow> bool" where
  "possible can next [] s \<longleftrightarrow> True"
| "possible can next (e # es) s \<longleftrightarrow> can e s \<and> possible can next es (next e s)"

lemma trace_guarded:
  "trace (guarded can next) s es t \<longleftrightarrow> possible can next es s \<and> t = fold next es s"
  by (induction es arbitrary: s) (auto simp: trace_Cons_iff guarded_def)

text \<open>What an observer of a run writes down, who sees each event and the state before it.\<close>

fun watch :: "('s \<Rightarrow> 'e \<Rightarrow> 'a list) \<Rightarrow> ('e \<Rightarrow> 's \<Rightarrow> 's) \<Rightarrow> 's \<Rightarrow> 'e list \<Rightarrow> 'a list" where
  "watch observe next s [] = []"
| "watch observe next s (e # es) = observe s e @ watch observe next (next e s) es"

section \<open>One request at a time\<close>

text \<open>
  A button that sends a request is disabled while one is under way: starting requires an idle
  machine and makes it busy, and only an answer makes it idle again.
\<close>

locale single_flight =
  fixes step :: "'s \<Rightarrow> 'e \<Rightarrow> 's \<Rightarrow> bool"
    and busy :: "'s \<Rightarrow> bool"
    and starts :: "'e \<Rightarrow> bool"
    and answers :: "'e \<Rightarrow> bool"
  assumes start_idle: "step s e t \<Longrightarrow> starts e \<Longrightarrow> \<not> busy s"
    and start_busy: "step s e t \<Longrightarrow> starts e \<Longrightarrow> busy t"
    and stays_busy: "step s e t \<Longrightarrow> busy s \<Longrightarrow> \<not> answers e \<Longrightarrow> busy t"
begin

lemma busy_until_answer: "trace step s es t \<Longrightarrow> busy s \<Longrightarrow> \<forall>e \<in> set es. \<not> answers e \<Longrightarrow> busy t"
  by (induction rule: trace.induct) (auto intro: stays_busy)

lemma no_overlap:
  assumes "trace step s (e # es @ [f]) u" "starts e" "starts f"
  shows "\<exists>g \<in> set es. answers g"
proof (rule ccontr)
  assume no: "\<not> (\<exists>g \<in> set es. answers g)"
  obtain t v where t: "step s e t" "trace step t es v" "step v f u"
    using assms(1) by (auto simp: trace_Cons_iff trace_snoc)
  from busy_until_answer [OF t(2) start_busy [OF t(1) assms(2)]] no have "busy v" by blast
  with start_idle [OF t(3) assms(3)] show False by contradiction
qed

end

end
