(* ===== verification/DocsWidgets.thy ===== *)
theory DocsWidgets
  imports SitePages DocsRender Transitions
begin

text \<open>
  The two client components of the documentation: \<^verbatim>\<open>web/components/docs-copy.tsx\<close>, the click handler
  behind the copy buttons of code blocks, and the menu of \<^verbatim>\<open>web/components/docs-nav.tsx\<close>. Both are
  state machines over what the browser does; a code block is the HTML the renderer of
  \<^verbatim>\<open>web/lib/docs.ts\<close> writes for it, read back the way a browser reads it.
\<close>

section \<open>The text of a code block\<close>

text \<open>
  HTML as the renderer writes it (no comments, no angle bracket inside an attribute) is a sequence
  of tags and pieces of text.
\<close>

datatype html_piece = Tag jstr | Piece jstr

function html_pieces :: "jstr \<Rightarrow> html_piece list" where
  "html_pieces [] = []"
| "html_pieces (c # s) =
     (if c = 60 then Tag (takeWhile (\<lambda>x. x \<noteq> 62) s) # html_pieces (drop 1 (dropWhile (\<lambda>x. x \<noteq> 62) s))
      else Piece (takeWhile (\<lambda>x. x \<noteq> 60) (c # s)) # html_pieces (dropWhile (\<lambda>x. x \<noteq> 60) (c # s)))"
  by pat_completeness auto

termination html_pieces
proof (relation "measure length")
  show "(drop 1 (dropWhile (\<lambda>x. x \<noteq> 62) s), c # s) \<in> measure length" for c :: nat and s
    using length_dropWhile_le [of "\<lambda>x. x \<noteq> 62" s] by simp
  show "(dropWhile (\<lambda>x. x \<noteq> 60) (c # s), c # s) \<in> measure length" if "c \<noteq> 60" for c :: nat and s
    using that length_dropWhile_le [of "\<lambda>x. x \<noteq> 60" s] by simp
qed simp

fun piece_text :: "html_piece \<Rightarrow> jstr" where
  "piece_text (Tag t) = []"
| "piece_text (Piece s) = nullish (html_decode s) []"

text \<open>The \<open>textContent\<close> of the first \<open>pre\<close>, if there is one.\<close>

definition pre_text :: "jstr \<Rightarrow> jstr option" where
  "pre_text html =
     (case dropWhile (\<lambda>p. p \<noteq> Tag (js ''pre'')) (html_pieces html) of
        [] \<Rightarrow> None
      | p # ps \<Rightarrow> Some (concat (map piece_text (takeWhile (\<lambda>p. p \<noteq> Tag (js ''/pre'')) ps))))"

lemma html_pieces_tag: "62 \<notin> set t \<Longrightarrow> html_pieces (60 # t @ 62 # s) = Tag t # html_pieces s"
proof -
  assume "62 \<notin> set t"
  then have "\<forall>x \<in> set t. x \<noteq> 62" by auto
  from takeWhile_append_stop [OF this, of 62 s] show ?thesis by simp
qed

lemma html_pieces_text:
  assumes "60 \<notin> set t"
  shows "html_pieces (t @ 60 # s) = (if t = [] then [] else [Piece t]) @ html_pieces (60 # s)"
proof (cases t)
  case (Cons c u)
  from assms Cons have "\<forall>x \<in> set u. x \<noteq> 60" by auto
  from takeWhile_append_stop [OF this, of 60 s] Cons assms show ?thesis
    by (simp add: html_pieces.simps(2) [of c] del: html_pieces.simps)
qed simp

text \<open>The part of a block before its \<open>code\<close> element and the attribute of that element.\<close>

definition block_head :: jstr where
  "block_head =
     js ''<div class='' @ [34] @ js ''code-block'' @ [34] @ js ''><button type='' @ [34] @ js ''button'' @ [34] @
     js '' class='' @ [34] @ js ''copy-button'' @ [34] @ js '' aria-label='' @ [34] @ js ''Copy'' @ [34] @
     js ''>Copy</button><pre>''"

definition language_class :: "jstr option \<Rightarrow> jstr" where
  "language_class lang =
     (if truthy lang then js '' class='' @ [34] @ js ''language-'' @ escapeHtml (the lang) @ [34] else [])"

lemma code_html_parts:
  "code_html t lang =
     block_head @ 60 # (js ''code'' @ language_class lang) @ 62 # escapeHtml t @ 60 # js ''/code></pre></div>'' @ [LF]"
  by (simp add: code_html_def block_head_def language_class_def Let_def js_def)

lemma block_head_pieces:
  "\<exists>ps. html_pieces (block_head @ s) = ps @ Tag (js ''pre'') # html_pieces s \<and> Tag (js ''pre'') \<notin> set ps"
  unfolding block_head_def
  by (rule exI [of _ "[Tag (js ''div class='' @ [34] @ js ''code-block'' @ [34]),
      Tag (js ''button type='' @ [34] @ js ''button'' @ [34] @ js '' class='' @ [34] @ js ''copy-button'' @ [34] @
        js '' aria-label='' @ [34] @ js ''Copy'' @ [34]),
      Piece (js ''Copy''), Tag (js ''/button'')]"]) (simp add: js_def)

lemma escapeHtml_no_angle: "62 \<notin> set (escapeHtml s)" "60 \<notin> set (escapeHtml s)"
  unfolding escapeHtml_single_pass using html_enc1_chars by auto

lemma escapeHtml_Nil: "escapeHtml s = [] \<longleftrightarrow> s = []"
  unfolding escapeHtml_single_pass by (cases s) (auto simp: html_enc1_def js_def)

lemma html_decode_escape: "html_decode (escapeHtml s) = Some s"
  unfolding html_decode_def escapeHtml_single_pass by (rule html.decode_encode) simp

lemma pre_text_code_html: "pre_text (code_html t lang) = Some t"
proof -
  have cls: "62 \<notin> set (js ''code'' @ language_class lang)"
    by (simp add: language_class_def escapeHtml_no_angle) (simp add: js_def)
  obtain ps where ps: "html_pieces (code_html t lang) = ps @ Tag (js ''pre'') # Tag (js ''code'' @ language_class lang) #
      (if t = [] then [] else [Piece (escapeHtml t)]) @ html_pieces (60 # js ''/code></pre></div>'' @ [LF])"
    "Tag (js ''pre'') \<notin> set ps"
    using block_head_pieces [of "60 # (js ''code'' @ language_class lang) @ 62 # escapeHtml t @ 60 # js ''/code></pre></div>'' @ [LF]"]
    unfolding code_html_parts html_pieces_tag [OF cls] html_pieces_text [OF escapeHtml_no_angle(2)] escapeHtml_Nil
    by blast
  have rest: "html_pieces (60 # js ''/code></pre></div>'' @ [LF]) =
      [Tag (js ''/code''), Tag (js ''/pre''), Tag (js ''/div''), Piece [LF]]"
    by (simp add: js_def)
  have "\<forall>p \<in> set ps. p \<noteq> Tag (js ''pre'')" using ps(2) by auto
  moreover have "js ''code'' @ language_class lang \<noteq> js ''/pre''" "js ''/code'' \<noteq> js ''/pre''" by (simp_all add: js_def)
  ultimately show ?thesis
    by (simp add: pre_text_def ps(1) rest takeWhile_append_stop html_decode_escape del: html_pieces.simps)
qed

section \<open>The copy buttons\<close>

text \<open>
  \<open>code.replace(/\n$/, "")\<close>: what a click writes to the clipboard, for the text of the \<open>pre\<close> beside
  the button; \<^term>\<open>None\<close> when there is none.
\<close>

definition copied_text :: "jstr option \<Rightarrow> jstr option" where
  "copied_text code =
     map_option (\<lambda>c. if c \<noteq> [] \<and> last c = LF then butlast c else c) code"

text \<open>
  The documentation with its handler: the labels of the buttons (numbered), the clipboard writes
  under way with the button each is for, the timers set, oldest first (all run for the same time, so
  they fire in that order), and the clipboard.
\<close>

record copy_state =
  cp_listening :: bool
  cp_labels :: "nat \<Rightarrow> jstr"
  cp_writes :: "(nat \<times> jstr) list"
  cp_timers :: "nat list"
  cp_clipboard :: "jstr option"

definition copy_init :: "jstr option \<Rightarrow> copy_state" where
  "copy_init clip =
     \<lparr>cp_listening = True, cp_labels = (\<lambda>b. js ''Copy''), cp_writes = [], cp_timers = [], cp_clipboard = clip\<rparr>"

text \<open>A page is the list of its code blocks, each with its text and language, as \<^verbatim>\<open>marked\<close> passes them.\<close>

type_synonym code_blocks = "(jstr \<times> jstr option) list"

definition block_code :: "code_blocks \<Rightarrow> nat \<Rightarrow> jstr option" where
  "block_code blocks b = (if b < length blocks then pre_text (code_html (fst (blocks ! b)) (snd (blocks ! b))) else None)"

text \<open>\<open>ClickAt\<close> has the nearest copy button around the place clicked, if there is one.\<close>

datatype copy_event =
    ClickAt "nat option"
  | WriteDone nat jstr
  | WriteRefused nat jstr
  | TimerFires
  | LeaveDocs

definition onClick :: "code_blocks \<Rightarrow> nat option \<Rightarrow> copy_state \<Rightarrow> copy_state" where
  "onClick blocks target s =
     (case target of
        None \<Rightarrow> s
      | Some b \<Rightarrow> (case copied_text (block_code blocks b) of
          None \<Rightarrow> s
        | Some v \<Rightarrow> s\<lparr>cp_writes := cp_writes s @ [(b, v)]\<rparr>))"

fun copy_can :: "copy_event \<Rightarrow> copy_state \<Rightarrow> bool" where
  "copy_can (ClickAt target) s \<longleftrightarrow> True"
| "copy_can (WriteDone b v) s \<longleftrightarrow> (b, v) \<in> set (cp_writes s)"
| "copy_can (WriteRefused b v) s \<longleftrightarrow> (b, v) \<in> set (cp_writes s)"
| "copy_can TimerFires s \<longleftrightarrow> cp_timers s \<noteq> []"
| "copy_can LeaveDocs s \<longleftrightarrow> cp_listening s"

fun copy_next :: "code_blocks \<Rightarrow> copy_event \<Rightarrow> copy_state \<Rightarrow> copy_state" where
  "copy_next blocks (ClickAt target) s = (if cp_listening s then onClick blocks target s else s)"
| "copy_next blocks (WriteDone b v) s =
     s\<lparr>cp_writes := remove1 (b, v) (cp_writes s), cp_clipboard := Some v,
       cp_labels := (cp_labels s)(b := js ''Copied''), cp_timers := cp_timers s @ [b]\<rparr>"
| "copy_next blocks (WriteRefused b v) s = s\<lparr>cp_writes := remove1 (b, v) (cp_writes s)\<rparr>"
| "copy_next blocks TimerFires s =
     s\<lparr>cp_timers := tl (cp_timers s), cp_labels := (cp_labels s)(hd (cp_timers s) := js ''Copy'')\<rparr>"
| "copy_next blocks LeaveDocs s = s\<lparr>cp_listening := False\<rparr>"

abbreviation copy_step where
  "copy_step blocks \<equiv> guarded copy_can (copy_next blocks)"

text \<open>The text of a block, with its final newline or without: what copying it gives.\<close>

definition copies_block :: "code_blocks \<Rightarrow> nat \<Rightarrow> jstr \<Rightarrow> bool" where
  "copies_block blocks b v \<longleftrightarrow>
     b < length blocks \<and> (fst (blocks ! b) = v @ [LF] \<or> fst (blocks ! b) = v \<and> \<not> ends_with [LF] v)"

lemma copied_block: "copied_text (block_code blocks b) = Some v \<longleftrightarrow> copies_block blocks b v"
  by (cases "fst (blocks ! b)" rule: rev_cases)
    (auto simp: copied_text_def block_code_def pre_text_code_html copies_block_def ends_with_iff)

definition copy_inv :: "jstr option \<Rightarrow> code_blocks \<Rightarrow> copy_state \<Rightarrow> bool" where
  "copy_inv clip blocks s \<longleftrightarrow>
     (\<forall>b. cp_labels s b = js ''Copy'' \<or> cp_labels s b = js ''Copied'' \<and> b \<in> set (cp_timers s)) \<and>
     (\<forall>(b, v) \<in> set (cp_writes s). copies_block blocks b v) \<and>
     (cp_clipboard s = clip \<or> (\<exists>b v. cp_clipboard s = Some v \<and> copies_block blocks b v))"

interpretation copying: invariant_machine "\<lambda>s. s = copy_init clip" "copy_step blocks" "copy_inv clip blocks"
  for clip blocks
proof unfold_locales
  fix s e t assume i: "copy_inv clip blocks s" and st: "copy_step blocks s e t"
  show "copy_inv clip blocks t"
  proof (cases e)
    case (ClickAt target)
    with i st show ?thesis
      by (auto simp: guarded_def copy_inv_def onClick_def copied_block split: option.splits)
  next
    case (WriteDone b v)
    with i st show ?thesis
      by (auto simp: guarded_def copy_inv_def dest!: set_remove1_subset [THEN subsetD])
  next
    case (WriteRefused b v)
    with i st show ?thesis
      by (auto simp: guarded_def copy_inv_def dest!: set_remove1_subset [THEN subsetD])
  next
    case TimerFires
    with st obtain b bs where "cp_timers s = b # bs" by (cases "cp_timers s") (auto simp: guarded_def)
    with TimerFires i st show ?thesis by (auto simp: guarded_def copy_inv_def)
  qed (use i st in \<open>auto simp: guarded_def copy_inv_def\<close>)
qed (simp add: copy_inv_def copy_init_def)

text \<open>What the browser does once nobody clicks any more.\<close>

definition settles :: "copy_event \<Rightarrow> bool" where
  "settles e \<longleftrightarrow> (case e of WriteDone b v \<Rightarrow> True | WriteRefused b v \<Rightarrow> True | TimerFires \<Rightarrow> True | _ \<Rightarrow> False)"

definition settle_step :: "code_blocks \<Rightarrow> copy_state \<Rightarrow> copy_event \<Rightarrow> copy_state \<Rightarrow> bool" where
  "settle_step blocks s e t \<longleftrightarrow> copy_step blocks s e t \<and> settles e"

definition unsettled :: "copy_state \<Rightarrow> nat" where
  "unsettled s = 2 * length (cp_writes s) + length (cp_timers s)"

lemma length_remove1_less: "x \<in> set xs \<Longrightarrow> Suc (length (remove1 x xs)) = length xs"
  by (induction xs) auto

interpretation settling: terminating_machine "settle_step blocks" unsettled for blocks
proof unfold_locales
  fix s e t assume "settle_step blocks s e t"
  then show "unsettled t < unsettled s"
    by (cases e) (auto simp: settle_step_def settles_def guarded_def unsettled_def dest: length_remove1_less)
qed

lemma settled_quiet:
  assumes "\<forall>e t. \<not> settle_step blocks s e t"
  shows "cp_writes s = []" and "cp_timers s = []"
proof -
  have "\<not> copy_can e s" if "settles e" for e
    using assms that by (auto simp: settle_step_def guarded_def)
  from this [of "WriteDone b v" for b v] this [of TimerFires]
  have no: "\<not> copy_can (WriteDone b v) s" "\<not> copy_can TimerFires s" for b v
    by (simp_all add: settles_def)
  then show "cp_timers s = []" by simp
  show "cp_writes s = []" using no(1) by (cases "cp_writes s") auto
qed

lemma settle_trace: "trace (settle_step blocks) s es t \<Longrightarrow> trace (copy_step blocks) s es t"
  by (induction rule: trace.induct) (auto simp: settle_step_def intro: trace.intros)

text \<open>Copying a code block gives the code: whatever is clicked in whatever order, the clipboard
  holds what it held before or exactly the text of a block of the page, as the renderer was given it
  (less a final newline), read back from the escaped HTML the renderer wrote. A click on the button
  of a block starts that write and no other, a finished write shows Copied on that button, and once
  nobody clicks, after at most two browser events per write and one per timer every button says
  Copy again.\<close>

theorem copy_gives_the_code:
  assumes "trace (copy_step blocks) (copy_init clip) es s"
  shows "(cp_clipboard s = clip \<or> (\<exists>b v. cp_clipboard s = Some v \<and> copies_block blocks b v)) \<and>
    (cp_listening s \<and> b < length blocks \<longrightarrow>
       (\<exists>v. copies_block blocks b v \<and>
          copy_step blocks s (ClickAt (Some b)) (s\<lparr>cp_writes := cp_writes s @ [(b, v)]\<rparr>))) \<and>
    (copy_step blocks s (WriteDone b v) t \<longrightarrow>
       copies_block blocks b v \<and> cp_clipboard t = Some v \<and> cp_labels t b = js ''Copied'') \<and>
    (trace (settle_step blocks) s fs u \<longrightarrow>
       length fs \<le> 2 * length (cp_writes s) + length (cp_timers s) \<and>
       ((\<forall>e u'. \<not> settle_step blocks u e u') \<longrightarrow> cp_labels u = (\<lambda>b. js ''Copy'')))"
proof (intro conjI impI)
  have i: "copy_inv clip blocks s" by (rule copying.reachable_inv [OF refl assms])
  then show "cp_clipboard s = clip \<or> (\<exists>b v. cp_clipboard s = Some v \<and> copies_block blocks b v)"
    by (simp add: copy_inv_def)
  show "copies_block blocks b v" "cp_clipboard t = Some v" "cp_labels t b = js ''Copied''"
    if "copy_step blocks s (WriteDone b v) t"
    using that i by (auto simp: guarded_def copy_inv_def)
  show "\<exists>v. copies_block blocks b v \<and> copy_step blocks s (ClickAt (Some b)) (s\<lparr>cp_writes := cp_writes s @ [(b, v)]\<rparr>)"
    if "cp_listening s \<and> b < length blocks"
  proof -
    have "copied_text (block_code blocks b) \<noteq> None"
      using that by (simp add: block_code_def pre_text_code_html copied_text_def)
    then obtain v where "copied_text (block_code blocks b) = Some v" by blast
    with that show ?thesis
      by (intro exI [of _ v]) (simp add: guarded_def onClick_def copied_block [symmetric])
  qed
  assume run: "trace (settle_step blocks) s fs u"
  then show "length fs \<le> 2 * length (cp_writes s) + length (cp_timers s)"
    using settling.trace_bounded [of blocks s fs u] by (simp add: unsettled_def)
  assume "\<forall>e u'. \<not> settle_step blocks u e u'"
  then have "cp_timers u = []" using settled_quiet by blast
  moreover have "copy_inv clip blocks u"
    using copying.trace_inv [OF settle_trace [OF run] i] .
  ultimately show "cp_labels u = (\<lambda>b. js ''Copy'')" by (auto simp: copy_inv_def)
qed

theorem copy_gives_the_code_witness:
  "\<exists>s. trace (copy_step [([60, LF], None)]) (copy_init None) [ClickAt (Some 0), WriteDone 0 [60]] s \<and>
     cp_clipboard s = Some [60]"
proof -
  let ?bs = "[([60, LF], None)] :: code_blocks"
  have "copied_text (block_code ?bs 0) = Some [60]"
    by (simp add: copied_block copies_block_def)
  then obtain s where s: "trace (copy_step ?bs) (copy_init None) [ClickAt (Some 0), WriteDone 0 [60]] s"
    by (simp add: trace_guarded copy_init_def onClick_def)
  then obtain r where r: "trace (copy_step ?bs) (copy_init None) [ClickAt (Some 0)] r" "copy_step ?bs r (WriteDone 0 [60]) s"
    using trace_snoc [of "copy_step ?bs" _ "[ClickAt (Some 0)]"] by auto
  from copy_gives_the_code [OF r(1)] r(2) s show ?thesis by blast
qed

section \<open>The navigation beside a page\<close>

definition current_links :: "node list \<Rightarrow> node list" where
  "current_links v = filter (\<lambda>n. node_attr n ''aria-current'' = Some (AS (js ''page''))) (nodes v)"

lemma current_links_simps [simp]:
  "current_links [] = []" "current_links (Txt s # v) = current_links v"
  "current_links (El t a cs # v) =
     (if map_of a ''aria-current'' = Some (AS (js ''page'')) then [El t a cs] else []) @ current_links cs @ current_links v"
  "current_links (v @ w) = current_links v @ current_links w"
  by (simp_all add: current_links_def)

lemma current_links_Cons2: "current_links (m # n # v) = current_links [m] @ current_links (n # v)"
  using current_links_simps(4) [of "[m]" "n # v"] by simp

lemma current_links_map: "current_links (map f xs) = concat (map (\<lambda>x. current_links [f x]) xs)"
  unfolding current_links_def by (subst nodes_map) (simp add: filter_concat comp_def)

definition current_link :: "doc \<Rightarrow> node" where
  "current_link d =
     El ''Link'' [(''href'', AS (docHref (d_slug d))), (''aria-current'', AS (js ''page''))] [Txt (d_title d)]"

lemma current_nav_links:
  "current_links (map (nav_link pathname) (map (\<lambda>p. (d_slug p, d_title p, docHref (d_slug p))) ds)) =
     map current_link (filter (\<lambda>d. docHref (d_slug d) = pathname) ds)"
proof (induction ds)
  case (Cons d ds)
  then show ?case
    using current_links_simps(4) [of "[nav_link pathname (d_slug d, d_title d, docHref (d_slug d))]"]
    by (auto simp: nav_link_def current_link_def)
qed simp

lemma current_nav:
  "current_links [DocsNav_view pathname (nav_links docs)] =
     map current_link (filter (\<lambda>d. docHref (d_slug d) = pathname) (concat (map ns_pages (navSections docs))))"
proof -
  have "current_links [DocsNav_view pathname ss] =
      concat (map (\<lambda>s. current_links (map (nav_link pathname) (snd (snd s)))) ss)" for ss
    by (simp add: DocsNav_view_def split_def current_links_map [where xs = ss])
  moreover have "concat (map (\<lambda>s. current_links (map (nav_link pathname) (snd (snd s))))
      (map (\<lambda>s. (ns_id s, ns_label s, map (\<lambda>p. (d_slug p, d_title p, docHref (d_slug p))) (ns_pages s))) ns)) =
      map current_link (filter (\<lambda>d. docHref (d_slug d) = pathname) (concat (map ns_pages ns)))" for ns
    by (induction ns) (simp_all add: current_nav_links del: map_map)
  ultimately show ?thesis by (simp add: nav_links_def del: map_map)
qed

lemma filter_slug_unique:
  assumes "distinct (map d_slug docs)" "d \<in> set docs"
  shows "filter (\<lambda>e. docHref (d_slug e) = docHref (d_slug d)) (concat (map ns_pages (navSections docs))) = [d]"
proof -
  have "filter (\<lambda>e. d_slug e = d_slug d) docs = [d]"
    using assms by (induction docs) (auto simp: filter_empty_conv image_iff)
  then have "mset (filter (\<lambda>e. d_slug e = d_slug d) (concat (map ns_pages (navSections docs)))) = {#d#}"
    unfolding mset_filter navSections_partition by (simp flip: mset_filter)
  then show ?thesis unfolding mset_single_iff docHref_inject .
qed

lemma with_tag_simps:
  "with_tag k [] = []" "with_tag k (Txt s # v) = (if k = [] then Txt s # with_tag k v else with_tag k v)"
  "with_tag k (El t a cs # v) = (if t = k then [El t a cs] else []) @ with_tag k cs @ with_tag k v"
  "with_tag k (v @ w) = with_tag k v @ with_tag k w"
  by (auto simp: with_tag_def)

lemma with_tag_Cons2: "with_tag k (m # n # v) = with_tag k [m] @ with_tag k (n # v)"
  using with_tag_simps(4) [of k "[m]" "n # v"] by simp

lemma with_tag_map_Nil: "(\<And>x. with_tag k [f x] = []) \<Longrightarrow> with_tag k (map f xs) = []"
  unfolding with_tag_def by (subst nodes_map) (simp add: filter_concat comp_def)

lemma h1_nav: "with_tag ''h1'' [DocsNav_view pathname ss] = []"
proof -
  have link: "with_tag ''h1'' [nav_link pathname p] = []" for p
    by (cases p) (simp add: nav_link_def with_tag_simps)
  have "with_tag ''h1'' (map (nav_link pathname) ps) = []" for ps
    by (rule with_tag_map_Nil) (rule link)
  then show ?thesis
    by (simp add: DocsNav_view_def with_tag_simps split_def with_tag_map_Nil)
qed

text \<open>Every page of the documentation is served at its static parameters with its title as the one
  heading of the first level around the rendered text, and the navigation beside it marks exactly
  one link as the current page: the one with that page's title and address.\<close>

theorem docs_page_oriented:
  assumes "loadDocs dir = Inr docs" and "distinct (map fst dir)" and "js ''.md'' \<notin> fst ` set dir"
    and "d \<in> set docs"
  shows "\<exists>children. DocsPage (\<lambda>b. fst (renderMarkdown marked lc LN seen b)) docs (Some (docSlug (d_slug d))) = Some children \<and>
    with_tag ''h1'' (DocsLayout docs (docHref (d_slug d)) children) = [El ''h1'' [] [Txt (d_title d)]] \<and>
    current_links (DocsLayout docs (docHref (d_slug d)) children) =
      [El ''Link'' [(''href'', AS (docHref (d_slug d))), (''aria-current'', AS (js ''page''))] [Txt (d_title d)]]"
proof (intro exI conjI)
  let ?c = "[El ''article'' []
      [El ''h1'' [] [Txt (d_title d)], El ''p'' [] [Txt (d_description d)],
       El ''div'' [(''dangerouslySetInnerHTML'', AS (fst (renderMarkdown marked lc LN seen (d_body d))))] []]]"
  show "DocsPage (\<lambda>b. fst (renderMarkdown marked lc LN seen b)) docs (Some (docSlug (d_slug d))) = Some ?c"
    by (simp add: DocsPage_def static_params_resolve [OF assms])
  have layout: "DocsLayout docs (docHref (d_slug d)) ?c =
      [El ''div'' [] ([DocsNav_view (docHref (d_slug d)) (nav_links docs)] @
        [El ''div'' [] (?c @ [El ''aside'' []
          [El ''p'' [] [El ''strong'' [] [Txt (js ''Bring your rules.'')], Txt (js '' See it against your own policy.'')],
           SitePages.Link (demo_link ''Request a demo'')]])])]"
    by (simp add: DocsLayout_def)
  show "with_tag ''h1'' (DocsLayout docs (docHref (d_slug d)) ?c) = [El ''h1'' [] [Txt (d_title d)]]"
    unfolding layout by (simp add: with_tag_Cons2 [of _ "DocsNav_view _ _"] with_tag_simps h1_nav SitePages.Link_def)
  show "current_links (DocsLayout docs (docHref (d_slug d)) ?c) =
      [El ''Link'' [(''href'', AS (docHref (d_slug d))), (''aria-current'', AS (js ''page''))] [Txt (d_title d)]]"
    unfolding layout using filter_slug_unique [OF loadDocs_distinct [OF assms(1,2)] assms(4)]
    by (simp add: current_links_Cons2 [of "DocsNav_view _ _"] current_nav current_link_def SitePages.Link_def)
qed

theorem docs_page_oriented_witness:
  "\<exists>docs d children. DocsPage (\<lambda>b. fst (renderMarkdown sample_pieces id ascii_letter Map.empty b)) docs (Some [js ''a'']) = Some children \<and>
     current_links (DocsLayout docs (js ''/docs/a'') children) = [current_link d] \<and> d_slug d = js ''a''"
proof -
  let ?d = "sample_doc (js ''a'') Guides 2"
  have d: "docSlug (d_slug ?d) = [js ''a'']" "docHref (d_slug ?d) = js ''/docs/a''" "d_slug ?d = js ''a''"
    by (simp_all add: sample_doc_def docSlug_def docHref_eq js_def)
  show ?thesis
    using docs_page_oriented [OF loadDocs_sample sample_dir_files, of ?d sample_pieces id ascii_letter Map.empty] d
    unfolding current_link_def by (metis list.set_intros(1,2))
qed

section \<open>The menu\<close>

text \<open>
  The \<open>details\<close> element around the navigation. Its \<open>open\<close> property is set when the component is
  mounted and whenever the address changes, from the media query of that moment; the summary that
  toggles it is hidden from 768 pixels up (\<open>md:hidden\<close>). Nothing listens to the media query.
\<close>

record menu_state =
  mn_pathname :: jstr
  mn_wide :: bool
  mn_open :: bool

datatype menu_event = Visit jstr | ClickSummary | Resize bool

text \<open>The effect.\<close>

definition open_effect :: "menu_state \<Rightarrow> menu_state" where
  "open_effect s = s\<lparr>mn_open := mn_wide s\<rparr>"

definition menu_init :: "jstr \<Rightarrow> bool \<Rightarrow> menu_state" where
  "menu_init pathname wide = open_effect \<lparr>mn_pathname = pathname, mn_wide = wide, mn_open = True\<rparr>"

fun menu_can :: "menu_event \<Rightarrow> menu_state \<Rightarrow> bool" where
  "menu_can (Visit p) s \<longleftrightarrow> True"
| "menu_can ClickSummary s \<longleftrightarrow> \<not> mn_wide s"
| "menu_can (Resize wide) s \<longleftrightarrow> True"

fun menu_next :: "menu_event \<Rightarrow> menu_state \<Rightarrow> menu_state" where
  "menu_next (Visit p) s = (if p = mn_pathname s then s else open_effect (s\<lparr>mn_pathname := p\<rparr>))"
| "menu_next ClickSummary s = s\<lparr>mn_open := \<not> mn_open s\<rparr>"
| "menu_next (Resize wide) s = s\<lparr>mn_wide := wide\<rparr>"

abbreviation menu_step where
  "menu_step \<equiv> guarded menu_can menu_next"

text \<open>The runs in which the window is not widened while the menu is closed.\<close>

definition calm_step :: "menu_state \<Rightarrow> menu_event \<Rightarrow> menu_state \<Rightarrow> bool" where
  "calm_step s e t \<longleftrightarrow> menu_step s e t \<and> (e = Resize True \<longrightarrow> mn_open s)"

interpretation calm: invariant_machine "\<lambda>s. \<exists>p w. s = menu_init p w" calm_step "\<lambda>s. mn_wide s \<longrightarrow> mn_open s"
proof unfold_locales
  fix s e t assume "mn_wide s \<longrightarrow> mn_open s" "calm_step s e t"
  then show "mn_wide t \<longrightarrow> mn_open t"
    by (cases e) (auto simp: calm_step_def guarded_def open_effect_def split: if_splits)
qed (auto simp: menu_init_def open_effect_def)

text \<open>The docs menu is never out of reach as long as the window is not widened while it is closed: it
  is open, or the window is narrow and one click opens it; on a wide window it is always open, and
  going to another page opens it on a wide window and folds it on a narrow one.\<close>

theorem menu_within_reach:
  assumes "trace calm_step (menu_init p w) es s"
  shows "(mn_wide s \<longrightarrow> mn_open s) \<and>
    (mn_open s \<or> (\<exists>t. menu_step s ClickSummary t \<and> mn_open t)) \<and>
    (q \<noteq> mn_pathname s \<and> menu_step s (Visit q) t \<longrightarrow> mn_pathname t = q \<and> (mn_open t \<longleftrightarrow> mn_wide s))"
proof -
  have "mn_wide s \<longrightarrow> mn_open s" by (rule calm.reachable_inv [OF _ assms]) blast
  then show ?thesis by (auto simp: guarded_def open_effect_def)
qed

theorem menu_within_reach_witness:
  "\<exists>s. trace calm_step (menu_init (js ''/docs'') False) [ClickSummary, Resize True] s \<and> mn_wide s \<and> mn_open s"
proof -
  let ?es = "[ClickSummary, Resize True]"
  have "\<exists>s. trace calm_step (menu_init (js ''/docs'') False) ?es s \<and> mn_wide s"
    by (simp add: trace_Cons_iff calm_step_def guarded_def menu_init_def open_effect_def)
  then obtain s where s: "trace calm_step (menu_init (js ''/docs'') False) ?es s" "mn_wide s" by blast
  with menu_within_reach [OF s(1)] show ?thesis by blast
qed

text \<open>
  Without that proviso it is lost: on a window that was narrow and then made wide (a tablet turned
  round), the menu is closed, the summary hidden, and no resizing to a wide window brings it back.
  The comment in the source says that the navigation is always open from that width up.
\<close>

theorem menu_lost_on_widening:
  "\<exists>s. trace menu_step (menu_init p False) [Resize True] s \<and> mn_wide s \<and> \<not> mn_open s \<and>
     (\<forall>t. \<not> menu_step s ClickSummary t) \<and> (\<forall>t. menu_step s (Resize True) t \<longrightarrow> \<not> mn_open t)"
  by (simp add: trace_guarded guarded_def menu_init_def open_effect_def)

end
