(* ===== verification/SiteLinks.thy ===== *)
theory SiteLinks
  imports SitePages DocsRender
begin

text \<open>
  The links of the site: those of the components (\<^verbatim>\<open>web/app\<close>, \<^verbatim>\<open>web/components\<close>), read off the element
  trees, and those a documentation page writes in Markdown, which \<^verbatim>\<open>web/lib/docs.ts\<close> rewrites before
  \<^verbatim>\<open>marked\<close> renders them. The tokens \<^verbatim>\<open>marked\<close> finds in a text are a parameter.
\<close>

section \<open>Links of the components\<close>

text \<open>The addresses of the site: the routes and one per documentation page.\<close>

definition site_paths :: "doc list \<Rightarrow> jstr list" where
  "site_paths docs = map rt_path routes @ map (\<lambda>d. docHref (d_slug d)) docs"

text \<open>
  A link that works: to an element of the same view, to an address of the site, to the demo page
  for one of the plans, to an absolute https address, or to a mail address.
\<close>

definition link_ok :: "doc list \<Rightarrow> node list \<Rightarrow> jstr \<Rightarrow> bool" where
  "link_ok docs view h \<longleftrightarrow>
     (case h of
        [] \<Rightarrow> False
      | c # r \<Rightarrow>
          (if c = 35 then AS r \<in> set (ids view)
           else if c = slash then h \<in> set (site_paths docs @ map plan_href planIds)
           else starts_with (js ''https://'') h \<or> (\<exists>m. m \<noteq> [] \<and> h = js ''mailto:'' @ m)))"

inductive site_content :: "doc list \<Rightarrow> node list \<Rightarrow> bool" for docs where
  "site_content docs HomePage"
| "site_content docs ProductPage"
| "site_content docs PricingPage"
| "site_content docs SitePages.NotFound"
| "site_content docs [DemoPage q now state webmail pending]"
| "DocsPage render docs slug = Some children \<Longrightarrow> site_content docs (DocsLayout docs pathname children)"

lemma link_ok_internal:
  assumes "h \<in> set (site_paths docs @ map plan_href planIds)" "\<exists>r. h = slash # r"
  shows "link_ok docs view h"
proof -
  from assms(2) obtain r where h: "h = slash # r" ..
  from assms(1) show ?thesis unfolding link_ok_def h by simp
qed

lemma link_ok_route: "h \<in> set (map rt_path routes) \<Longrightarrow> link_ok docs view h"
  unfolding route_paths
  by (rule link_ok_internal) (simp only: site_paths_def route_paths set_append Un_iff simp_thms, auto simp: js_def)

lemma link_ok_doc: "d \<in> set docs \<Longrightarrow> link_ok docs view (docHref (d_slug d))"
  by (rule link_ok_internal) (auto simp: site_paths_def docHref_eq js_def)

lemma link_ok_plan: "link_ok docs view (plan_href p)"
  by (rule link_ok_internal) (auto simp: plan_href_def js_def)

lemma link_ok_external: "link_ok docs view (s_githubUrl site)" "link_ok docs view (s_licenseUrl site)"
  by (simp_all add: link_ok_def site_def starts_with_def js_def)

lemma link_ok_mail: "m \<noteq> [] \<Longrightarrow> link_ok docs view (js ''mailto:'' @ m)"
  by (auto simp: link_ok_def js_def)

lemma link_ok_main: "link_ok docs (RootLayout env year content) (js ''#main'')"
proof -
  have "AS (js ''main'') \<in> set (ids (RootLayout env year content))"
    by (simp add: RootLayout_def ids_def nodes_def)
  moreover have "js ''#main'' = 35 # js ''main''" by (simp add: js_def)
  ultimately show ?thesis by (simp add: link_ok_def)
qed

lemma docs_index:
  assumes "loadDocs dir = Inr docs" "js ''index.md'' \<in> fst ` set dir"
  shows "\<exists>d \<in> set docs. docHref (d_slug d) = js ''/docs''"
proof -
  have "js ''index.md'' \<in> set (doc_files dir)"
    using assms(2) by (auto simp: doc_files_def ends_with_iff js_def)
  then have "strip_md (js ''index.md'') \<in> set (map d_slug docs)"
    unfolding loadDocs_slugs [OF assms(1)] by simp
  moreover have "strip_md (js ''index.md'') = js ''index''" by (simp add: strip_md_def strip_suffix_def js_def)
  ultimately show ?thesis by (auto simp: docHref_eq)
qed

lemma hrefs_DocsPage: "DocsPage render docs slug = Some children \<Longrightarrow> hrefs children = []"
  by (auto simp: DocsPage_def)

lemma nav_hrefs_docs:
  "h \<in> set (concat (map (\<lambda>s. map (\<lambda>p. docHref (d_slug p)) (ns_pages s)) (navSections docs))) \<Longrightarrow>
     \<exists>d \<in> set docs. h = docHref (d_slug d)"
  by (auto simp: navSections_def)


lemma content_links_ok:
  assumes "loadDocs dir = Inr docs" "js ''index.md'' \<in> fst ` set dir" "site_content docs content"
    and "AS h \<in> set (hrefs content)"
  shows "link_ok docs view h"
  using assms(3)
proof cases
  case 1
  with assms(4) show ?thesis by (auto simp: hrefs_HomePage route_paths intro!: link_ok_route)
next
  case 2
  have "js ''/demo?plan=team'' = plan_href Team" by (simp add: plan_href_def js_append [symmetric])
  with 2 assms(4) show ?thesis by (auto simp: hrefs_ProductPage intro: link_ok_plan)
next
  case 3
  with assms(4) show ?thesis by (auto simp: hrefs_PricingPage intro: link_ok_plan)
next
  case 4
  with assms(4) show ?thesis by (auto simp: hrefs_NotFound route_paths intro!: link_ok_route)
next
  case (5 q now state webmail pending)
  with assms(4) show ?thesis
    by (auto simp: hrefs_DemoPage truthy_def intro!: link_ok_mail split: demo_state.splits if_splits option.splits)
next
  case (6 render slug children pathname)
  have "h = js ''/demo'' \<or> (\<exists>d \<in> set docs. h = docHref (d_slug d))"
    using assms(4) nav_hrefs_docs [of h docs] unfolding 6(1) hrefs_DocsLayout hrefs_DocsPage [OF 6(2)] by auto
  moreover have "link_ok docs view (js ''/demo'')" by (rule link_ok_route) (simp add: route_paths)
  ultimately show ?thesis using link_ok_doc by blast
qed

section \<open>Links of the documentation\<close>

text \<open>
  The tokens of a page as \<open>walkTokens\<close> leaves them. \<open>tokens\<close> is the parser, \<open>anchors\<close> gives the
  heading ids of a page, \<open>cwd\<close> and \<open>fs\<close> are the working directory and the files of the image route.
\<close>

definition page_tokens :: "(jstr \<Rightarrow> token list) \<Rightarrow> doc \<Rightarrow> token list" where
  "page_tokens tokens d = map walkToken (tokens (d_body d))"

text \<open>The heading ids of a page as \<open>renderMarkdown\<close> puts them in.\<close>

definition page_anchors :: "(jstr \<Rightarrow> md_piece list) \<Rightarrow> (jstr \<Rightarrow> jstr) \<Rightarrow> (nat \<Rightarrow> bool) \<Rightarrow> doc \<Rightarrow> jstr set" where
  "page_anchors marked lc LN d = set (page_heading_ids (heading_bases lc LN (marked (d_body d))))"

definition image_served :: "jstr \<Rightarrow> (jstr \<Rightarrow> nat list option) \<Rightarrow> jstr \<Rightarrow> bool" where
  "image_served cwd fs a \<longleftrightarrow> GET_asset cwd fs a \<noteq> asset_response.NotFound"

text \<open>
  How the authors may write a link: the GitHub way, to a page or a heading of it or an image, to a
  heading of the same page, to an address of the site, or to an https address.
\<close>

definition page_written :: "doc list \<Rightarrow> (doc \<Rightarrow> jstr set) \<Rightarrow> jstr \<Rightarrow> bool" where
  "page_written docs anchors h \<longleftrightarrow>
     (\<exists>e \<in> set docs. d_slug e \<noteq> [] \<and> list_all slug_char (d_slug e) \<and>
        (h = js ''./'' @ d_slug e @ js ''.md'' \<or>
         (\<exists>f \<in> anchors e. list_all (\<lambda>c. \<not> is_lt c) f \<and> h = js ''./'' @ d_slug e @ js ''.md'' @ 35 # f)))"

definition image_written :: "jstr \<Rightarrow> (jstr \<Rightarrow> nat list option) \<Rightarrow> jstr \<Rightarrow> bool" where
  "image_written cwd fs h \<longleftrightarrow>
     (\<exists>a. image_served cwd fs a \<and> 35 \<notin> set a \<and> 63 \<notin> set a \<and> h = js ''../assets/'' @ a)"

fun token_written :: "doc list \<Rightarrow> (doc \<Rightarrow> jstr set) \<Rightarrow> jstr \<Rightarrow> (jstr \<Rightarrow> nat list option) \<Rightarrow> doc \<Rightarrow> token \<Rightarrow> bool" where
  "token_written docs anchors cwd fs d (token.Link h) \<longleftrightarrow>
     page_written docs anchors h \<or> image_written cwd fs h \<or> (\<exists>f \<in> anchors d. h = 35 # f) \<or>
     h \<in> set (site_paths docs) \<or> starts_with (js ''https://'') h"
| "token_written docs anchors cwd fs d (ImageTok h) \<longleftrightarrow>
     image_written cwd fs h \<or> starts_with (js ''https://'') h"
| "token_written docs anchors cwd fs d t \<longleftrightarrow> True"

text \<open>What a rendered link or image must lead to.\<close>

fun token_live :: "doc list \<Rightarrow> (doc \<Rightarrow> jstr set) \<Rightarrow> jstr \<Rightarrow> (jstr \<Rightarrow> nat list option) \<Rightarrow> doc \<Rightarrow> token \<Rightarrow> bool" where
  "token_live docs anchors cwd fs d (token.Link h) \<longleftrightarrow>
     h \<in> set (site_paths docs) \<or> (\<exists>e \<in> set docs. \<exists>f \<in> anchors e. h = docHref (d_slug e) @ 35 # f) \<or>
     (\<exists>f \<in> anchors d. h = 35 # f) \<or> (\<exists>a. image_served cwd fs a \<and> h = js ''/docs-assets/'' @ a) \<or>
     starts_with (js ''https://'') h"
| "token_live docs anchors cwd fs d (ImageTok h) \<longleftrightarrow>
     (\<exists>a. image_served cwd fs a \<and> h = js ''/docs-assets/'' @ a) \<or> starts_with (js ''https://'') h"
| "token_live docs anchors cwd fs d t \<longleftrightarrow> True"

lemma unmatched_unchanged:
  assumes "h = [] \<or> hd h \<noteq> 46" shows "rewriteHref h = h"
  using assms by (cases h) (auto simp: rewriteHref_def match_page_def match_asset_def js_def)

lemma https_unchanged: "starts_with (js ''https://'') h \<Longrightarrow> rewriteHref h = h"
  by (rule unmatched_unchanged) (auto simp: starts_with_iff js_def)

lemma site_paths_rooted: "h \<in> set (site_paths docs) \<Longrightarrow> \<exists>r. h = slash # r"
  unfolding site_paths_def route_paths by (auto simp: docHref_eq js_def)

lemma rewrite_page:
  assumes "page_written docs anchors h"
  shows "rewriteHref h \<in> set (site_paths docs) \<or>
    (\<exists>e \<in> set docs. \<exists>f \<in> anchors e. rewriteHref h = docHref (d_slug e) @ 35 # f)"
proof -
  from assms obtain e where e: "e \<in> set docs" "d_slug e \<noteq> []" "\<forall>c \<in> set (d_slug e). slug_char c"
    and h: "h = js ''./'' @ d_slug e @ js ''.md'' \<or>
      (\<exists>f \<in> anchors e. list_all (\<lambda>c. \<not> is_lt c) f \<and> h = js ''./'' @ d_slug e @ js ''.md'' @ 35 # f)"
    by (auto simp: page_written_def list_all_iff)
  from h show ?thesis
  proof
    assume "h = js ''./'' @ d_slug e @ js ''.md''"
    then have "rewriteHref h = docHref (d_slug e)"
      using match_page_page [OF e(2,3), of "[]"] by (simp add: rewriteHref_def)
    with e(1) show ?thesis by (auto simp: site_paths_def)
  next
    assume "\<exists>f \<in> anchors e. list_all (\<lambda>c. \<not> is_lt c) f \<and> h = js ''./'' @ d_slug e @ js ''.md'' @ 35 # f"
    then obtain f where f: "f \<in> anchors e" "list_all (\<lambda>c. \<not> is_lt c) f" "h = js ''./'' @ d_slug e @ js ''.md'' @ 35 # f"
      by blast
    then have "rewriteHref h = docHref (d_slug e) @ 35 # f"
      using match_page_page [OF e(2,3), of "35 # f"] by (simp add: rewriteHref_def list_all_iff)
    with e(1) f(1) show ?thesis by blast
  qed
qed

lemma rewrite_image:
  assumes "image_written cwd fs h"
  shows "\<exists>a. image_served cwd fs a \<and> rewriteHref h = js ''/docs-assets/'' @ a"
proof -
  from assms obtain a where a: "image_served cwd fs a" "35 \<notin> set a" "63 \<notin> set a" "h = js ''../assets/'' @ a"
    by (auto simp: image_written_def)
  then have "clean_segment a"
    using assetPath_SomeD(1) by (auto simp: image_served_def GET_asset_def split: option.splits)
  then have "a \<noteq> []" "slash \<notin> set a" by (auto dest: clean_segmentD)
  moreover have "match_page h = None" unfolding a(4) by (simp add: match_page_def js_def)
  ultimately have "rewriteHref h = js ''/docs-assets/'' @ a"
    using a(2,3) unfolding a(4) by (auto simp: rewriteHref_def match_asset_def)
  with a(1) show ?thesis by blast
qed

lemma walked_live:
  assumes "token_written docs anchors cwd fs d t"
  shows "token_live docs anchors cwd fs d (walkToken t)"
proof (cases t)
  case (Link h)
  then consider "page_written docs anchors h" | "image_written cwd fs h"
    | f where "f \<in> anchors d" "h = 35 # f" | "h \<in> set (site_paths docs)" | "starts_with (js ''https://'') h"
    using assms by auto
  then show ?thesis
  proof cases
    case 1
    from rewrite_page [OF 1] show ?thesis by (auto simp: Link)
  next
    case 2
    from rewrite_image [OF 2] show ?thesis by (auto simp: Link)
  next
    case 3
    then show ?thesis by (simp add: Link unmatched_unchanged)
  next
    case 4
    with site_paths_rooted [OF 4] rooted_unchanged show ?thesis by (auto simp: Link)
  next
    case 5
    then show ?thesis by (simp add: Link https_unchanged)
  qed
next
  case (ImageTok h)
  then show ?thesis using assms rewrite_image [of cwd fs h] https_unchanged [of h] by auto
qed simp_all

section \<open>Properties\<close>

text \<open>C39. The links of the site work. Every link a component renders, on every page inside its layout and in
  every state of the demo form, leads to an address that exists (a route of the site, a documentation
  page, the demo page for one of the plans), to an element that is on the page, to an https address or
  to the inbox. And a documentation page whose Markdown links are written as its authors write them
  (\<^verbatim>\<open>./page.md\<close> with or without the id of a heading of that page, \<^verbatim>\<open>../assets/\<close> an image that is there,
  \<^verbatim>\<open>#\<close> a heading of the same page, an address of the site, or https) is rendered with links and
  images that all lead to a page, to a heading of that very page, or to an image that is served.\<close>

theorem site_links_live:
  assumes "loadDocs dir = Inr docs" and "js ''index.md'' \<in> fst ` set dir"
  shows "(\<forall>content h. site_content docs content \<and> AS h \<in> set (hrefs (RootLayout env year content)) \<longrightarrow>
      link_ok docs (RootLayout env year content) h) \<and>
    (\<forall>d \<in> set docs. list_all (token_written docs (page_anchors marked lc LN) cwd fs d) (tokens (d_body d)) \<longrightarrow>
      list_all (token_live docs (page_anchors marked lc LN) cwd fs d) (page_tokens tokens d))"
proof (intro conjI allI ballI impI)
  fix content h assume c: "site_content docs content \<and> AS h \<in> set (hrefs (RootLayout env year content))"
  obtain d where d: "d \<in> set docs" "docHref (d_slug d) = js ''/docs''" using docs_index [OF assms(1,2)] ..
  consider "h = js ''#main''" | "h \<in> set (map rt_path routes)" | "h = docHref (d_slug d)"
    | "h = s_githubUrl site \<or> h = s_licenseUrl site" | "AS h \<in> set (hrefs content)"
    using c unfolding hrefs_RootLayout hrefs_frame d(2) route_paths by auto
  then show "link_ok docs (RootLayout env year content) h"
    using link_ok_main link_ok_route link_ok_doc [OF d(1)] link_ok_external content_links_ok [OF assms] c
    by cases blast+
next
  fix d assume "list_all (token_written docs (page_anchors marked lc LN) cwd fs d) (tokens (d_body d))"
  then show "list_all (token_live docs (page_anchors marked lc LN) cwd fs d) (page_tokens tokens d)"
    by (auto simp: page_tokens_def list_all_iff intro: walked_live)
qed

theorem site_links_live_witness:
  "link_ok [sample_doc (js ''index'') GetStarted 1, sample_doc (js ''a'') Guides 2] (RootLayout sample_env 2026
       [DemoPage Map.empty [] (Failed (Some (js ''a@b'')) Map.empty) False False]) (js ''mailto:a@b'') \<and>
   token_live [sample_doc (js ''index'') GetStarted 1, sample_doc (js ''a'') Guides 2]
     (page_anchors sample_pieces id ascii_letter) [] (\<lambda>_. None) (sample_doc (js ''index'') GetStarted 1)
     (token.Link (js ''/docs/a''))"
proof -
  let ?docs = "[sample_doc (js ''index'') GetStarted 1, sample_doc (js ''a'') Guides 2]"
  let ?d = "sample_doc (js ''index'') GetStarted 1"
  let ?demo = "[DemoPage Map.empty [] (Failed (Some (js ''a@b'')) Map.empty) False False]"
  let ?tokens = "\<lambda>_. [token.Link (js ''./'' @ js ''a'' @ js ''.md'')]"
  let ?anchors = "page_anchors sample_pieces id ascii_letter"
  have index: "js ''index.md'' \<in> fst ` set sample_dir" by (simp add: sample_dir_def js_append [symmetric])
  note live = site_links_live [OF loadDocs_sample index, of sample_env 2026 sample_pieces id ascii_letter "[]" "\<lambda>_. None" ?tokens]
  have href: "AS (js ''mailto:a@b'') \<in> set (hrefs (RootLayout sample_env 2026 ?demo))"
    unfolding hrefs_RootLayout hrefs_DemoPage by (simp add: truthy_def js_def)
  have slug: "list_all slug_char (js ''a'')" by (simp add: slug_char_def js_eval)
  have "token_written ?docs ?anchors [] (\<lambda>_. None) ?d (token.Link (js ''./'' @ js ''a'' @ js ''.md''))"
    by (simp add: page_written_def sample_doc_def slug)
  then have "list_all (token_written ?docs ?anchors [] (\<lambda>_. None) ?d) (?tokens (d_body ?d))"
    by (simp only: list.pred_inject simp_thms)
  moreover have "?d \<in> set ?docs" by simp
  ultimately have "list_all (token_live ?docs ?anchors [] (\<lambda>_. None) ?d) (page_tokens ?tokens ?d)"
    using live [THEN conjunct2] by blast
  moreover have "page_tokens ?tokens ?d = [token.Link (js ''/docs/a'')]"
    using match_page_page [of "js ''a''" "[]"] slug
    by (simp add: page_tokens_def rewriteHref_def list_all_iff docHref_eq js_def)
  ultimately have "token_live ?docs ?anchors [] (\<lambda>_. None) ?d (token.Link (js ''/docs/a''))"
    by (simp only: list.pred_inject simp_thms)
  moreover have "link_ok ?docs (RootLayout sample_env 2026 ?demo) (js ''mailto:a@b'')"
    using live href site_content.intros(5) by blast
  ultimately show ?thesis by blast
qed

section \<open>A link that leads nowhere\<close>

text \<open>
  \<^verbatim>\<open>docs/site/write-first-policy.md\<close> links to a file of the repository outside the documentation.
  Such an address is none of the forms that are rewritten, so it is rendered as it is; the browser
  resolves it against the address of the page to one that is no page and no image of the site.
\<close>

definition repo_link :: jstr where
  "repo_link = js ''../../deploy/aw-sync/README.md''"

definition resolved_link :: "doc \<Rightarrow> jstr \<Rightarrow> jstr" where
  "resolved_link d h = path_join [docHref (d_slug d), dotdot, h]"

lemma repo_link_dead:
  assumes "d_slug d = js ''write-first-policy''"
  shows "walkToken (token.Link repo_link) = token.Link repo_link \<and>
    resolved_link d repo_link = js ''/deploy/aw-sync/README.md'' \<and>
    \<not> token_live docs anchors cwd fs e (token.Link (resolved_link d repo_link))"
proof (intro conjI)
  show r: "resolved_link d repo_link = js ''/deploy/aw-sync/README.md''"
    unfolding resolved_link_def assms docHref_eq repo_link_def by code_simp
  show "walkToken (token.Link repo_link) = token.Link repo_link"
    by (simp add: repo_link_def rewriteHref_def match_page_def match_asset_def js_def)
  show "\<not> token_live docs anchors cwd fs e (token.Link (resolved_link d repo_link))"
    unfolding r by (auto simp: site_paths_def route_paths docHref_eq starts_with_iff js_def)
qed

end
