(* ===== verification/Primitives.thy ===== *)
theory Primitives
  imports View
begin

text \<open>
  The presentational components of \<^verbatim>\<open>components/ui\<close>, in the console's version and in the site's (they
  differ in the table; the site has no dialog and the console no text area). Each is a function
  from its properties and children to the element it returns; \<open>render\<close> puts them in place of the
  capitalised tags of a view, which gives the tree the browser sees, down to the primitives of
  \<^verbatim>\<open>@base-ui/react\<close>, a third-party package, which stay tags. Class names are left out, and with them
  the properties that only choose among them.
\<close>

section \<open>Properties\<close>

type_synonym props = "(string \<times> attr) list"

text \<open>Taking properties out by destructuring, and \<open>{...props}\<close> after a component's own.\<close>

definition without :: "string list \<Rightarrow> props \<Rightarrow> props" where
  "without ks a = filter (\<lambda>(k, v). k \<notin> set ks) a"

definition spread :: "props \<Rightarrow> props \<Rightarrow> props" where
  "spread own a = filter (\<lambda>(k, v). k \<notin> fst ` set a) own @ a"

definition slot :: "string \<Rightarrow> string \<times> attr" where
  "slot s = (''data-slot'', AS (js s))"

definition flag :: "string \<Rightarrow> bool \<Rightarrow> props \<Rightarrow> bool" where
  "flag k d a = (case map_of a k of Some (AB b) \<Rightarrow> b | _ \<Rightarrow> d)"

lemma map_of_without: "map_of (without ks a) k = (if k \<in> set ks then None else map_of a k)"
  by (induction a) (auto simp: without_def)

lemma map_of_spread: "map_of (spread own a) k = (case map_of a k of Some v \<Rightarrow> Some v | None \<Rightarrow> map_of own k)"
proof -
  have "map_of (filter (\<lambda>(k, v). k \<notin> A) own) k = (if k \<in> A then None else map_of own k)" for A
    by (induction own) auto
  moreover have "k \<in> fst ` set a \<longleftrightarrow> map_of a k \<noteq> None" by (simp add: map_of_eq_None_iff)
  ultimately show ?thesis by (simp add: spread_def map_add_def split: option.splits)
qed

section \<open>The components\<close>

definition element :: "string \<Rightarrow> string \<Rightarrow> props \<Rightarrow> node list \<Rightarrow> node" where
  "element t s a cs = El t (spread [slot s] (without [''className''] a)) cs"

definition Button :: "props \<Rightarrow> node list \<Rightarrow> node" where
  "Button a cs = El ''ButtonPrimitive'' (spread [slot ''button''] (without [''className'', ''variant'', ''size''] a)) cs"

text \<open>\<open>useRender\<close> makes the \<open>data-\<close> attributes of a component's state.\<close>

definition Badge :: "props \<Rightarrow> node list \<Rightarrow> node" where
  "Badge a cs =
     El ''span''
       (spread [slot ''badge'', (''data-variant'', nullish (map_of a ''variant'') (AS (js ''default'')))]
          (without [''className'', ''variant'', ''render''] a)) cs"

definition Card :: "props \<Rightarrow> node list \<Rightarrow> node" where
  "Card a cs =
     El ''div'' (spread [slot ''card'', (''data-size'', nullish (map_of a ''size'') (AS (js ''default'')))]
       (without [''className'', ''size''] a)) cs"

definition CardHeader :: "props \<Rightarrow> node list \<Rightarrow> node" where
  "CardHeader = element ''div'' ''card-header''"

definition CardTitle :: "props \<Rightarrow> node list \<Rightarrow> node" where
  "CardTitle = element ''div'' ''card-title''"

definition CardDescription :: "props \<Rightarrow> node list \<Rightarrow> node" where
  "CardDescription = element ''div'' ''card-description''"

definition CardAction :: "props \<Rightarrow> node list \<Rightarrow> node" where
  "CardAction = element ''div'' ''card-action''"

definition CardContent :: "props \<Rightarrow> node list \<Rightarrow> node" where
  "CardContent = element ''div'' ''card-content''"

definition CardFooter :: "props \<Rightarrow> node list \<Rightarrow> node" where
  "CardFooter = element ''div'' ''card-footer''"

text \<open>The console's table can be scrolled from the keyboard; the site's has no \<open>tabIndex\<close>.\<close>

definition Table :: "props \<Rightarrow> node list \<Rightarrow> node" where
  "Table a cs = El ''div'' [slot ''table-container'', (''tabIndex'', AN 0)] [element ''table'' ''table'' a cs]"

definition site_Table :: "props \<Rightarrow> node list \<Rightarrow> node" where
  "site_Table a cs = El ''div'' [slot ''table-container''] [element ''table'' ''table'' a cs]"

definition TableHeader :: "props \<Rightarrow> node list \<Rightarrow> node" where
  "TableHeader = element ''thead'' ''table-header''"

definition TableBody :: "props \<Rightarrow> node list \<Rightarrow> node" where
  "TableBody = element ''tbody'' ''table-body''"

definition TableFooter :: "props \<Rightarrow> node list \<Rightarrow> node" where
  "TableFooter = element ''tfoot'' ''table-footer''"

definition TableRow :: "props \<Rightarrow> node list \<Rightarrow> node" where
  "TableRow = element ''tr'' ''table-row''"

definition TableHead :: "props \<Rightarrow> node list \<Rightarrow> node" where
  "TableHead = element ''th'' ''table-head''"

definition TableCell :: "props \<Rightarrow> node list \<Rightarrow> node" where
  "TableCell = element ''td'' ''table-cell''"

definition TableCaption :: "props \<Rightarrow> node list \<Rightarrow> node" where
  "TableCaption = element ''caption'' ''table-caption''"

text \<open>An \<open>undefined\<close> type is not rendered.\<close>

definition Input :: "props \<Rightarrow> node list \<Rightarrow> node" where
  "Input a cs =
     El ''InputPrimitive''
       (spread ((case map_of a ''type'' of None \<Rightarrow> [] | Some t \<Rightarrow> [(''type'', t)]) @ [slot ''input''])
          (without [''className'', ''type''] a)) cs"

definition Label :: "props \<Rightarrow> node list \<Rightarrow> node" where
  "Label = element ''label'' ''label''"

definition Textarea :: "props \<Rightarrow> node list \<Rightarrow> node" where
  "Textarea = element ''textarea'' ''textarea''"

subsection \<open>Dialogs\<close>

definition Dialog :: "props \<Rightarrow> node list \<Rightarrow> node" where
  "Dialog a cs = El ''DialogPrimitive.Root'' (spread [slot ''dialog''] a) cs"

definition DialogTrigger :: "props \<Rightarrow> node list \<Rightarrow> node" where
  "DialogTrigger a cs = El ''DialogPrimitive.Trigger'' (spread [slot ''dialog-trigger''] a) cs"

definition DialogPortal :: "props \<Rightarrow> node list \<Rightarrow> node" where
  "DialogPortal a cs = El ''DialogPrimitive.Portal'' (spread [slot ''dialog-portal''] a) cs"

definition DialogClose :: "props \<Rightarrow> node list \<Rightarrow> node" where
  "DialogClose a cs = El ''DialogPrimitive.Close'' (spread [slot ''dialog-close''] a) cs"

definition DialogOverlay :: "props \<Rightarrow> node list \<Rightarrow> node" where
  "DialogOverlay = element ''DialogPrimitive.Backdrop'' ''dialog-overlay''"

definition DialogContent :: "props \<Rightarrow> node list \<Rightarrow> node" where
  "DialogContent a cs =
     DialogPortal []
       [DialogOverlay [] [],
        El ''DialogPrimitive.Popup'' (spread [slot ''dialog-content''] (without [''className'', ''showCloseButton''] a))
          (cs @ (if flag ''showCloseButton'' True a
                 then [El ''DialogPrimitive.Close'' [slot ''dialog-close'']
                         [El ''XIcon'' [] [], El ''span'' [] [Txt (js ''Close'')]]]
                 else []))]"

definition DialogHeader :: "props \<Rightarrow> node list \<Rightarrow> node" where
  "DialogHeader = element ''div'' ''dialog-header''"

definition DialogFooter :: "props \<Rightarrow> node list \<Rightarrow> node" where
  "DialogFooter a cs =
     El ''div'' (spread [slot ''dialog-footer''] (without [''className'', ''showCloseButton''] a))
       (cs @ (if flag ''showCloseButton'' False a then [El ''DialogPrimitive.Close'' [] [Txt (js ''Close'')]] else []))"

definition DialogTitle :: "props \<Rightarrow> node list \<Rightarrow> node" where
  "DialogTitle = element ''DialogPrimitive.Title'' ''dialog-title''"

definition DialogDescription :: "props \<Rightarrow> node list \<Rightarrow> node" where
  "DialogDescription = element ''DialogPrimitive.Description'' ''dialog-description''"

section \<open>Rendering\<close>

definition console_ui :: "string \<Rightarrow> (props \<Rightarrow> node list \<Rightarrow> node) option" where
  "console_ui = map_of
     [(''Button'', Button), (''Badge'', Badge), (''Card'', Card), (''CardHeader'', CardHeader),
      (''CardTitle'', CardTitle), (''CardDescription'', CardDescription), (''CardAction'', CardAction),
      (''CardContent'', CardContent), (''CardFooter'', CardFooter), (''Table'', Table),
      (''TableHeader'', TableHeader), (''TableBody'', TableBody), (''TableFooter'', TableFooter),
      (''TableRow'', TableRow), (''TableHead'', TableHead), (''TableCell'', TableCell),
      (''TableCaption'', TableCaption), (''Input'', Input), (''Label'', Label), (''Dialog'', Dialog),
      (''DialogTrigger'', DialogTrigger), (''DialogPortal'', DialogPortal), (''DialogClose'', DialogClose),
      (''DialogOverlay'', DialogOverlay), (''DialogContent'', DialogContent), (''DialogHeader'', DialogHeader),
      (''DialogFooter'', DialogFooter), (''DialogTitle'', DialogTitle), (''DialogDescription'', DialogDescription)]"

definition site_ui :: "string \<Rightarrow> (props \<Rightarrow> node list \<Rightarrow> node) option" where
  "site_ui = map_of
     [(''Button'', Button), (''Badge'', Badge), (''Card'', Card), (''CardHeader'', CardHeader),
      (''CardTitle'', CardTitle), (''CardDescription'', CardDescription), (''CardAction'', CardAction),
      (''CardContent'', CardContent), (''CardFooter'', CardFooter), (''Table'', site_Table),
      (''TableHeader'', TableHeader), (''TableBody'', TableBody), (''TableFooter'', TableFooter),
      (''TableRow'', TableRow), (''TableHead'', TableHead), (''TableCell'', TableCell),
      (''TableCaption'', TableCaption), (''Input'', Input), (''Label'', Label), (''Textarea'', Textarea)]"

fun render :: "(string \<Rightarrow> (props \<Rightarrow> node list \<Rightarrow> node) option) \<Rightarrow> node \<Rightarrow> node" where
  "render ui (Txt s) = Txt s"
| "render ui (El t a cs) =
     (case ui t of None \<Rightarrow> El t a (map (render ui) cs) | Some f \<Rightarrow> f a (map (render ui) cs))"

text \<open>All values of an attribute in a view, and the number of elements that close a dialog.\<close>

definition attr_values :: "string \<Rightarrow> node list \<Rightarrow> attr list" where
  "attr_values k v = concat (map (\<lambda>n. case node_attr n k of None \<Rightarrow> [] | Some h \<Rightarrow> [h]) (nodes v))"

definition closers :: "node list \<Rightarrow> nat" where
  "closers v = length (with_tag ''DialogPrimitive.Close'' v)"

text \<open>The tags of a view, before rendering, that become such an element.\<close>

fun closing :: "node \<Rightarrow> bool" where
  "closing (Txt s) \<longleftrightarrow> False"
| "closing (El t a cs) \<longleftrightarrow>
     t = ''DialogPrimitive.Close'' \<or> t = ''DialogClose'' \<or>
     t = ''DialogContent'' \<and> flag ''showCloseButton'' True a \<or>
     t = ''DialogFooter'' \<and> flag ''showCloseButton'' False a"

definition own_keys :: "string set" where
  "own_keys = {''className'', ''variant'', ''size'', ''type'', ''render'', ''showCloseButton'', ''tabIndex'',
     ''data-slot'', ''data-size'', ''data-variant''}"

lemma attr_values_simps [simp]:
  "attr_values k [] = []" "attr_values k (Txt s # v) = attr_values k v"
  "attr_values k (El t a cs # v) = (case map_of a k of None \<Rightarrow> [] | Some h \<Rightarrow> [h]) @ attr_values k cs @ attr_values k v"
  "attr_values k (v @ w) = attr_values k v @ attr_values k w"
  by (simp_all add: attr_values_def)

lemma closers_simps [simp]:
  "closers [] = 0" "closers (Txt s # v) = closers v"
  "closers (El t a cs # v) = of_bool (t = ''DialogPrimitive.Close'') + closers cs + closers v"
  "closers (v @ w) = closers v + closers w"
  by (auto simp: closers_def with_tag_def)

lemma attr_values_Cons: "attr_values k (n # v) = attr_values k [n] @ attr_values k v"
  using attr_values_simps(4) [of k "[n]" v] by simp

lemma closers_Cons: "closers (n # v) = closers [n] + closers v"
  using closers_simps(4) [of "[n]" v] by simp

text \<open>What is asked of a library of wrappers: it hands on the attributes it does not own.\<close>

locale wrapper_library =
  fixes ui :: "string \<Rightarrow> (props \<Rightarrow> node list \<Rightarrow> node) option"
  assumes hands_on: "ui t = Some f \<Longrightarrow> k \<notin> own_keys \<Longrightarrow>
      attr_values k [f a cs] = (case map_of a k of None \<Rightarrow> [] | Some h \<Rightarrow> [h]) @ attr_values k cs"
begin

lemma attr_values_render: "k \<notin> own_keys \<Longrightarrow> attr_values k [render ui n] = attr_values k [n]"
proof (induction n)
  case (El t a cs)
  then have "attr_values k (map (render ui) cs) = attr_values k cs"
    by (induction cs) (simp, metis attr_values_Cons list.set_intros list.simps(9))
  then show ?case
    using El.prems by (cases "ui t") (simp_all add: hands_on)
qed simp

lemma attr_values_rendered: "k \<notin> own_keys \<Longrightarrow> attr_values k (map (render ui) v) = attr_values k v"
  by (induction v) (simp, metis attr_values_Cons attr_values_render list.simps(9))

end

text \<open>A library with dialogs adds a way to close exactly where the properties ask for one.\<close>

locale dialog_library = wrapper_library +
  assumes closes: "ui t = Some f \<Longrightarrow> closers [f a cs] = of_bool (closing (El t a cs)) + closers cs"
    and covers: "ui t = None \<Longrightarrow> closing (El t a cs) \<longleftrightarrow> t = ''DialogPrimitive.Close''"
begin

lemma closers_render: "closers [render ui n] = length (filter closing (subnodes n))"
proof (induction n)
  case (El t a cs)
  then have "closers (map (render ui) cs) = length (filter closing (concat (map subnodes cs)))"
    by (induction cs) (simp, metis closers_Cons concat.simps(2) filter_append length_append list.set_intros list.simps(9))
  then show ?case
    using closing.simps(2) [of t a cs] closing.simps(2) [of t a "map (render ui) cs"]
    by (cases "ui t") (simp_all add: closes covers del: closing.simps)
qed simp

lemma closers_rendered: "closers (map (render ui) v) = length (filter closing (nodes v))"
proof (induction v)
  case (Cons n v)
  then show ?case using closers_Cons [of "render ui n" "map (render ui) v"] by (simp add: closers_render nodes_def)
qed simp

end

lemmas component_defs = element_def Button_def Badge_def Card_def CardHeader_def CardTitle_def CardDescription_def
  CardAction_def CardContent_def CardFooter_def Table_def site_Table_def TableHeader_def TableBody_def
  TableFooter_def TableRow_def TableHead_def TableCell_def TableCaption_def Input_def Label_def Textarea_def
  Dialog_def DialogTrigger_def DialogPortal_def DialogClose_def DialogOverlay_def DialogContent_def
  DialogHeader_def DialogFooter_def DialogTitle_def DialogDescription_def

interpretation console_wrappers: wrapper_library console_ui
proof
  fix t f k a cs assume "console_ui t = Some f" "k \<notin> own_keys"
  then show "attr_values k [f a cs] = (case map_of a k of None \<Rightarrow> [] | Some h \<Rightarrow> [h]) @ attr_values k cs"
    by (auto simp: console_ui_def component_defs own_keys_def slot_def map_of_spread map_of_without split: if_splits option.splits)
qed

interpretation console_dialogs: dialog_library console_ui
proof
  fix t f a cs assume "console_ui t = Some f"
  then show "closers [f a cs] = of_bool (closing (El t a cs)) + closers cs"
    by (auto simp: console_ui_def component_defs slot_def split: if_splits)
next
  fix t a cs assume "console_ui t = None"
  then show "closing (El t a cs) \<longleftrightarrow> t = ''DialogPrimitive.Close''"
    by (auto simp: console_ui_def split: if_splits)
qed

interpretation site_wrappers: wrapper_library site_ui
proof
  fix t f k a cs assume "site_ui t = Some f" "k \<notin> own_keys"
  then show "attr_values k [f a cs] = (case map_of a k of None \<Rightarrow> [] | Some h \<Rightarrow> [h]) @ attr_values k cs"
    by (auto simp: site_ui_def component_defs own_keys_def slot_def map_of_spread map_of_without split: if_splits option.splits)
qed

section \<open>What rendering keeps\<close>

lemma attr_values_view:
  "attr_values ''href'' v = hrefs v" "attr_values ''id'' v = ids v"
  "length (with_role r v) = length (filter (\<lambda>x. x = AS (js r)) (attr_values ''role'' v))"
proof -
  show "attr_values ''href'' v = hrefs v" "attr_values ''id'' v = ids v"
    by (simp_all add: attr_values_def hrefs_def ids_def)
  have "length (filter (\<lambda>n. node_attr n ''role'' = Some (AS (js r))) ns) =
      length (filter (\<lambda>x. x = AS (js r)) (concat (map (\<lambda>n. case node_attr n ''role'' of None \<Rightarrow> [] | Some h \<Rightarrow> [h]) ns)))"
    for ns by (induction ns) (auto split: option.splits)
  then show "length (with_role r v) = length (filter (\<lambda>x. x = AS (js r)) (attr_values ''role'' v))"
    by (simp add: with_role_def attr_values_def)
qed

lemma semantic_keys: "''href'' \<notin> own_keys" "''id'' \<notin> own_keys" "''role'' \<notin> own_keys" "''disabled'' \<notin> own_keys"
  "''htmlFor'' \<notin> own_keys" "''name'' \<notin> own_keys" "''aria-label'' \<notin> own_keys"
  by (simp_all add: own_keys_def)

lemma rendered_keeps:
  "hrefs (map (render console_ui) v) = hrefs v" "ids (map (render console_ui) v) = ids v"
  "length (with_role r (map (render console_ui) v)) = length (with_role r v)"
  "hrefs (map (render site_ui) v) = hrefs v" "ids (map (render site_ui) v) = ids v"
  "length (with_role r (map (render site_ui) v)) = length (with_role r v)"
  unfolding attr_values_view(1,2) [symmetric] attr_values_view(3)
  by (simp_all add: console_wrappers.attr_values_rendered site_wrappers.attr_values_rendered semantic_keys)

end
