(* ===== verification/SitePrimitives.thy ===== *)
theory SitePrimitives
  imports Primitives
begin

text \<open>
  The presentational components of the site with their class names and the tables their variants come
  from: \<^verbatim>\<open>web/components/ui\<close>. The packages that join and choose class names are parameters. The other
  theories speak of the components without classes (\<open>Primitives\<close>); the locale \<open>only_styles\<close> says what
  makes that right, and it holds of these components.
\<close>

section \<open>Variants\<close>

text \<open>The classes of a component: those it always has, those of each choice on each axis, and the choices made
  when nothing is asked for, as \<^verbatim>\<open>cva\<close> is given them.\<close>

record class_table =
  ct_base :: string
  ct_variants :: "(string \<times> (string \<times> string) list) list"
  ct_defaults :: "(string \<times> string) list"

definition buttonVariants :: class_table where
  "buttonVariants =
     \<lparr>ct_base =
      ''group/button inline-flex shrink-0 items-center justify-center rounded-lg border border-transparent '' @
      ''bg-clip-padding text-sm font-medium whitespace-nowrap transition-all outline-none select-none '' @
      ''focus-visible:border-ring focus-visible:ring-3 focus-visible:ring-ring/50 '' @
      ''active:not-aria-[haspopup]:translate-y-px disabled:pointer-events-none disabled:opacity-50 '' @
      ''aria-invalid:border-destructive aria-invalid:ring-3 aria-invalid:ring-destructive/20 '' @
      ''dark:aria-invalid:border-destructive/50 dark:aria-invalid:ring-destructive/40 '' @
      ''[&_svg]:pointer-events-none [&_svg]:shrink-0 [&_svg:not([class*='size-'])]:size-4'',
     ct_variants =
      [(''variant'',
        [(''default'',
          ''bg-primary text-primary-foreground hover:bg-primary/80''),
         (''outline'',
          ''border-border bg-background hover:bg-muted hover:text-foreground aria-expanded:bg-muted '' @
          ''aria-expanded:text-foreground dark:border-input dark:bg-input/30 dark:hover:bg-input/50''),
         (''secondary'',
          ''bg-secondary text-secondary-foreground '' @
          ''hover:bg-[color-mix(in_oklch,var(--secondary),var(--foreground)_5%)] aria-expanded:bg-secondary '' @
          ''aria-expanded:text-secondary-foreground''),
         (''ghost'',
          ''hover:bg-muted hover:text-foreground aria-expanded:bg-muted aria-expanded:text-foreground '' @
          ''dark:hover:bg-muted/50''),
         (''destructive'',
          ''bg-destructive/10 text-destructive hover:bg-destructive/20 focus-visible:border-destructive/40 '' @
          ''focus-visible:ring-destructive/20 dark:bg-destructive/20 dark:hover:bg-destructive/30 '' @
          ''dark:focus-visible:ring-destructive/40''),
         (''link'',
          ''text-primary underline-offset-4 hover:underline'')]),
       (''size'',
        [(''default'',
          ''h-8 gap-1.5 px-2.5 has-data-[icon=inline-end]:pr-2 has-data-[icon=inline-start]:pl-2''),
         (''xs'',
          ''h-6 gap-1 rounded-[min(var(--radius-md),10px)] px-2 text-xs '' @
          ''in-data-[slot=button-group]:rounded-lg has-data-[icon=inline-end]:pr-1.5 '' @
          ''has-data-[icon=inline-start]:pl-1.5 [&_svg:not([class*='size-'])]:size-3''),
         (''sm'',
          ''h-7 gap-1 rounded-[min(var(--radius-md),12px)] px-2.5 text-[0.8rem] '' @
          ''in-data-[slot=button-group]:rounded-lg has-data-[icon=inline-end]:pr-1.5 '' @
          ''has-data-[icon=inline-start]:pl-1.5 [&_svg:not([class*='size-'])]:size-3.5''),
         (''lg'',
          ''h-9 gap-1.5 px-2.5 has-data-[icon=inline-end]:pr-2 has-data-[icon=inline-start]:pl-2''),
         (''icon'',
          ''size-8''),
         (''icon-xs'',
          ''size-6 rounded-[min(var(--radius-md),10px)] in-data-[slot=button-group]:rounded-lg '' @
          ''[&_svg:not([class*='size-'])]:size-3''),
         (''icon-sm'',
          ''size-7 rounded-[min(var(--radius-md),12px)] in-data-[slot=button-group]:rounded-lg''),
         (''icon-lg'',
          ''size-9'')])],
     ct_defaults = [(''variant'', ''default''), (''size'', ''default'')]\<rparr>"

definition badgeVariants :: class_table where
  "badgeVariants =
     \<lparr>ct_base =
      ''group/badge inline-flex h-5 w-fit shrink-0 items-center justify-center gap-1 overflow-hidden '' @
      ''rounded-4xl border border-transparent px-2 py-0.5 text-xs font-medium whitespace-nowrap '' @
      ''transition-all focus-visible:border-ring focus-visible:ring-[3px] focus-visible:ring-ring/50 '' @
      ''has-data-[icon=inline-end]:pr-1.5 has-data-[icon=inline-start]:pl-1.5 '' @
      ''aria-invalid:border-destructive aria-invalid:ring-destructive/20 '' @
      ''dark:aria-invalid:ring-destructive/40 [&>svg]:pointer-events-none [&>svg]:size-3!'',
     ct_variants =
      [(''variant'',
        [(''default'',
          ''bg-primary text-primary-foreground [a]:hover:bg-primary/80''),
         (''secondary'',
          ''bg-secondary text-secondary-foreground [a]:hover:bg-secondary/80''),
         (''destructive'',
          ''bg-destructive/10 text-destructive focus-visible:ring-destructive/20 dark:bg-destructive/20 '' @
          ''dark:focus-visible:ring-destructive/40 [a]:hover:bg-destructive/20''),
         (''outline'',
          ''border-border text-foreground [a]:hover:bg-muted [a]:hover:text-muted-foreground''),
         (''ghost'',
          ''hover:bg-muted hover:text-muted-foreground dark:hover:bg-muted/50''),
         (''link'',
          ''text-primary underline-offset-4 hover:underline'')])],
     ct_defaults = [(''variant'', ''default'')]\<rparr>"

text \<open>The console has its own copies.\<close>

definition console_buttonVariants :: class_table where
  "console_buttonVariants =
     \<lparr>ct_base =
      ''group/button inline-flex shrink-0 items-center justify-center rounded-lg border border-transparent '' @
      ''bg-clip-padding text-sm font-medium whitespace-nowrap transition-all outline-none select-none '' @
      ''focus-visible:border-ring focus-visible:ring-3 focus-visible:ring-ring/50 '' @
      ''active:not-aria-[haspopup]:translate-y-px disabled:pointer-events-none disabled:opacity-50 '' @
      ''aria-invalid:border-destructive aria-invalid:ring-3 aria-invalid:ring-destructive/20 '' @
      ''dark:aria-invalid:border-destructive/50 dark:aria-invalid:ring-destructive/40 '' @
      ''[&_svg]:pointer-events-none [&_svg]:shrink-0 [&_svg:not([class*='size-'])]:size-4'',
     ct_variants =
      [(''variant'',
        [(''default'',
          ''bg-primary text-primary-foreground hover:bg-primary/80''),
         (''outline'',
          ''border-border bg-background hover:bg-muted hover:text-foreground aria-expanded:bg-muted '' @
          ''aria-expanded:text-foreground dark:border-input dark:bg-input/30 dark:hover:bg-input/50''),
         (''secondary'',
          ''bg-secondary text-secondary-foreground '' @
          ''hover:bg-[color-mix(in_oklch,var(--secondary),var(--foreground)_5%)] aria-expanded:bg-secondary '' @
          ''aria-expanded:text-secondary-foreground''),
         (''ghost'',
          ''hover:bg-muted hover:text-foreground aria-expanded:bg-muted aria-expanded:text-foreground '' @
          ''dark:hover:bg-muted/50''),
         (''destructive'',
          ''bg-destructive/10 text-destructive hover:bg-destructive/20 focus-visible:border-destructive/40 '' @
          ''focus-visible:ring-destructive/20 dark:bg-destructive/20 dark:hover:bg-destructive/30 '' @
          ''dark:focus-visible:ring-destructive/40''),
         (''link'',
          ''text-primary underline-offset-4 hover:underline'')]),
       (''size'',
        [(''default'',
          ''h-8 gap-1.5 px-2.5 has-data-[icon=inline-end]:pr-2 has-data-[icon=inline-start]:pl-2''),
         (''xs'',
          ''h-6 gap-1 rounded-[min(var(--radius-md),10px)] px-2 text-xs '' @
          ''in-data-[slot=button-group]:rounded-lg has-data-[icon=inline-end]:pr-1.5 '' @
          ''has-data-[icon=inline-start]:pl-1.5 [&_svg:not([class*='size-'])]:size-3''),
         (''sm'',
          ''h-7 gap-1 rounded-[min(var(--radius-md),12px)] px-2.5 text-[0.8rem] '' @
          ''in-data-[slot=button-group]:rounded-lg has-data-[icon=inline-end]:pr-1.5 '' @
          ''has-data-[icon=inline-start]:pl-1.5 [&_svg:not([class*='size-'])]:size-3.5''),
         (''lg'',
          ''h-9 gap-1.5 px-2.5 has-data-[icon=inline-end]:pr-2 has-data-[icon=inline-start]:pl-2''),
         (''icon'',
          ''size-8''),
         (''icon-xs'',
          ''size-6 rounded-[min(var(--radius-md),10px)] in-data-[slot=button-group]:rounded-lg '' @
          ''[&_svg:not([class*='size-'])]:size-3''),
         (''icon-sm'',
          ''size-7 rounded-[min(var(--radius-md),12px)] in-data-[slot=button-group]:rounded-lg''),
         (''icon-lg'',
          ''size-9'')])],
     ct_defaults = [(''variant'', ''default''), (''size'', ''default'')]\<rparr>"

definition console_badgeVariants :: class_table where
  "console_badgeVariants =
     \<lparr>ct_base =
      ''group/badge inline-flex h-5 w-fit shrink-0 items-center justify-center gap-1 overflow-hidden '' @
      ''rounded-4xl border border-transparent px-2 py-0.5 text-xs font-medium whitespace-nowrap '' @
      ''transition-all focus-visible:border-ring focus-visible:ring-[3px] focus-visible:ring-ring/50 '' @
      ''has-data-[icon=inline-end]:pr-1.5 has-data-[icon=inline-start]:pl-1.5 '' @
      ''aria-invalid:border-destructive aria-invalid:ring-destructive/20 '' @
      ''dark:aria-invalid:ring-destructive/40 [&>svg]:pointer-events-none [&>svg]:size-3!'',
     ct_variants =
      [(''variant'',
        [(''default'',
          ''bg-primary text-primary-foreground [a]:hover:bg-primary/80''),
         (''secondary'',
          ''bg-secondary text-secondary-foreground [a]:hover:bg-secondary/80''),
         (''destructive'',
          ''bg-destructive/10 text-destructive focus-visible:ring-destructive/20 dark:bg-destructive/20 '' @
          ''dark:focus-visible:ring-destructive/40 [a]:hover:bg-destructive/20''),
         (''outline'',
          ''border-border text-foreground [a]:hover:bg-muted [a]:hover:text-muted-foreground''),
         (''ghost'',
          ''hover:bg-muted hover:text-muted-foreground dark:hover:bg-muted/50''),
         (''link'',
          ''text-primary underline-offset-4 hover:underline'')])],
     ct_defaults = [(''variant'', ''default'')]\<rparr>"

text \<open>Every choice a component makes by itself is in its table.\<close>

definition defaults_exist :: "class_table \<Rightarrow> bool" where
  "defaults_exist ct \<longleftrightarrow> list_all (\<lambda>(axis, choice). \<exists>cs. map_of (ct_variants ct) axis = Some cs \<and> map_of cs choice \<noteq> None) (ct_defaults ct)"

lemma variant_tables_sound: "defaults_exist buttonVariants" "defaults_exist badgeVariants"
  by (simp_all add: defaults_exist_def buttonVariants_def badgeVariants_def)

text \<open>The copies in the two packages have not drifted apart.\<close>

lemma variant_tables_agree: "console_buttonVariants = buttonVariants" "console_badgeVariants = badgeVariants"
  by (simp_all only: console_buttonVariants_def buttonVariants_def console_badgeVariants_def badgeVariants_def)

section \<open>The components\<close>

text \<open>
  \<open>cn\<close> joins class names, \<open>cva\<close> chooses them from a table; both are packages. An absent class name is
  \<^term>\<open>None\<close>.
\<close>

type_synonym joiner = "attr option list \<Rightarrow> jstr"
type_synonym chooser = "class_table \<Rightarrow> props \<Rightarrow> jstr"

definition classed :: "jstr \<Rightarrow> string \<times> attr" where
  "classed s = (''className'', AS s)"

definition given :: "string \<Rightarrow> props \<Rightarrow> props" where
  "given k a = (case map_of a k of None \<Rightarrow> [] | Some v \<Rightarrow> [(k, v)])"

definition or_default :: "string \<Rightarrow> props \<Rightarrow> attr" where
  "or_default k a = nullish (map_of a k) (AS (js ''default''))"

text \<open>An element with its slot, its own classes and the caller's.\<close>

definition styled :: "joiner \<Rightarrow> string \<Rightarrow> string \<Rightarrow> string \<Rightarrow> props \<Rightarrow> node list \<Rightarrow> node" where
  "styled cn t s own a cs =
     El t (spread [slot s, classed (cn [Some (AS (js own)), map_of a ''className''])] (without [''className''] a)) cs"

definition site_Button :: "joiner \<Rightarrow> chooser \<Rightarrow> props \<Rightarrow> node list \<Rightarrow> node" where
  "site_Button cn cva a cs =
     El ''ButtonPrimitive''
       (spread [slot ''button'',
          classed (cn [Some (AS (cva buttonVariants
            ([(''variant'', or_default ''variant'' a), (''size'', or_default ''size'' a)] @ given ''className'' a)))])]
          (without [''className'', ''variant'', ''size''] a)) cs"

text \<open>\<open>mergeProps\<close> joins the caller's properties to the component's; the class name is not among them any more.\<close>

definition site_Badge :: "joiner \<Rightarrow> chooser \<Rightarrow> props \<Rightarrow> node list \<Rightarrow> node" where
  "site_Badge cn cva a cs =
     El ''span''
       (spread [slot ''badge'', (''data-variant'', or_default ''variant'' a),
          classed (cn [Some (AS (cva badgeVariants [(''variant'', or_default ''variant'' a)])), map_of a ''className''])]
          (without [''className'', ''variant'', ''render''] a)) cs"

definition site_Card :: "joiner \<Rightarrow> props \<Rightarrow> node list \<Rightarrow> node" where
  "site_Card cn a cs =
     El ''div'' (spread [slot ''card'', (''data-size'', or_default ''size'' a),
       classed (cn [Some (AS (js (
      ''group/card flex flex-col gap-(--card-spacing) overflow-hidden rounded-xl bg-card py-(--card-spacing) '' @
      ''text-sm text-card-foreground ring-1 ring-foreground/10 [--card-spacing:--spacing(4)] '' @
      ''has-data-[slot=card-footer]:pb-0 has-[>img:first-child]:pt-0 '' @
      ''data-[size=sm]:[--card-spacing:--spacing(3)] data-[size=sm]:has-data-[slot=card-footer]:pb-0 '' @
      ''*:[img:first-child]:rounded-t-xl *:[img:last-child]:rounded-b-xl''))), map_of a ''className''])]
       (without [''className'', ''size''] a)) cs"

definition site_CardHeader :: "joiner \<Rightarrow> props \<Rightarrow> node list \<Rightarrow> node" where
  "site_CardHeader cn = styled cn ''div'' ''card-header''
      (''group/card-header @container/card-header grid auto-rows-min items-start gap-1 rounded-t-xl '' @
      ''px-(--card-spacing) has-data-[slot=card-action]:grid-cols-[1fr_auto] '' @
      ''has-data-[slot=card-description]:grid-rows-[auto_auto] [.border-b]:pb-(--card-spacing)'')"

definition site_CardTitle :: "joiner \<Rightarrow> props \<Rightarrow> node list \<Rightarrow> node" where
  "site_CardTitle cn = styled cn ''div'' ''card-title''
      ''font-heading text-base leading-snug font-medium group-data-[size=sm]/card:text-sm''"

definition site_CardDescription :: "joiner \<Rightarrow> props \<Rightarrow> node list \<Rightarrow> node" where
  "site_CardDescription cn = styled cn ''div'' ''card-description''
      ''text-sm text-muted-foreground''"

definition site_CardAction :: "joiner \<Rightarrow> props \<Rightarrow> node list \<Rightarrow> node" where
  "site_CardAction cn = styled cn ''div'' ''card-action''
      ''col-start-2 row-span-2 row-start-1 self-start justify-self-end''"

definition site_CardContent :: "joiner \<Rightarrow> props \<Rightarrow> node list \<Rightarrow> node" where
  "site_CardContent cn = styled cn ''div'' ''card-content''
      ''px-(--card-spacing)''"

definition site_CardFooter :: "joiner \<Rightarrow> props \<Rightarrow> node list \<Rightarrow> node" where
  "site_CardFooter cn = styled cn ''div'' ''card-footer''
      ''flex items-center rounded-b-xl border-t bg-muted/50 p-(--card-spacing)''"

definition styled_Table :: "joiner \<Rightarrow> props \<Rightarrow> node list \<Rightarrow> node" where
  "styled_Table cn a cs =
     El ''div'' [slot ''table-container'', classed (js ''relative w-full overflow-x-auto'')]
       [styled cn ''table'' ''table'' ''w-full caption-bottom text-sm'' a cs]"

definition site_TableHeader :: "joiner \<Rightarrow> props \<Rightarrow> node list \<Rightarrow> node" where
  "site_TableHeader cn = styled cn ''thead'' ''table-header''
      ''[&_tr]:border-b''"

definition site_TableBody :: "joiner \<Rightarrow> props \<Rightarrow> node list \<Rightarrow> node" where
  "site_TableBody cn = styled cn ''tbody'' ''table-body''
      ''[&_tr:last-child]:border-0''"

definition site_TableFooter :: "joiner \<Rightarrow> props \<Rightarrow> node list \<Rightarrow> node" where
  "site_TableFooter cn = styled cn ''tfoot'' ''table-footer''
      ''border-t bg-muted/50 font-medium [&>tr]:last:border-b-0''"

definition site_TableRow :: "joiner \<Rightarrow> props \<Rightarrow> node list \<Rightarrow> node" where
  "site_TableRow cn = styled cn ''tr'' ''table-row''
      (''border-b transition-colors hover:bg-muted/50 has-aria-expanded:bg-muted/50 '' @
      ''data-[state=selected]:bg-muted'')"

definition site_TableHead :: "joiner \<Rightarrow> props \<Rightarrow> node list \<Rightarrow> node" where
  "site_TableHead cn = styled cn ''th'' ''table-head''
      (''h-10 px-2 text-left align-middle font-medium whitespace-nowrap text-foreground '' @
      ''[&:has([role=checkbox])]:pr-0'')"

definition site_TableCell :: "joiner \<Rightarrow> props \<Rightarrow> node list \<Rightarrow> node" where
  "site_TableCell cn = styled cn ''td'' ''table-cell''
      ''p-2 align-middle whitespace-nowrap [&:has([role=checkbox])]:pr-0''"

definition site_TableCaption :: "joiner \<Rightarrow> props \<Rightarrow> node list \<Rightarrow> node" where
  "site_TableCaption cn = styled cn ''caption'' ''table-caption''
      ''mt-4 text-sm text-muted-foreground''"

definition site_Input :: "joiner \<Rightarrow> props \<Rightarrow> node list \<Rightarrow> node" where
  "site_Input cn a cs =
     El ''InputPrimitive''
       (spread (given ''type'' a @ [slot ''input'', classed (cn [Some (AS (js (
      ''h-8 w-full min-w-0 rounded-lg border border-input bg-transparent px-2.5 py-1 text-base '' @
      ''transition-colors outline-none file:inline-flex file:h-6 file:border-0 file:bg-transparent '' @
      ''file:text-sm file:font-medium file:text-foreground placeholder:text-muted-foreground '' @
      ''focus-visible:border-ring focus-visible:ring-3 focus-visible:ring-ring/50 '' @
      ''disabled:pointer-events-none disabled:cursor-not-allowed disabled:bg-input/50 disabled:opacity-50 '' @
      ''aria-invalid:border-destructive aria-invalid:ring-3 aria-invalid:ring-destructive/20 md:text-sm '' @
      ''dark:bg-input/30 dark:disabled:bg-input/80 dark:aria-invalid:border-destructive/50 '' @
      ''dark:aria-invalid:ring-destructive/40''))), map_of a ''className''])])
          (without [''className'', ''type''] a)) cs"

definition site_Label :: "joiner \<Rightarrow> props \<Rightarrow> node list \<Rightarrow> node" where
  "site_Label cn = styled cn ''label'' ''label''
      (''flex items-center gap-2 text-sm leading-none font-medium select-none '' @
      ''group-data-[disabled=true]:pointer-events-none group-data-[disabled=true]:opacity-50 '' @
      ''peer-disabled:cursor-not-allowed peer-disabled:opacity-50'')"

definition site_Textarea :: "joiner \<Rightarrow> props \<Rightarrow> node list \<Rightarrow> node" where
  "site_Textarea cn = styled cn ''textarea'' ''textarea''
      (''flex field-sizing-content min-h-16 w-full rounded-lg border border-input bg-transparent px-2.5 py-2 '' @
      ''text-base transition-colors outline-none placeholder:text-muted-foreground focus-visible:border-ring '' @
      ''focus-visible:ring-3 focus-visible:ring-ring/50 disabled:cursor-not-allowed disabled:bg-input/50 '' @
      ''disabled:opacity-50 aria-invalid:border-destructive aria-invalid:ring-3 '' @
      ''aria-invalid:ring-destructive/20 md:text-sm dark:bg-input/30 dark:disabled:bg-input/80 '' @
      ''dark:aria-invalid:border-destructive/50 dark:aria-invalid:ring-destructive/40'')"

definition styled_ui :: "joiner \<Rightarrow> chooser \<Rightarrow> string \<Rightarrow> (props \<Rightarrow> node list \<Rightarrow> node) option" where
  "styled_ui cn cva = map_of
     [(''Button'', site_Button cn cva), (''Badge'', site_Badge cn cva), (''Card'', site_Card cn),
      (''CardHeader'', site_CardHeader cn), (''CardTitle'', site_CardTitle cn),
      (''CardDescription'', site_CardDescription cn), (''CardAction'', site_CardAction cn),
      (''CardContent'', site_CardContent cn), (''CardFooter'', site_CardFooter cn),
      (''Table'', styled_Table cn), (''TableHeader'', site_TableHeader cn), (''TableBody'', site_TableBody cn),
      (''TableFooter'', site_TableFooter cn), (''TableRow'', site_TableRow cn),
      (''TableHead'', site_TableHead cn), (''TableCell'', site_TableCell cn),
      (''TableCaption'', site_TableCaption cn), (''Input'', site_Input cn), (''Label'', site_Label cn),
      (''Textarea'', site_Textarea cn)]"

section \<open>Styles carry no behaviour\<close>

fun unstyled :: "node \<Rightarrow> node" where
  "unstyled (Txt s) = Txt s"
| "unstyled (El t a cs) = El t (without [''className''] a) (map unstyled cs)"

lemma without_append: "without ks (a @ b) = without ks a @ without ks b"
  by (simp add: without_def)

lemma without_spread: "without ks (spread own a) = spread (without ks own) (without ks a)"
proof -
  have "k \<in> fst ` set (without ks a) \<longleftrightarrow> k \<in> fst ` set a \<and> k \<notin> set ks" for k
    by (force simp: without_def)
  then have "filter (\<lambda>(k, v). k \<notin> set ks) (filter (\<lambda>(k, v). k \<notin> fst ` set a) own) =
      filter (\<lambda>(k, v). k \<notin> fst ` set (without ks a)) (filter (\<lambda>(k, v). k \<notin> set ks) own)"
    by (induction own) auto
  then show ?thesis by (simp add: spread_def without_append) (simp add: without_def)
qed

lemma without_own [simp]:
  "without [''className''] (classed s # a) = without [''className''] a"
  "without [''className''] (slot t # a) = slot t # without [''className''] a"
  "without [''className''] ((''data-variant'', v) # a) = (''data-variant'', v) # without [''className''] a"
  "without [''className''] ((''data-size'', v) # a) = (''data-size'', v) # without [''className''] a"
  "without [''className''] ((''type'', v) # a) = (''type'', v) # without [''className''] a"
  "without ks [] = []"
  by (simp_all add: without_def classed_def slot_def)

lemma without_type [simp]: "without [''className''] (given ''type'' a) = given ''type'' a"
  by (simp add: without_def given_def split: option.split)

text \<open>
  What one library of wrappers adds to another when it only styles: the same tags are wrapped, and
  with the class names taken out of both results they are the same.
\<close>

locale only_styles =
  fixes fancy plain :: "string \<Rightarrow> (props \<Rightarrow> node list \<Rightarrow> node) option"
  assumes same_tags: "fancy t = None \<longleftrightarrow> plain t = None"
    and same_result: "fancy t = Some f \<Longrightarrow> plain t = Some g \<Longrightarrow> map unstyled cs = map unstyled ds \<Longrightarrow>
      unstyled (f a cs) = unstyled (g a ds)"
begin

lemma unstyled_render: "unstyled (render fancy n) = unstyled (render plain n)"
proof (induction n)
  case (El t a cs)
  have children: "map unstyled (map (render fancy) cs) = map unstyled (map (render plain) cs)"
    by (simp add: El)
  show ?case
  proof (cases "fancy t")
    case None
    with children same_tags [of t] show ?thesis by simp
  next
    case (Some f)
    then obtain g where g: "plain t = Some g" using same_tags [of t] by auto
    from same_result [OF Some g children] show ?thesis by (simp only: render.simps Some g option.case)
  qed
qed simp

lemma unstyled_rendered: "map unstyled (map (render fancy) v) = map unstyled (map (render plain) v)"
  by (simp add: unstyled_render)

end

lemmas styled_defs = styled_def site_Button_def site_Badge_def site_Card_def site_CardHeader_def site_CardTitle_def
  site_CardDescription_def site_CardAction_def site_CardContent_def site_CardFooter_def styled_Table_def
  site_TableHeader_def site_TableBody_def site_TableFooter_def site_TableRow_def site_TableHead_def
  site_TableCell_def site_TableCaption_def site_Input_def site_Label_def site_Textarea_def

interpretation site_styles: only_styles "styled_ui cn cva" site_ui
proof
  fix t show "styled_ui cn cva t = None \<longleftrightarrow> site_ui t = None"
    by (simp add: styled_ui_def site_ui_def)
next
  fix t f g a cs ds
  assume "styled_ui cn cva t = Some f" "site_ui t = Some g" "map unstyled cs = map unstyled ds"
  then show "unstyled (f a cs) = unstyled (g a ds)"
    by (auto simp: styled_ui_def site_ui_def styled_defs component_defs or_default_def without_spread without_append
        given_def split: if_splits option.splits)
qed

interpretation styled_wrappers: wrapper_library "styled_ui cn cva"
proof
  fix t f k a cs assume "styled_ui cn cva t = Some f" "k \<notin> own_keys"
  then show "attr_values k [f a cs] = (case map_of a k of None \<Rightarrow> [] | Some h \<Rightarrow> [h]) @ attr_values k cs"
    by (auto simp: styled_ui_def styled_defs own_keys_def slot_def classed_def given_def map_of_spread map_of_without
        split: if_splits option.splits)
qed

text \<open>What the browser gets of the site, classes and all, has the links, ids and roles of the view.\<close>

lemma styled_keeps:
  "hrefs (map (render (styled_ui cn cva)) v) = hrefs v" "ids (map (render (styled_ui cn cva)) v) = ids v"
  "length (with_role r (map (render (styled_ui cn cva)) v)) = length (with_role r v)"
  unfolding attr_values_view(1,2) [symmetric] attr_values_view(3)
  by (simp_all add: styled_wrappers.attr_values_rendered semantic_keys)

end
