(* ===== verification/ConsoleApi.thy ===== *)
theory ConsoleApi
  imports Json View
begin

text \<open>
  \<^verbatim>\<open>console/src/api.ts\<close> and \<^verbatim>\<open>console/src/types.ts\<close>: the one function that talks to the control
  plane, and the shapes of what it returns. \<open>fetch\<close> belongs to the browser and is a parameter: a
  function from requests to a rejection or a response. A response carries the value of its body
  when that is JSON (\<open>res.json()\<close> rejects otherwise).
\<close>

section \<open>What the control plane returns\<close>

record me =
  me_user :: jstr
  me_expiresAt :: jstr
  me_signingKeyId :: "jstr option"

record revision =
  rev_seq :: int
  rev_version :: jstr
  rev_ruleSet :: json
  rev_createdAt :: jstr
  rev_createdBy :: "jstr option"

record machine =
  mc_id :: jstr
  mc_user :: jstr
  mc_name :: "jstr option"
  mc_os :: "jstr option"
  mc_enrolledAt :: jstr
  mc_lastSeenAt :: jstr
  mc_lastBundleVersion :: "jstr option"
  mc_lastKeyId :: "jstr option"

record scim_counts =
  sc_users :: int
  sc_activeUsers :: int
  sc_groups :: int

record groups_view =
  gv_hasSnapshot :: bool
  gv_source :: "jstr option"
  gv_appliedBy :: "jstr option"
  gv_syncedAt :: "jstr option"
  gv_users :: "int option"
  gv_groups :: "int option"
  gv_members :: "(jstr \<times> jstr list) list option"
  gv_scim :: "scim_counts option"

record group_sources =
  gs_user :: jstr
  gs_authored :: "jstr list"
  gs_snapshot :: "jstr list"
  gs_scim :: "jstr list"
  gs_effective :: "jstr list"
  gs_scimNearMatch :: "jstr option"

record audit_event =
  ae_id :: int
  ae_at :: jstr
  ae_actor :: jstr
  ae_action :: jstr
  ae_target :: "jstr option"
  ae_detail :: "json option"

record enrollment_token =
  et_token :: jstr
  et_user :: jstr
  et_expiresAt :: jstr

section \<open>Requests\<close>

record http_request =
  h_method :: jstr
  h_path :: jstr
  h_credentials :: jstr
  h_headers :: "(jstr \<times> jstr) list"
  h_body :: "jstr option"

record http_response =
  p_status :: nat
  p_statusText :: jstr
  p_json :: "json option"

type_synonym fetch = "http_request \<Rightarrow> js_error + http_response"

definition mk_request :: "jstr \<Rightarrow> jstr \<Rightarrow> json option \<Rightarrow> http_request" where
  "mk_request method path body =
     \<lparr>h_method = method, h_path = path, h_credentials = js ''same-origin'',
      h_headers = (if body = None then [] else [(js ''Content-Type'', js ''application/json'')]),
      h_body = map_option stringify body\<rparr>"

definition res_ok :: "http_response \<Rightarrow> bool" where
  "res_ok res \<longleftrightarrow> 200 \<le> p_status res \<and> p_status res \<le> 299"

text \<open>\<open>String(v)\<close>, which the \<open>Error\<close> constructor applies to its message.\<close>

fun js_to_string :: "json \<Rightarrow> jstr" where
  "js_to_string JNull = js ''null''"
| "js_to_string (JBool b) = (if b then js ''true'' else js ''false'')"
| "js_to_string (JNum l) = l"
| "js_to_string (JStr s) = s"
| "js_to_string (JArr xs) = join [44] (map (\<lambda>x. if x = JNull then [] else js_to_string x) xs)"
| "js_to_string (JObj kvs) = js ''[object Object]''"

text \<open>Reading a property of \<open>null\<close> throws; the message is the browser's.\<close>

definition null_read :: js_error where
  "null_read = PlainError (js ''Cannot read properties of null (reading '' @ [39] @ js ''error'' @ [39] @ js '')'')"

definition api_error :: "http_response \<Rightarrow> json \<Rightarrow> js_error" where
  "api_error res data =
     (if data = JNull then null_read
      else ApiError (p_status res)
        (case json_field data (js ''error'') of
           None \<Rightarrow> p_statusText res
         | Some v \<Rightarrow> if v = JNull then p_statusText res else js_to_string v))"

text \<open>The result is \<^term>\<open>Inr None\<close> for \<open>undefined\<close>.\<close>

definition request :: "fetch \<Rightarrow> jstr \<Rightarrow> jstr \<Rightarrow> json option \<Rightarrow> js_error + json option" where
  "request fetch method path body =
     (case fetch (mk_request method path body) of
        Inl e \<Rightarrow> Inl e
      | Inr res \<Rightarrow>
          (if p_status res = 204 then Inr None
           else
             (let data = nullish (p_json res) (JObj []) in
              if \<not> res_ok res then Inl (api_error res data) else Inr (Some data))))"

definition api_get :: "fetch \<Rightarrow> jstr \<Rightarrow> js_error + json option" where
  "api_get fetch path = request fetch (js ''GET'') path None"

definition api_post :: "fetch \<Rightarrow> jstr \<Rightarrow> json option \<Rightarrow> js_error + json option" where
  "api_post fetch path body = request fetch (js ''POST'') path body"

definition api_put :: "fetch \<Rightarrow> jstr \<Rightarrow> json option \<Rightarrow> js_error + json option" where
  "api_put fetch path body = request fetch (js ''PUT'') path body"

definition api_del :: "fetch \<Rightarrow> jstr \<Rightarrow> js_error + json option" where
  "api_del fetch path = request fetch (js ''DELETE'') path None"

section \<open>Lemmas\<close>

text \<open>A rejection of \<open>fetch\<close> itself is never an \<open>ApiError\<close>: that class is the console's own.\<close>

definition browser_fetch :: "fetch \<Rightarrow> bool" where
  "browser_fetch fetch \<longleftrightarrow> (\<forall>req s m. fetch req \<noteq> Inl (ApiError s m))"

lemma null_read_not_api [simp]: "null_read \<noteq> ApiError s m"
  by (simp add: null_read_def)

lemma request_InlD:
  assumes "browser_fetch fetch" "request fetch method path body = Inl (ApiError s m)"
  obtains res where "fetch (mk_request method path body) = Inr res" "\<not> res_ok res" "p_status res = s"
    "p_json res \<noteq> Some JNull" "api_error res (nullish (p_json res) (JObj [])) = ApiError s m"
proof (cases "fetch (mk_request method path body)")
  case (Inl e)
  with assms show thesis by (auto simp: request_def browser_fetch_def)
next
  case (Inr res)
  from assms(2) have a: "\<not> res_ok res" "api_error res (nullish (p_json res) (JObj [])) = ApiError s m"
    unfolding request_def Inr by (auto simp: Let_def split: if_splits)
  then have n: "nullish (p_json res) (JObj []) \<noteq> JNull" by (auto simp: api_error_def)
  then have "p_status res = s" using a(2) by (simp add: api_error_def)
  moreover have "p_json res \<noteq> Some JNull" using n by auto
  ultimately show thesis using that [OF Inr a(1)] a(2) by blast
qed

lemma request_error_status:
  assumes "fetch (mk_request method path body) = Inr res" "\<not> res_ok res" "p_json res \<noteq> Some JNull"
  shows "\<exists>m. request fetch method path body = Inl (ApiError (p_status res) m)"
proof -
  have "p_status res \<noteq> 204" using assms(2) by (auto simp: res_ok_def)
  moreover have "nullish (p_json res) (JObj []) \<noteq> JNull"
    using assms(3) by (cases "p_json res") auto
  ultimately show ?thesis using assms(1,2) by (simp add: request_def Let_def api_error_def)
qed

section \<open>Properties\<close>

text \<open>An \<open>ApiError\<close> reports exactly an answer of the server: a request fails with one of status
  \<open>s\<close> if and only if the server answered \<open>s\<close>, outside 200 to 299, with a body that is not the JSON
  value null. So the session gate can trust the status it reads.\<close>

theorem api_error_iff:
  assumes "browser_fetch fetch"
  shows "(\<exists>m. request fetch method path body = Inl (ApiError s m)) \<longleftrightarrow>
    (\<exists>res. fetch (mk_request method path body) = Inr res \<and> p_status res = s \<and> \<not> (200 \<le> s \<and> s \<le> 299) \<and>
       p_json res \<noteq> Some JNull)"
proof
  assume "\<exists>m. request fetch method path body = Inl (ApiError s m)"
  then obtain m where "request fetch method path body = Inl (ApiError s m)" ..
  from request_InlD [OF assms this] show "\<exists>res. fetch (mk_request method path body) = Inr res \<and> p_status res = s \<and>
      \<not> (200 \<le> s \<and> s \<le> 299) \<and> p_json res \<noteq> Some JNull"
    by (metis res_ok_def)
next
  assume "\<exists>res. fetch (mk_request method path body) = Inr res \<and> p_status res = s \<and>
      \<not> (200 \<le> s \<and> s \<le> 299) \<and> p_json res \<noteq> Some JNull"
  then show "\<exists>m. request fetch method path body = Inl (ApiError s m)"
    using request_error_status by (metis res_ok_def)
qed

definition sample_fetch :: fetch where
  "sample_fetch req = Inr \<lparr>p_status = 401, p_statusText = js ''Unauthorized'', p_json = None\<rparr>"

theorem api_error_iff_witness:
  "\<exists>m. request sample_fetch (js ''GET'') (js ''/console/api/me'') None = Inl (ApiError 401 m)"
proof -
  have "browser_fetch sample_fetch" by (simp add: browser_fetch_def sample_fetch_def)
  then show ?thesis by (subst api_error_iff) (simp_all add: sample_fetch_def)
qed

text \<open>What the console sends is what the control plane reads: the body of a request is JSON text
  that reads back as the value given, it is announced as JSON, a request without a value has
  neither body nor header, and every request carries the session of this origin only.\<close>

theorem request_body_faithful:
  assumes "wf_json v"
  shows "map_option read_json (h_body (mk_request method path (Some v))) = Some (Some v) \<and>
    h_headers (mk_request method path (Some v)) = [(js ''Content-Type'', js ''application/json'')] \<and>
    h_body (mk_request method path None) = None \<and> h_headers (mk_request method path None) = [] \<and>
    h_credentials (mk_request method path b) = js ''same-origin''"
  using plain.read_json_text [OF assms] by (simp add: mk_request_def stringify_def)

theorem request_body_faithful_witness:
  "map_option read_json (h_body (mk_request (js ''POST'') (js ''/v1/enrollment-tokens'')
     (Some (JObj [(js ''ttl'', JStr (js ''24h''))])))) = Some (Some (JObj [(js ''ttl'', JStr (js ''24h''))]))"
  using request_body_faithful [of "JObj [(js ''ttl'', JStr (js ''24h''))]"]
  by (simp add: json_text_def js_def)

end
