(* ===== verification/PolicyEditor.thy ===== *)
theory PolicyEditor
  imports ConsoleApi
begin

text \<open>
  \<^verbatim>\<open>console/src/policy\<close>: reading a policy (\<^verbatim>\<open>yaml.ts\<close>), showing a change (\<^verbatim>\<open>diff.tsx\<close>) and the
  editor component (\<^verbatim>\<open>editor.tsx\<close>). Three third-party packages do the work underneath and are
  parameters: the YAML parser and printer, the line diff, and CodeMirror's documents. What their
  documentation promises of the last two is stated by the locales \<open>line_diff\<close> and \<open>code_editor\<close>.
\<close>

section \<open>Reading a policy\<close>

text \<open>
  A parsed document: its errors with the line of the first position, if any, and what \<open>toJS\<close> makes of
  it, which throws for some documents without errors (an alias that expands too often). Numbers that
  JSON has no text for (\<open>.nan\<close>, \<open>.inf\<close>) are what \<open>JSON.stringify\<close> writes for them, \<^term>\<open>JNull\<close>.
\<close>

record yaml_doc =
  yd_errors :: "(jstr \<times> nat option) list"
  yd_value :: "json option"

datatype parsed = ParsedOk json | ParseError jstr nat | ParseThrows

definition last_line :: "jstr \<Rightarrow> nat" where
  "last_line t = length (split_char LF t) - (if ends_with [LF] t then 1 else 0)"

definition parsePolicy :: "(jstr \<Rightarrow> yaml_doc) \<Rightarrow> jstr \<Rightarrow> parsed" where
  "parsePolicy parseDocument t =
     (if trim t = [] then ParseError (js ''The document is empty.'') 1
      else
        (let doc = parseDocument t in
         (case yd_errors doc of
            [] \<Rightarrow> (case yd_value doc of None \<Rightarrow> ParseThrows | Some v \<Rightarrow> ParsedOk v)
          | (message, pos) # es \<Rightarrow> ParseError message (min (nullish pos 1) (max (last_line t) 1)))))"

section \<open>Showing a change\<close>

record diff_part =
  dp_value :: jstr
  dp_added :: bool
  dp_removed :: bool

datatype mark = Added | Removed | Unchanged

definition part_mark :: "diff_part \<Rightarrow> mark" where
  "part_mark p = (if dp_added p then Added else if dp_removed p then Removed else Unchanged)"

fun mark_text :: "mark \<Rightarrow> jstr" where
  "mark_text Added = js ''+ ''"
| "mark_text Removed = js ''- ''"
| "mark_text Unchanged = js ''  ''"

text \<open>\<open>s.replace(/\n$/, "")\<close>.\<close>

definition drop_last_newline :: "jstr \<Rightarrow> jstr" where
  "drop_last_newline s = nullish (strip_suffix [LF] s) s"

definition part_rows :: "diff_part \<Rightarrow> (mark \<times> jstr) list" where
  "part_rows p = map (\<lambda>line. (part_mark p, line)) (split_char LF (drop_last_newline (dp_value p)))"

definition diff_rows :: "(jstr \<Rightarrow> jstr \<Rightarrow> diff_part list) \<Rightarrow> jstr \<Rightarrow> jstr \<Rightarrow> (mark \<times> jstr) list" where
  "diff_rows diffLines before after = concat (map part_rows (diffLines before after))"

definition LineDiff :: "(jstr \<Rightarrow> jstr \<Rightarrow> diff_part list) \<Rightarrow> jstr \<Rightarrow> jstr \<Rightarrow> node" where
  "LineDiff diffLines before after =
     El ''pre'' [(''aria-label'', AS (js ''Changes''))]
       (map (\<lambda>(m, line). El ''div'' [] [Txt (mark_text m @ line)]) (diff_rows diffLines before after))"

definition newline_ended :: "jstr \<Rightarrow> bool" where
  "newline_ended s \<longleftrightarrow> s \<noteq> [] \<and> last s = LF"

locale line_diff =
  fixes diffLines :: "jstr \<Rightarrow> jstr \<Rightarrow> diff_part list"
  assumes before_kept: "concat (map dp_value (filter (\<lambda>p. \<not> dp_added p) (diffLines before after))) = before"
    and after_kept: "concat (map dp_value (filter (\<lambda>p. \<not> dp_removed p) (diffLines before after))) = after"
    and whole_lines: "newline_ended before \<Longrightarrow> newline_ended after \<Longrightarrow> p \<in> set (diffLines before after) \<Longrightarrow>
      newline_ended (dp_value p) \<and> \<not> (dp_added p \<and> dp_removed p)"

text \<open>The lines of a text whose last line ends with a newline.\<close>

definition text_lines :: "jstr \<Rightarrow> jstr list" where
  "text_lines s = (if s = [] then [] else split_char LF (drop_last_newline s))"

lemma drop_last_newline_snoc [simp]: "drop_last_newline (s @ [LF]) = s"
  by (simp add: drop_last_newline_def)

lemma newline_endedE:
  assumes "newline_ended s" obtains t where "s = t @ [LF]"
  using assms by (metis newline_ended_def append_butlast_last_id)

lemma text_lines_append:
  assumes "newline_ended s" "t = [] \<or> newline_ended t"
  shows "text_lines (s @ t) = text_lines s @ text_lines t"
proof (cases "t = []")
  case False
  with assms obtain s' t' where "s = s' @ [LF]" "t = t' @ [LF]" by (meson newline_endedE)
  then have "s @ t = (s' @ LF # t') @ [LF]" by simp
  then have "drop_last_newline (s @ t) = s' @ LF # t'" by (metis drop_last_newline_snoc)
  with \<open>s = s' @ [LF]\<close> \<open>t = t' @ [LF]\<close> show ?thesis
    by (simp add: text_lines_def split_char_append_sep del: append_assoc)
qed (simp add: text_lines_def)

lemma concat_newline_ended: "list_all newline_ended vs \<Longrightarrow> concat vs = [] \<or> newline_ended (concat vs)"
  by (induction vs) (auto simp: newline_ended_def last_append simp del: concat_eq_Nil_conv)

lemma text_lines_concat: "list_all newline_ended vs \<Longrightarrow> text_lines (concat vs) = concat (map text_lines vs)"
proof (induction vs)
  case (Cons v vs)
  then show ?case using text_lines_append [OF _ concat_newline_ended, of v vs] by simp
qed (simp add: text_lines_def)

lemma part_rows_lines: "newline_ended (dp_value p) \<Longrightarrow> part_rows p = map (Pair (part_mark p)) (text_lines (dp_value p))"
  by (auto simp: part_rows_def text_lines_def newline_ended_def)

lemma diff_rows_side:
  assumes parts: "\<forall>p \<in> set ps. newline_ended (dp_value p)" and side: "\<And>p. p \<in> set ps \<Longrightarrow> keep (part_mark p) \<longleftrightarrow> sel p"
  shows "map snd (filter (\<lambda>(m, l). keep m) (concat (map part_rows ps))) =
    text_lines (concat (map dp_value (filter sel ps)))"
proof -
  have all: "list_all newline_ended (map dp_value (filter sel ps))"
    using parts by (auto simp: list_all_iff)
  have "map snd (filter (\<lambda>(m, l). keep m) (part_rows p)) = (if sel p then text_lines (dp_value p) else [])"
    if "p \<in> set ps" for p
    using that parts side [OF that] by (auto simp: part_rows_lines filter_map comp_def)
  then have "map snd (filter (\<lambda>(m, l). keep m) (concat (map part_rows ps))) =
      concat (map (\<lambda>p. if sel p then text_lines (dp_value p) else []) ps)"
    by (simp add: filter_concat map_concat comp_def cong: map_cong)
  also have "\<dots> = concat (map text_lines (map dp_value (filter sel ps)))"
    by (induction ps) auto
  also have "\<dots> = text_lines (concat (map dp_value (filter sel ps)))"
    by (rule text_lines_concat [OF all, symmetric])
  finally show ?thesis .
qed

context line_diff
begin

lemma rows_show_both:
  assumes "newline_ended before" "newline_ended after"
  shows "map snd (filter (\<lambda>(m, l). m \<noteq> Added) (diff_rows diffLines before after)) = text_lines before"
    and "map snd (filter (\<lambda>(m, l). m \<noteq> Removed) (diff_rows diffLines before after)) = text_lines after"
proof -
  note w = whole_lines [OF assms]
  have parts: "\<forall>p \<in> set (diffLines before after). newline_ended (dp_value p)"
    using w by blast
  show "map snd (filter (\<lambda>(m, l). m \<noteq> Added) (diff_rows diffLines before after)) = text_lines before"
    unfolding diff_rows_def
    by (subst diff_rows_side [OF parts, where sel = "\<lambda>p. \<not> dp_added p"])
      (auto simp: part_mark_def before_kept)
  show "map snd (filter (\<lambda>(m, l). m \<noteq> Removed) (diff_rows diffLines before after)) = text_lines after"
    unfolding diff_rows_def
    by (subst diff_rows_side [OF parts, where sel = "\<lambda>p. \<not> dp_removed p"])
      (use w in \<open>auto simp: part_mark_def after_kept\<close>)
qed

end

text \<open>The coarsest diff that keeps the promises: all of one text removed, all of the other added.\<close>

definition coarse_diff :: "jstr \<Rightarrow> jstr \<Rightarrow> diff_part list" where
  "coarse_diff before after =
     (if before = after
      then (if before = [] then [] else [\<lparr>dp_value = before, dp_added = False, dp_removed = False\<rparr>])
      else (if before = [] then [] else [\<lparr>dp_value = before, dp_added = False, dp_removed = True\<rparr>]) @
           (if after = [] then [] else [\<lparr>dp_value = after, dp_added = True, dp_removed = False\<rparr>]))"

interpretation coarse: line_diff coarse_diff
  by unfold_locales (auto simp: coarse_diff_def split: if_splits)

section \<open>The editor\<close>

text \<open>
  A CodeMirror document is a list of lines. Its text is those lines joined by newlines, so line
  breaks of other kinds come back as newlines.
\<close>

locale code_editor =
  fixes cm_lines :: "jstr \<Rightarrow> jstr list"
  assumes enough_lines: "length (split_char LF t) \<le> length (cm_lines t)"
    and normal: "cm_lines (join [LF] (cm_lines t)) = cm_lines t"
    and unix_lines: "CR \<notin> set t \<Longrightarrow> cm_lines t = split_char LF t"

definition doc_text :: "jstr list \<Rightarrow> jstr" where
  "doc_text doc = join [LF] doc"

text \<open>
  The effect that runs when the \<open>value\<close> property changed: the document is replaced when it
  differs, and the update listener then reports the new text through \<open>onChange\<close>.
\<close>

definition sync_value :: "(jstr \<Rightarrow> jstr list) \<Rightarrow> jstr \<Rightarrow> jstr list \<Rightarrow> jstr list \<times> jstr option" where
  "sync_value cm_lines value doc =
     (if doc_text doc \<noteq> value then (cm_lines value, Some (doc_text (cm_lines value))) else (doc, None))"

text \<open>The line an error effect marks in a document.\<close>

definition marked_line :: "jstr list \<Rightarrow> nat option \<Rightarrow> nat option" where
  "marked_line doc value = map_option (\<lambda>v. min (max v 1) (length doc)) value"

fun normalize_breaks :: "jstr \<Rightarrow> jstr" where
  "normalize_breaks [] = []"
| "normalize_breaks [c] = [if c = CR then LF else c]"
| "normalize_breaks (c # d # cs) =
     (if c = CR \<and> d = LF then LF # normalize_breaks cs
      else (if c = CR then LF else c) # normalize_breaks (d # cs))"

lemma normalize_no_CR: "CR \<notin> set (normalize_breaks s)"
  by (induction s rule: normalize_breaks.induct) auto

lemma normalize_id: "CR \<notin> set s \<Longrightarrow> normalize_breaks s = s"
  by (induction s rule: normalize_breaks.induct) auto

lemma normalize_breaks_count: "count_list s LF \<le> count_list (normalize_breaks s) LF"
  by (induction s rule: normalize_breaks.induct) auto

interpretation plain_editor: code_editor "\<lambda>s. split_char LF (normalize_breaks s)"
  by unfold_locales (simp_all add: length_split_char normalize_breaks_count normalize_id normalize_no_CR)

context code_editor
begin

lemma doc_text_sync: "sync_value cm_lines (doc_text (cm_lines v)) (cm_lines v) = (cm_lines v, None)"
  by (simp add: sync_value_def)

lemma unix_text: "CR \<notin> set t \<Longrightarrow> doc_text (cm_lines t) = t"
  by (simp add: doc_text_def unix_lines)

end

section \<open>Properties\<close>

lemma last_line_le: "last_line t \<le> length (split_char LF t)"
  by (simp add: last_line_def)

lemma one_le_lines: "1 \<le> length (split_char LF t)"
  by (simp add: length_split_char)

text \<open>An error is always pointed at a line the operator wrote: the reported line is at least 1 and
  not past the last real line of the text (the one a final newline would start does not count),
  and it is the very line the editor marks, whose own clamping changes nothing.\<close>

theorem error_line_is_written:
  assumes "code_editor cm_lines" and "\<forall>m p. (m, Some p) \<in> set (yd_errors (parse t)) \<longrightarrow> 1 \<le> p"
    and "parsePolicy parse t = ParseError m l"
  shows "1 \<le> l \<and> l \<le> max (last_line t) 1 \<and> marked_line (cm_lines t) (Some l) = Some l"
proof -
  have l: "1 \<le> l \<and> l \<le> max (last_line t) 1"
  proof (cases "trim t = []")
    case True
    with assms(3) show ?thesis by (simp add: parsePolicy_def)
  next
    case False
    with assms(3) obtain pos es where e: "yd_errors (parse t) = (m, pos) # es"
      and l: "l = min (nullish pos 1) (max (last_line t) 1)"
      by (auto simp: parsePolicy_def Let_def split: list.splits option.splits)
    have "1 \<le> nullish pos 1" using assms(2) e by (cases pos) auto
    with l show ?thesis by simp
  qed
  have "max (last_line t) 1 \<le> length (cm_lines t)"
    using last_line_le [of t] one_le_lines [of t] code_editor.enough_lines [OF assms(1), of t] by simp
  with l show ?thesis by (auto simp: marked_line_def)
qed

definition sample_parse :: "jstr \<Rightarrow> yaml_doc" where
  "sample_parse t = \<lparr>yd_errors = [(js ''unclosed'', Some 4)], yd_value = Some JNull\<rparr>"

theorem error_line_is_written_witness:
  "\<exists>l. parsePolicy sample_parse (js ''version: v1'' @ [LF]) = ParseError (js ''unclosed'') l \<and> 1 \<le> l \<and> l \<le> 1"
proof -
  let ?t = "js ''version: v1'' @ [LF]"
  have "trim ?t \<noteq> []" by (simp add: js_eval)
  then obtain l where l: "parsePolicy sample_parse ?t = ParseError (js ''unclosed'') l"
    by (simp add: parsePolicy_def sample_parse_def)
  have "last_line ?t = 1" by (simp add: last_line_def ends_with_def strip_suffix_def js_eval)
  with error_line_is_written [OF plain_editor.code_editor_axioms _ l] l show ?thesis
    by (simp add: sample_parse_def)
qed

text \<open>C36. The review dialog hides nothing: with the promises of the diff library, the rows not marked as
  added are exactly the lines of the current policy and the rows not marked as removed exactly
  those of the new one, in order.\<close>

theorem diff_shows_both_texts:
  assumes "line_diff diffLines" and "newline_ended before" and "newline_ended after"
  shows "map snd (filter (\<lambda>(m, l). m \<noteq> Added) (diff_rows diffLines before after)) = text_lines before \<and>
    map snd (filter (\<lambda>(m, l). m \<noteq> Removed) (diff_rows diffLines before after)) = text_lines after"
  using line_diff.rows_show_both [OF assms] by blast

theorem diff_shows_both_texts_witness:
  "map snd (filter (\<lambda>(m, l). m \<noteq> Added) (diff_rows coarse_diff [97, LF, 98, LF] [97, LF])) = [[97], [98]]"
  using diff_shows_both_texts [OF coarse.line_diff_axioms, of "[97, LF, 98, LF]" "[97, LF]"]
  by (simp add: newline_ended_def text_lines_def drop_last_newline_def strip_suffix_def)

end
