(* ===== verification/EditorView.thy ===== *)
theory EditorView
  imports PolicyEditor
begin

text \<open>
  The life of the editor of \<^verbatim>\<open>console/src/policy/editor.tsx\<close>: mounting, the two effects, the state field
  that marks the line of an error, and the edits of the operator. CodeMirror is a third-party
  package: \<open>cm_lines\<close> is how it splits a text (\<open>code_editor\<close>), \<open>map_pos\<close> how a position moves
  through a change; the locale \<open>position_map\<close> states what its documentation promises of that.
\<close>

section \<open>Changes and the error mark\<close>

datatype change = Change (ch_from: nat) (ch_to: nat) (ch_insert: jstr)

definition apply_change :: "(jstr \<Rightarrow> jstr list) \<Rightarrow> change \<Rightarrow> jstr list \<Rightarrow> jstr list" where
  "apply_change cm_lines c doc =
     cm_lines (take (ch_from c) (doc_text doc) @ ch_insert c @ drop (ch_to c) (doc_text doc))"

text \<open>\<open>doc.line(n).from\<close>: where the n-th line begins.\<close>

definition line_from :: "jstr list \<Rightarrow> nat \<Rightarrow> nat" where
  "line_from doc n = sum_list (map (\<lambda>l. Suc (length l)) (take (n - 1) doc))"

text \<open>
  The update of \<open>errorLineField\<close>: the decoration is moved through the changes of the transaction,
  then each \<open>setErrorLine\<close> effect clears it or puts it on its line.
\<close>

definition error_effect :: "jstr list \<Rightarrow> nat option \<Rightarrow> nat option \<Rightarrow> nat option" where
  "error_effect doc next value =
     (case value of None \<Rightarrow> None | Some v \<Rightarrow> Some (line_from doc (the (marked_line doc (Some v)))))"

definition update_mark :: "(change \<Rightarrow> nat \<Rightarrow> nat option) \<Rightarrow> change option \<Rightarrow> nat option list \<Rightarrow> jstr list \<Rightarrow>
    nat option \<Rightarrow> nat option" where
  "update_mark map_pos c effects doc mark =
     foldl (error_effect doc) (case c of None \<Rightarrow> mark | Some ch \<Rightarrow> Option.bind mark (map_pos ch)) effects"

section \<open>The component\<close>

record editor_view =
  ev_doc :: "jstr list"
  ev_mark :: "nat option"

record editor =
  ed_view :: "editor_view option"
  ed_value :: jstr
  ed_errorLine :: "nat option"
  ed_reported :: "jstr list"

text \<open>\<open>ed_reported\<close> records the calls of \<open>onChange\<close>.\<close>

text \<open>A transaction: the document, the mark, and the update listener.\<close>

definition dispatch :: "(jstr \<Rightarrow> jstr list) \<Rightarrow> (change \<Rightarrow> nat \<Rightarrow> nat option) \<Rightarrow> change option \<Rightarrow> nat option list \<Rightarrow>
    editor \<Rightarrow> editor" where
  "dispatch cm_lines map_pos c effects e =
     (case ed_view e of
        None \<Rightarrow> e
      | Some v \<Rightarrow>
          (let doc = (case c of None \<Rightarrow> ev_doc v | Some ch \<Rightarrow> apply_change cm_lines ch (ev_doc v)) in
           e\<lparr>ed_view := Some \<lparr>ev_doc = doc, ev_mark = update_mark map_pos c effects doc (ev_mark v)\<rparr>,
             ed_reported := ed_reported e @ (if c = None then [] else [doc_text doc])\<rparr>))"

definition value_effect :: "(jstr \<Rightarrow> jstr list) \<Rightarrow> (change \<Rightarrow> nat \<Rightarrow> nat option) \<Rightarrow> editor \<Rightarrow> editor" where
  "value_effect cm_lines map_pos e =
     (case ed_view e of
        None \<Rightarrow> e
      | Some v \<Rightarrow>
          (let current = doc_text (ev_doc v) in
           if current \<noteq> ed_value e
           then dispatch cm_lines map_pos (Some (Change 0 (length current) (ed_value e))) [] e else e))"

definition errorLine_effect :: "(jstr \<Rightarrow> jstr list) \<Rightarrow> (change \<Rightarrow> nat \<Rightarrow> nat option) \<Rightarrow> editor \<Rightarrow> editor" where
  "errorLine_effect cm_lines map_pos e = dispatch cm_lines map_pos None [ed_errorLine e] e"

text \<open>The first render: the view is created, and each effect runs once, in their order.\<close>

definition mount :: "(jstr \<Rightarrow> jstr list) \<Rightarrow> (change \<Rightarrow> nat \<Rightarrow> nat option) \<Rightarrow> jstr \<Rightarrow> nat option \<Rightarrow> editor" where
  "mount cm_lines map_pos value line =
     errorLine_effect cm_lines map_pos (value_effect cm_lines map_pos
       \<lparr>ed_view = Some \<lparr>ev_doc = cm_lines value, ev_mark = None\<rparr>, ed_value = value, ed_errorLine = line,
        ed_reported = []\<rparr>)"

text \<open>A later render with new properties: an effect runs when what it depends on changed.\<close>

definition rerender :: "(jstr \<Rightarrow> jstr list) \<Rightarrow> (change \<Rightarrow> nat \<Rightarrow> nat option) \<Rightarrow> jstr \<Rightarrow> nat option \<Rightarrow> editor \<Rightarrow> editor" where
  "rerender cm_lines map_pos value line e =
     (let e1 = e\<lparr>ed_value := value, ed_errorLine := line\<rparr>;
          e2 = (if value \<noteq> ed_value e then value_effect cm_lines map_pos e1 else e1) in
      if line \<noteq> ed_errorLine e then errorLine_effect cm_lines map_pos e2 else e2)"

definition unmount :: "editor \<Rightarrow> editor" where
  "unmount e = e\<lparr>ed_view := None\<rparr>"

text \<open>An edit, after which the form renders the editor again with the text it was told.\<close>

definition type_edit :: "(jstr \<Rightarrow> jstr list) \<Rightarrow> (change \<Rightarrow> nat \<Rightarrow> nat option) \<Rightarrow> change \<Rightarrow> editor \<Rightarrow> editor" where
  "type_edit cm_lines map_pos c e =
     (let e1 = dispatch cm_lines map_pos (Some c) [] e in
      if ed_reported e1 = ed_reported e then e1
      else rerender cm_lines map_pos (last (ed_reported e1)) (ed_errorLine e) e1)"

section \<open>What is relied on\<close>

locale position_map =
  fixes map_pos :: "change \<Rightarrow> nat \<Rightarrow> nat option"
  assumes after_insert: "p < pos \<Longrightarrow> map_pos (Change p p t) pos = Some (pos + length t)"
    and before_insert: "pos < p \<Longrightarrow> map_pos (Change p p t) pos = Some pos"
begin

lemma edit_below_keeps: "pos < p \<Longrightarrow> update_mark map_pos (Some (Change p p t)) [] doc (Some pos) = Some pos"
  by (simp add: update_mark_def before_insert)

lemma edit_above_moves:
  "p < pos \<Longrightarrow> update_mark map_pos (Some (Change p p t)) [] doc (Some pos) = Some (pos + length t)"
  by (simp add: update_mark_def after_insert)

end

text \<open>One such map: a position inside a deleted stretch is lost, one at its start is kept.\<close>

definition track_before :: "change \<Rightarrow> nat \<Rightarrow> nat option" where
  "track_before c pos =
     (if pos \<le> ch_from c then Some pos
      else if pos \<le> ch_to c then None
      else Some (pos - (ch_to c - ch_from c) + length (ch_insert c)))"

interpretation tracked: position_map track_before
  by unfold_locales (auto simp: track_before_def)

section \<open>Lemmas\<close>

lemma join_LF_Cons2: "join [LF] (x # y # xs) = x @ LF # join [LF] (y # xs)"
  by (simp add: join_Cons)

text \<open>The offset of a line is where its text stands in the document.\<close>

lemma line_from_text:
  assumes "n < length doc"
  shows "take (length (doc ! n)) (drop (line_from doc (Suc n)) (doc_text doc)) = doc ! n"
  using assms unfolding doc_text_def
proof (induction doc arbitrary: n)
  case (Cons l doc)
  show ?case
  proof (cases n)
    case 0
    then show ?thesis by (simp add: line_from_def join_Cons)
  next
    case (Suc m)
    with Cons.prems obtain k ks where doc: "doc = k # ks" by (cases doc) auto
    have "drop (line_from (l # doc) (Suc n)) (join [LF] (l # doc)) = drop (line_from doc (Suc m)) (join [LF] doc)"
      unfolding doc join_LF_Cons2 by (simp add: line_from_def Suc)
    with Cons.IH [of m] Cons.prems show ?thesis by (simp add: Suc)
  qed
qed simp

lemma dispatch_mark:
  assumes "ed_view e = Some v"
  shows "ed_view (dispatch cm_lines map_pos None effects e) =
    Some \<lparr>ev_doc = ev_doc v, ev_mark = foldl (error_effect (ev_doc v)) (ev_mark v) effects\<rparr>"
  using assms by (simp add: dispatch_def update_mark_def Let_def)

lemma marked_line_range: "doc \<noteq> [] \<Longrightarrow> \<exists>k. marked_line doc (Some n) = Some k \<and> 1 \<le> k \<and> k \<le> length doc"
  by (cases doc) (auto simp: marked_line_def)

lemma value_effect_view:
  "ed_view (value_effect cm_lines map_pos e) = None \<longleftrightarrow> ed_view e = None"
  "ed_errorLine (value_effect cm_lines map_pos e) = ed_errorLine e"
  by (auto simp: value_effect_def dispatch_def Let_def split: option.splits)

lemma value_effect_doc:
  assumes "\<And>t. cm_lines t \<noteq> []" "ed_view (value_effect cm_lines map_pos e) = Some v" "\<And>w. ed_view e = Some w \<Longrightarrow> ev_doc w \<noteq> []"
  shows "ev_doc v \<noteq> []"
  using assms by (auto simp: value_effect_def dispatch_def apply_change_def Let_def split: option.splits if_splits)

section \<open>Properties\<close>

text \<open>The mark is put on the reported line: whenever the reported line changes, the editor marks the
  position at which that line begins in its document (a number outside it is brought to the first
  or last line), or nothing when there is no error; and an insertion further down does not move it.\<close>

theorem error_mark_on_line:
  assumes "code_editor cm_lines" and "position_map map_pos"
    and "ed_view e = Some w" and "ev_doc w \<noteq> []" and "line \<noteq> ed_errorLine e"
  shows "\<exists>v. ed_view (rerender cm_lines map_pos value line e) = Some v \<and>
    (case line of
       None \<Rightarrow> ev_mark v = None
     | Some n \<Rightarrow>
         \<exists>k. 1 \<le> k \<and> k \<le> length (ev_doc v) \<and> k = min (max n 1) (length (ev_doc v)) \<and>
           ev_mark v = Some (line_from (ev_doc v) k) \<and>
           take (length (ev_doc v ! (k - 1))) (drop (line_from (ev_doc v) k) (doc_text (ev_doc v))) = ev_doc v ! (k - 1) \<and>
           (\<forall>p t doc. line_from (ev_doc v) k < p \<longrightarrow>
              update_mark map_pos (Some (Change p p t)) [] doc (ev_mark v) = ev_mark v))"
proof -
  have ne: "cm_lines t \<noteq> []" for t
    using code_editor.enough_lines [OF assms(1), of t] by (cases "cm_lines t") auto
  define e1 where "e1 = e\<lparr>ed_value := value, ed_errorLine := line\<rparr>"
  define e2 where "e2 = (if value \<noteq> ed_value e then value_effect cm_lines map_pos e1 else e1)"
  have line: "ed_errorLine e2 = line" by (simp add: e1_def e2_def value_effect_view)
  have "ed_view e2 \<noteq> None"
    using assms(3) value_effect_view(1) [of cm_lines map_pos e1] by (simp add: e1_def e2_def del: not_None_eq)
  then obtain u where u: "ed_view e2 = Some u" by blast
  have doc: "ev_doc u \<noteq> []"
    using u assms(3,4) value_effect_doc [of cm_lines map_pos e1 u, OF ne] by (auto simp: e1_def e2_def split: if_splits)
  let ?v = "\<lparr>ev_doc = ev_doc u, ev_mark = error_effect (ev_doc u) (ev_mark u) line\<rparr>"
  have v: "ed_view (rerender cm_lines map_pos value line e) = Some ?v"
    using assms(5) dispatch_mark [OF u, of cm_lines map_pos "[line]"]
    by (simp add: rerender_def Let_def errorLine_effect_def line e1_def [symmetric] e2_def [symmetric])
  show ?thesis
  proof (cases line)
    case None
    with v show ?thesis by (simp add: error_effect_def)
  next
    case (Some n)
    obtain k where k: "marked_line (ev_doc u) (Some n) = Some k" "1 \<le> k" "k \<le> length (ev_doc u)"
      using marked_line_range [OF doc] by blast
    then have "k = min (max n 1) (length (ev_doc u))" by (simp add: marked_line_def)
    moreover have "take (length (ev_doc u ! (k - 1))) (drop (line_from (ev_doc u) k) (doc_text (ev_doc u))) = ev_doc u ! (k - 1)"
      using line_from_text [of "k - 1" "ev_doc u"] k by simp
    ultimately show ?thesis
      using v k position_map.edit_below_keeps [OF assms(2)] by (simp add: Some error_effect_def)
  qed
qed


abbreviation plain_lines :: "jstr \<Rightarrow> jstr list" where
  "plain_lines \<equiv> \<lambda>s. split_char LF (normalize_breaks s)"

lemmas editor_eval = mount_def rerender_def type_edit_def value_effect_def errorLine_effect_def dispatch_def
  update_mark_def error_effect_def marked_line_def line_from_def apply_change_def doc_text_def track_before_def

text \<open>The editor of a document of two lines, after an error was reported on the second.\<close>

definition marked_editor :: editor where
  "marked_editor = rerender plain_lines track_before [97, LF, 98] (Some 2) (mount plain_lines track_before [97, LF, 98] None)"

theorem error_mark_on_line_witness:
  "\<exists>v. ed_view marked_editor = Some v \<and> ev_mark v = Some (line_from (ev_doc v) (min 2 (length (ev_doc v))))"
proof -
  let ?e = "mount plain_lines track_before [97, LF, 98] None"
  have "ed_view ?e = Some \<lparr>ev_doc = [[97], [98]], ev_mark = None\<rparr>" "Some 2 \<noteq> ed_errorLine ?e"
    by (simp_all add: editor_eval Let_def)
  from error_mark_on_line [OF plain_editor.code_editor_axioms tracked.position_map_axioms this(1) _ this(2),
      of "[97, LF, 98]"]
  show ?thesis by (auto simp: marked_editor_def numeral_2_eq_2)
qed

text \<open>
  When the reported line does not change, the effect does not run again and the mark stays where the
  edits have moved it: an error on line 2, a line inserted above, and the next error on line 2
  leaves line 3 marked.
\<close>

theorem error_mark_can_be_stale:
  "\<exists>v. ed_view (rerender plain_lines track_before [97, LF, 99, LF, 98] (Some 2)
        (type_edit plain_lines track_before (Change 1 1 [LF, 99]) marked_editor)) = Some v \<and>
     length (ev_doc v) = 3 \<and> ev_mark v = Some (line_from (ev_doc v) 3) \<and> ev_mark v \<noteq> Some (line_from (ev_doc v) 2)"
  by (simp add: marked_editor_def editor_eval Let_def)

end
