(* ===== verification/Confirmation.thy ===== *)
theory Confirmation
  imports Transitions
begin

text \<open>
  What the two dialogs of the console promise, as an abstract machine: something is shown for
  confirmation or nothing is, a confirmation sends what is shown, and nothing more is sent until
  the answer. \<open>confirmed_requests\<close> is the refinement by which a screen's machine keeps it.
\<close>

section \<open>The specification\<close>

record 'v confirmation =
  cf_shown :: "'v option"
  cf_flight :: bool
  cf_sent :: "'v list"

datatype 'v confirm_event = Show "'v option" | Confirm | Answer "'v option"

inductive confirm_step :: "'v confirmation \<Rightarrow> 'v confirm_event \<Rightarrow> 'v confirmation \<Rightarrow> bool" where
  shown: "confirm_step c (Show v) (c\<lparr>cf_shown := v\<rparr>)"
| confirms: "cf_shown c = Some v \<Longrightarrow> \<not> cf_flight c \<Longrightarrow>
    confirm_step c Confirm (c\<lparr>cf_flight := True, cf_sent := cf_sent c @ [v]\<rparr>)"
| answers: "cf_flight c \<Longrightarrow> confirm_step c (Answer v) (c\<lparr>cf_flight := False, cf_shown := v\<rparr>)"

inductive_cases confirm_stepE: "confirm_step c a d"
inductive_simps confirm_iff: "confirm_step c Confirm d"
inductive_simps show_iff: "confirm_step c (Show v) d"
inductive_simps answer_iff: "confirm_step c (Answer v) d"

lemmas confirm_iffs = confirm_iff show_iff answer_iff

text \<open>The values on show at the confirmations of a run, and how often it confirms and is answered.\<close>

fun confirmed :: "'v option \<Rightarrow> 'v confirm_event list \<Rightarrow> 'v list" where
  "confirmed v [] = []"
| "confirmed v (Show w # as) = confirmed w as"
| "confirmed v (Confirm # as) = (case v of None \<Rightarrow> [] | Some x \<Rightarrow> [x]) @ confirmed v as"
| "confirmed v (Answer w # as) = confirmed w as"

definition count_confirms :: "'v confirm_event list \<Rightarrow> nat" where
  "count_confirms as = length (filter (\<lambda>a. a = Confirm) as)"

definition count_answers :: "'v confirm_event list \<Rightarrow> nat" where
  "count_answers as = length (filter (\<lambda>a. \<exists>v. a = Answer v) as)"

lemma count_simps [simp]:
  "count_confirms [] = 0" "count_confirms (Confirm # as) = Suc (count_confirms as)"
  "count_confirms (Show v # as) = count_confirms as" "count_confirms (Answer v # as) = count_confirms as"
  "count_answers [] = 0" "count_answers (Confirm # as) = count_answers as"
  "count_answers (Show v # as) = count_answers as" "count_answers (Answer v # as) = Suc (count_answers as)"
  by (simp_all add: count_confirms_def count_answers_def)

lemma sent_confirmed:
  "trace confirm_step c as d \<Longrightarrow> cf_sent d = cf_sent c @ confirmed (cf_shown c) as"
  by (induction rule: trace.induct) (auto elim!: confirm_stepE)

lemma length_confirmed:
  "trace confirm_step c as d \<Longrightarrow> length (confirmed (cf_shown c) as) = count_confirms as"
  by (induction rule: trace.induct) (auto elim!: confirm_stepE)

lemma confirms_answered:
  "trace confirm_step c as d \<Longrightarrow>
     count_confirms as + of_bool (cf_flight c) = count_answers as + of_bool (cf_flight d)"
  by (induction rule: trace.induct) (auto elim!: confirm_stepE)

section \<open>Refinement\<close>

text \<open>
  \<open>observe\<close> says which abstract events an event of the screen stands for, from the event and the state
  before it; the screen's step must then be a run of exactly these.
\<close>

locale confirmed_requests =
  fixes step :: "'s \<Rightarrow> 'e \<Rightarrow> 's \<Rightarrow> bool"
    and advance :: "'e \<Rightarrow> 's \<Rightarrow> 's"
    and abs :: "'s \<Rightarrow> 'v confirmation"
    and observe :: "'s \<Rightarrow> 'e \<Rightarrow> 'v confirm_event list"
  assumes computed: "step s e t \<Longrightarrow> t = advance e s"
    and simulates: "step s e t \<Longrightarrow> trace confirm_step (abs s) (observe s e) (abs t)"
begin

lemma trace_simulates: "trace step s es t \<Longrightarrow> trace confirm_step (abs s) (watch observe advance s es) (abs t)"
proof (induction rule: trace.induct)
  case (trace_Cons s e t es u)
  then show ?case using simulates [of s e t] computed [of s e t] by (auto simp: trace_append)
qed simp

text \<open>What was sent is what was on show at the clicks, and all but the last of it has been answered.\<close>

lemma sent_is_confirmed:
  assumes "trace step s es t" "cf_shown (abs s) = None" "cf_sent (abs s) = []" "\<not> cf_flight (abs s)"
  shows "cf_sent (abs t) = confirmed None (watch observe advance s es)"
    and "length (cf_sent (abs t)) \<le> count_answers (watch observe advance s es) + 1"
proof -
  note run = trace_simulates [OF assms(1)]
  show sent: "cf_sent (abs t) = confirmed None (watch observe advance s es)"
    using sent_confirmed [OF run] assms(2,3) by simp
  show "length (cf_sent (abs t)) \<le> count_answers (watch observe advance s es) + 1"
    using length_confirmed [OF run] confirms_answered [OF run] assms(2-4) by (simp add: sent)
qed

end

end
