(* ===== verification/Theme.thy ===== *)
theory Theme
  imports ConsoleApi Transitions
begin

text \<open>
  \<^verbatim>\<open>console/src/theme.ts\<close>, the call in \<^verbatim>\<open>console/src/main.tsx\<close> that runs before the first render, and
  the theme button of \<^verbatim>\<open>console/src/router.tsx\<close>. The page is a record: what \<open>localStorage\<close> holds
  under the theme key, whether reading and writing it throw, the media query, and the \<open>dark\<close>
  class on the root element.
\<close>

datatype theme = Light | Dark

record page =
  pg_stored :: "jstr option"
  pg_read_throws :: bool
  pg_write_throws :: bool
  pg_prefers_dark :: "bool option"
  pg_dark_class :: bool

fun theme_name :: "theme \<Rightarrow> jstr" where
  "theme_name Light = js ''light''"
| "theme_name Dark = js ''dark''"

definition readStored :: "page \<Rightarrow> theme option" where
  "readStored pg =
     (if pg_read_throws pg then None
      else if pg_stored pg = Some (js ''light'') then Some Light
      else if pg_stored pg = Some (js ''dark'') then Some Dark else None)"

definition preferredTheme :: "page \<Rightarrow> theme" where
  "preferredTheme pg = (if pg_prefers_dark pg = Some True then Dark else Light)"

definition currentTheme :: "page \<Rightarrow> theme" where
  "currentTheme pg = nullish (readStored pg) (preferredTheme pg)"

definition applyTheme :: "theme \<Rightarrow> page \<Rightarrow> page" where
  "applyTheme theme pg = pg\<lparr>pg_dark_class := (theme = Dark)\<rparr>"

definition setStoredTheme :: "theme \<Rightarrow> page \<Rightarrow> page" where
  "setStoredTheme theme pg =
     (let pg' = applyTheme theme pg in
      if pg_write_throws pg' then pg' else pg'\<lparr>pg_stored := Some (theme_name theme)\<rparr>)"

definition applyStoredTheme :: "page \<Rightarrow> page" where
  "applyStoredTheme pg = applyTheme (currentTheme pg) pg"

section \<open>The button\<close>

record toggle_state =
  tg_theme :: theme
  tg_page :: page

definition next_theme :: "theme \<Rightarrow> theme" where
  "next_theme theme = (if theme = Dark then Light else Dark)"

definition theme_button_view :: "theme \<Rightarrow> node" where
  "theme_button_view theme =
     El ''button''
       [(''type'', AS (js ''button'')),
        (''aria-label'', AS (if theme = Dark then js ''Switch to light theme'' else js ''Switch to dark theme''))]
       [Txt (if theme = Dark then js ''Dark'' else js ''Light'')]"

definition toggle_init :: "toggle_state \<Rightarrow> bool" where
  "toggle_init s \<longleftrightarrow> (\<exists>pg. s = \<lparr>tg_theme = currentTheme (applyStoredTheme pg), tg_page = applyStoredTheme pg\<rparr>)"

inductive toggle_step :: "toggle_state \<Rightarrow> unit \<Rightarrow> toggle_state \<Rightarrow> bool" where
  click: "toggle_step s () (s\<lparr>tg_theme := next_theme (tg_theme s),
      tg_page := setStoredTheme (next_theme (tg_theme s)) (tg_page s)\<rparr>)"

inductive_cases toggle_stepE: "toggle_step s e t"

definition toggle_inv :: "toggle_state \<Rightarrow> bool" where
  "toggle_inv s \<longleftrightarrow>
     (pg_dark_class (tg_page s) \<longleftrightarrow> tg_theme s = Dark) \<and>
     (\<not> pg_read_throws (tg_page s) \<and> \<not> pg_write_throws (tg_page s) \<longrightarrow>
        currentTheme (tg_page s) = tg_theme s)"

lemma page_fields [simp]:
  "pg_dark_class (applyTheme th pg) = (th = Dark)"
  "currentTheme (applyTheme th pg) = currentTheme pg"
  "pg_read_throws (applyTheme th pg) = pg_read_throws pg"
  "pg_write_throws (applyTheme th pg) = pg_write_throws pg"
  by (simp_all add: applyTheme_def currentTheme_def readStored_def preferredTheme_def)

lemma setStoredTheme_fields [simp]:
  "pg_dark_class (setStoredTheme th pg) = (th = Dark)"
  "pg_read_throws (setStoredTheme th pg) = pg_read_throws pg"
  "pg_write_throws (setStoredTheme th pg) = pg_write_throws pg"
  by (simp_all add: setStoredTheme_def Let_def)

lemma current_set:
  "\<not> pg_read_throws pg \<Longrightarrow> \<not> pg_write_throws pg \<Longrightarrow> currentTheme (setStoredTheme th pg) = th"
  by (cases th) (simp_all add: setStoredTheme_def Let_def currentTheme_def readStored_def)

interpretation toggle: invariant_machine toggle_init toggle_step toggle_inv
  by unfold_locales
    (auto simp: toggle_init_def toggle_inv_def applyStoredTheme_def current_set elim!: toggle_stepE)

text \<open>However often the theme button is pressed, the page shows the theme the button names. When
  the browser lets the console use its storage, reloading the page shows that theme again.\<close>

theorem theme_persists:
  assumes "toggle_init s" and "trace toggle_step s es t"
  shows "(pg_dark_class (tg_page t) \<longleftrightarrow> tg_theme t = Dark) \<and>
    (\<not> pg_read_throws (tg_page t) \<and> \<not> pg_write_throws (tg_page t) \<longrightarrow>
       pg_dark_class (applyStoredTheme ((tg_page t)\<lparr>pg_dark_class := False\<rparr>)) = (tg_theme t = Dark))"
proof -
  have "currentTheme (pg\<lparr>pg_dark_class := False\<rparr>) = currentTheme pg" for pg
    by (simp add: currentTheme_def readStored_def preferredTheme_def)
  with toggle.reachable_inv [OF assms] show ?thesis
    by (simp add: toggle_inv_def applyStoredTheme_def)
qed

theorem theme_persists_witness:
  "\<exists>t. trace toggle_step \<lparr>tg_theme = Light, tg_page = \<lparr>pg_stored = None, pg_read_throws = False,
      pg_write_throws = False, pg_prefers_dark = None, pg_dark_class = False\<rparr>\<rparr> [()] t \<and> pg_dark_class (tg_page t)"
proof -
  let ?pg = "\<lparr>pg_stored = None, pg_read_throws = False, pg_write_throws = False, pg_prefers_dark = None,
    pg_dark_class = False\<rparr> :: page"
  let ?s = "\<lparr>tg_theme = Light, tg_page = ?pg\<rparr>"
  have i: "toggle_init ?s"
    unfolding toggle_init_def
    by (rule exI [of _ ?pg])
      (simp add: applyStoredTheme_def applyTheme_def currentTheme_def readStored_def preferredTheme_def)
  obtain t where t: "toggle_step ?s () t" "tg_theme t = Dark"
    using click [of ?s] by (auto simp: next_theme_def)
  then have "trace toggle_step ?s [()] t" by (simp add: trace_Cons_iff)
  with theme_persists [OF i this] t(2) show ?thesis by blast
qed

end
