(* ===== verification/Session.thy ===== *)
theory Session
  imports Theme
begin

text \<open>
  \<^verbatim>\<open>console/src/app.tsx\<close>, \<^verbatim>\<open>console/src/router.tsx\<close> and \<^verbatim>\<open>console/src/screens/sign-in.tsx\<close>: the
  session gate, what the query client does with a failed request, signing out, and the frame of
  the console. The query cache is a third-party package; the part of its documentation used here
  is that invalidating a key makes every mounted query whose key starts with it fetch again.
\<close>

type_synonym query_key = "jstr list"

definition me_key :: query_key where
  "me_key = [js ''me'']"

section \<open>The gate\<close>

datatype screen = Message jstr jstr | SignInScreen | ConsoleScreen me

definition ellipsis :: jstr where
  "ellipsis = [8230]"

definition gate :: "me query \<Rightarrow> screen" where
  "gate q =
     (if q_status q = Pending then Message (js ''Loading'') (js ''Checking your session'' @ ellipsis)
      else (case q_error q of
        Some (ApiError status m) \<Rightarrow>
          (if status = 401 then SignInScreen
           else if status = 403 then Message (js ''No access'') (js ''You are not a console admin.'')
           else Message (js ''Console unavailable'') m)
      | _ \<Rightarrow>
          (if q_status q = Failed_query then Message (js ''Console unavailable'') (js ''Could not reach awd.'')
           else ConsoleScreen (the (q_data q)))))"

text \<open>The query for \<open>/console/api/me\<close> after a fetch with this outcome.\<close>

definition settle_me :: "me query \<Rightarrow> js_error + me \<Rightarrow> me query" where
  "settle_me q r =
     (case r of
        Inl e \<Rightarrow> q\<lparr>q_status := Failed_query, q_error := Some e\<rparr>
      | Inr m \<Rightarrow> \<lparr>q_status = Success, q_data = Some m, q_error = None\<rparr>)"

definition fresh_me :: "me query" where
  "fresh_me = \<lparr>q_status = Pending, q_data = None, q_error = None\<rparr>"

lemma settle_me_wf: "wf_query (settle_me q r)"
  by (simp add: wf_query_def settle_me_def split: sum.splits)

lemma gate_settled:
  "gate (settle_me q r) =
     (case r of
        Inr who \<Rightarrow> ConsoleScreen who
      | Inl (ApiError status m) \<Rightarrow>
          if status = 401 then SignInScreen
          else if status = 403 then Message (js ''No access'') (js ''You are not a console admin.'')
          else Message (js ''Console unavailable'') m
      | Inl _ \<Rightarrow> Message (js ''Console unavailable'') (js ''Could not reach awd.''))"
  by (auto simp: gate_def settle_me_def split: sum.splits js_error.splits)

section \<open>What a failed request sets off\<close>

text \<open>\<open>onError\<close> of the query cache: the keys it invalidates.\<close>

definition on_query_error :: "js_error \<Rightarrow> query_key \<Rightarrow> query_key list" where
  "on_query_error err key =
     (if hd key = js ''me'' then []
      else (case err of
              ApiError status m \<Rightarrow> if status = 401 \<or> status = 403 \<or> status = 503 then [me_key] else []
            | _ \<Rightarrow> []))"

definition key_matches :: "query_key \<Rightarrow> query_key \<Rightarrow> bool" where
  "key_matches p key \<longleftrightarrow> take (length p) key = p"

definition invalidate :: "query_key list \<Rightarrow> query_key \<Rightarrow> query_key list" where
  "invalidate active p = filter (key_matches p) active"

text \<open>The queries a screen makes when it is mounted; the groups screen adds the one of its resolve form.\<close>

datatype console_page = OverviewPage | PolicyPage | MachinesPage | EnrollmentPage | GroupsPage | AuditPage

fun mount_keys :: "console_page \<Rightarrow> query_key list" where
  "mount_keys OverviewPage = [[js ''revisions''], [js ''machines''], [js ''groups''], [js ''audit'', js ''recent'']]"
| "mount_keys PolicyPage = [[js ''revisions'']]"
| "mount_keys MachinesPage = [[js ''machines'']]"
| "mount_keys EnrollmentPage = []"
| "mount_keys GroupsPage = [[js ''groups'']]"
| "mount_keys AuditPage = [[js ''audit'']]"

section \<open>The console while it runs\<close>

text \<open>
  The query of the gate, the page, the user the resolve form asks about, and the requests under way, one
  per key. The gate mounts the screens when it comes to show the console and unmounts them when it shows
  anything else; the router, and with it the page, outlives them.
\<close>

record console =
  cn_me :: "me query"
  cn_page :: console_page
  cn_resolve :: "jstr option"
  cn_pending :: "query_key list"

definition console_open :: "console \<Rightarrow> bool" where
  "console_open s \<longleftrightarrow> (case gate (cn_me s) of ConsoleScreen who \<Rightarrow> True | _ \<Rightarrow> False)"

definition screen_keys :: "console \<Rightarrow> query_key list" where
  "screen_keys s = mount_keys (cn_page s) @ (case cn_resolve s of None \<Rightarrow> [] | Some u \<Rightarrow> [[js ''resolve'', u]])"

text \<open>The mounted queries: the gate's own is always one of them.\<close>

definition active_keys :: "console \<Rightarrow> query_key list" where
  "active_keys s = me_key # (if console_open s then screen_keys s else [])"

text \<open>A query that starts while it has no data is pending again; one that is under way is not started twice.\<close>

definition start_me :: "me query \<Rightarrow> me query" where
  "start_me q = (if q_data q = None then fresh_me else q)"

definition ask :: "query_key list \<Rightarrow> console \<Rightarrow> console" where
  "ask ks s =
     s\<lparr>cn_pending := cn_pending s @ filter (\<lambda>k. k \<notin> set (cn_pending s)) ks,
       cn_me := (if me_key \<in> set ks then start_me (cn_me s) else cn_me s)\<rparr>"

definition done_with :: "query_key \<Rightarrow> console \<Rightarrow> console" where
  "done_with k s = s\<lparr>cn_pending := remove1 k (cn_pending s)\<rparr>"

text \<open>
  What arrives: data or an error for a query, an answer about the session; what the operator and the
  browser do: another page, the resolve form, the window comes back into focus, a key is invalidated
  (after a post, or by signing out), a post fails.
\<close>

datatype console_event =
    Answered query_key
  | QueryFailed query_key js_error
  | MeAnswer "js_error + me"
  | Goto console_page
  | Resolve jstr
  | Refocus
  | Invalidate query_key
  | MutationFailed js_error

fun console_can :: "console_event \<Rightarrow> console \<Rightarrow> bool" where
  "console_can (Answered k) s \<longleftrightarrow> k \<in> set (cn_pending s) \<and> k \<noteq> me_key"
| "console_can (QueryFailed k e) s \<longleftrightarrow> k \<in> set (cn_pending s) \<and> k \<noteq> me_key"
| "console_can (MeAnswer r) s \<longleftrightarrow> me_key \<in> set (cn_pending s)"
| "console_can (Goto p) s \<longleftrightarrow> console_open s"
| "console_can (Resolve u) s \<longleftrightarrow> console_open s \<and> cn_page s = GroupsPage \<and> u \<noteq> []"
| "console_can Refocus s \<longleftrightarrow> True"
| "console_can (Invalidate k) s \<longleftrightarrow> True"
| "console_can (MutationFailed e) s \<longleftrightarrow> True"

text \<open>Posts are mutations; \<open>onError\<close> is set on the cache of the queries only.\<close>

fun console_next :: "console_event \<Rightarrow> console \<Rightarrow> console" where
  "console_next (Answered k) s = done_with k s"
| "console_next (QueryFailed k e) s =
     (let s' = done_with k s in ask (concat (map (invalidate (active_keys s')) (on_query_error e k))) s')"
| "console_next (MeAnswer r) s =
     (let s' = (done_with me_key s)\<lparr>cn_me := settle_me (cn_me s) r\<rparr> in
      (case r of
         Inl e \<Rightarrow> ask (concat (map (invalidate (active_keys s')) (on_query_error e me_key))) (s'\<lparr>cn_resolve := None\<rparr>)
       | Inr who \<Rightarrow> if console_open s then s' else ask (mount_keys (cn_page s)) s'))"
| "console_next (Goto p) s = (if p = cn_page s then s else ask (mount_keys p) (s\<lparr>cn_page := p, cn_resolve := None\<rparr>))"
| "console_next (Resolve u) s = (if cn_resolve s = Some u then s else ask [[js ''resolve'', u]] (s\<lparr>cn_resolve := Some u\<rparr>))"
| "console_next Refocus s = ask (active_keys s) s"
| "console_next (Invalidate k) s = ask (invalidate (active_keys s) k) s"
| "console_next (MutationFailed e) s = s"

abbreviation console_step where
  "console_step \<equiv> guarded console_can console_next"

fun is_answer :: "console_event \<Rightarrow> bool" where
  "is_answer (Answered k) \<longleftrightarrow> True"
| "is_answer (QueryFailed k e) \<longleftrightarrow> True"
| "is_answer (MeAnswer r) \<longleftrightarrow> True"
| "is_answer e \<longleftrightarrow> False"

lemma ask_fields [simp]: "cn_page (ask ks s) = cn_page s" "cn_resolve (ask ks s) = cn_resolve s"
  "cn_pending (ask ks s) = cn_pending s @ filter (\<lambda>k. k \<notin> set (cn_pending s)) ks"
  by (simp_all add: ask_def)

lemma done_with_fields [simp]: "cn_page (done_with k s) = cn_page s" "cn_resolve (done_with k s) = cn_resolve s"
  "cn_me (done_with k s) = cn_me s" "cn_pending (done_with k s) = remove1 k (cn_pending s)"
  by (simp_all add: done_with_def)

lemma console_open_data: "console_open s \<Longrightarrow> wf_query (cn_me s) \<Longrightarrow> q_data (cn_me s) \<noteq> None"
  by (cases "q_status (cn_me s)")
    (auto simp: console_open_def gate_def wf_query_def split: option.splits js_error.splits if_splits)

lemma start_me_wf: "wf_query q \<Longrightarrow> wf_query (start_me q)"
  by (simp add: start_me_def fresh_me_def wf_query_def)

lemma console_step_wf: "console_step s e t \<Longrightarrow> wf_query (cn_me s) \<Longrightarrow> wf_query (cn_me t)"
  by (cases e) (auto simp: guarded_def ask_def Let_def settle_me_wf start_me_wf split: sum.splits)

lemma fresh_closed: "gate fresh_me = Message (js ''Loading'') (js ''Checking your session'' @ ellipsis)"
  by (simp add: gate_def fresh_me_def)

text \<open>Only the gate's own key starts with its name.\<close>

lemma screen_keys_me: "k \<in> set (screen_keys s) \<Longrightarrow> hd k \<noteq> js ''me'' \<and> \<not> key_matches me_key k"
  by (cases "cn_page s") (auto simp: screen_keys_def key_matches_def me_key_def split: option.splits)

lemma invalidate_me: "invalidate (active_keys s) me_key = [me_key]"
  using screen_keys_me [of _ s] by (auto simp: invalidate_def active_keys_def key_matches_def filter_empty_conv)

lemma me_excluded [simp]: "on_query_error e me_key = []"
  by (simp add: on_query_error_def me_key_def)

lemma ask_nothing [simp]: "ask [] s = s"
  by (simp add: ask_def)

lemma on_query_error_cases: "on_query_error e k = [] \<or> (on_query_error e k = [me_key] \<and> hd k \<noteq> js ''me'')"
  by (auto simp: on_query_error_def split: js_error.splits)

section \<open>The screens of the gate\<close>

definition message_view :: "jstr \<Rightarrow> jstr \<Rightarrow> node" where
  "message_view title children =
     El ''main'' [] [El ''h1'' [] [Txt title], El ''div'' [] [Txt children]]"

definition sign_in_view :: node where
  "sign_in_view =
     El ''main'' []
       [El ''h1'' [] [Txt (js ''Agentic Warden console'')],
        El ''p'' [] [Txt (js ''Sign in with your company account.'')],
        El ''a'' [(''href'', AS (js ''/console/auth/login''))] [Txt (js ''Sign in'')]]"

section \<open>The frame\<close>

definition navItems :: "(jstr \<times> jstr) list" where
  "navItems =
     [(js ''/'', js ''Overview''), (js ''/policy'', js ''Policy''), (js ''/machines'', js ''Machines''),
      (js ''/enrollment'', js ''Enrollment''), (js ''/groups'', js ''Groups''), (js ''/audit'', js ''Audit'')]"

definition routeTree :: "(jstr \<times> console_page) list" where
  "routeTree =
     [(js ''/'', OverviewPage), (js ''/policy'', PolicyPage), (js ''/machines'', MachinesPage),
      (js ''/enrollment'', EnrollmentPage), (js ''/groups'', GroupsPage), (js ''/audit'', AuditPage)]"

definition console_basepath :: jstr where
  "console_basepath = js ''/console''"

datatype sign_out_effect = SetSigningOut bool | PostLogout "js_error + json option" | InvalidateMe

text \<open>
  \<open>signOut\<close>: the \<open>finally\<close> block runs whatever the request did, and its error is thrown on.
\<close>

definition sign_out :: "fetch \<Rightarrow> sign_out_effect list \<times> (js_error + unit)" where
  "sign_out fetch =
     (let r = api_post fetch (js ''/console/auth/logout'') None in
      ([SetSigningOut True, PostLogout r, SetSigningOut False, InvalidateMe],
       (case r of Inl e \<Rightarrow> Inl e | Inr _ \<Rightarrow> Inr ())))"

definition layout_view :: "me \<Rightarrow> theme \<Rightarrow> bool \<Rightarrow> node list \<Rightarrow> node" where
  "layout_view m theme signingOut outlet =
     El ''div'' []
       [El ''header'' []
          [El ''span'' [] [Txt (js ''Agentic Warden console'')],
           El ''div'' []
             [El ''span'' [] [Txt (me_user m)],
              theme_button_view theme,
              El ''button'' [(''type'', AS (js ''button'')), (''disabled'', AB signingOut)] [Txt (js ''Sign out'')]]],
        El ''nav'' [(''aria-label'', AS (js ''Console''))]
          (map (\<lambda>(to, label).
             El ''Link'' [(''to'', AS to), (''activeExact'', AB (to = js ''/''))] [Txt label]) navItems),
        El ''main'' [] outlet]"

lemma nav_routes: "map fst navItems = map fst routeTree" "distinct (map fst routeTree)"
  by (simp_all add: navItems_def routeTree_def)

lemma sign_out_always_asks: "last (fst (sign_out fetch)) = InvalidateMe"
  by (simp add: sign_out_def Let_def)

section \<open>How long a chain of answers can be\<close>

fun key_weight :: "query_key \<Rightarrow> nat" where
  "key_weight key = (if hd key = js ''me'' then 1 else 2)"

definition console_weight :: "console \<Rightarrow> nat" where
  "console_weight s = sum_list (map key_weight (cn_pending s))"

lemma weight_pending: "console_weight s \<le> 2 * length (cn_pending s)"
proof -
  have "sum_list (map key_weight ks) \<le> 2 * length ks" for ks by (induction ks) auto
  then show ?thesis by (simp add: console_weight_def)
qed

lemma weight_ask: "console_weight (ask ks s) \<le> console_weight s + sum_list (map key_weight ks)"
proof -
  have "sum_list (map key_weight (filter P ks)) \<le> sum_list (map key_weight ks)" for P by (induction ks) auto
  then show ?thesis by (simp add: console_weight_def)
qed

lemma weight_done: "k \<in> set (cn_pending s) \<Longrightarrow> console_weight (done_with k s) + key_weight k = console_weight s"
  by (simp add: console_weight_def sum_list_map_remove1)

lemma weight_mount: "sum_list (map key_weight (mount_keys p)) \<le> 8"
  by (cases p) simp_all

lemma query_answer_lowers:
  assumes "console_step s e t" "is_answer e" "\<And>r. e \<noteq> MeAnswer r" "wf_query (cn_me s)"
  shows "console_weight t < console_weight s" "console_open t = console_open s"
proof -
  consider (data) k where "e = Answered k" | (failure) k err where "e = QueryFailed k err"
    using assms(2,3) by (cases e) auto
  then have "console_weight t < console_weight s \<and> console_open t = console_open s"
  proof cases
    case (data k)
    with assms(1) weight_done [of k s] show ?thesis by (auto simp: guarded_def console_open_def split: if_splits)
  next
    case (failure k err)
    with assms(1) have k: "k \<in> set (cn_pending s)" "t = console_next e s" by (auto simp: guarded_def)
    note w = weight_done [OF k(1)] weight_ask [of "[me_key]" "done_with k s"]
    from on_query_error_cases [of err k] show ?thesis
    proof
      assume "on_query_error err k = []"
      with k w(1) failure show ?thesis by (simp add: Let_def ask_def console_open_def console_weight_def split: if_splits)
    next
      assume e: "on_query_error err k = [me_key] \<and> hd k \<noteq> js ''me''"
      then have t: "t = ask [me_key] (done_with k s)" using k(2) failure by (simp add: Let_def invalidate_me)
      have "console_open t = console_open s"
        using console_open_data [OF _ assms(4)]
        by (auto simp: t console_open_def ask_def start_me_def fresh_closed split: if_splits)
      with w e show ?thesis by (simp add: t me_key_def)
    qed
  qed
  then show "console_weight t < console_weight s" "console_open t = console_open s" by simp_all
qed

lemma me_answer_weight:
  assumes "console_step s (MeAnswer r) t"
  shows "console_weight t + 1 \<le> console_weight s + (if console_open t \<and> \<not> console_open s then 8 else 0)"
    and "console_open t \<longleftrightarrow> (\<exists>who. r = Inr who)"
proof -
  have me: "me_key \<in> set (cn_pending s)" and t: "t = console_next (MeAnswer r) s"
    using assms by (auto simp: guarded_def)
  define s' where "s' = (done_with me_key s)\<lparr>cn_me := settle_me (cn_me s) r\<rparr>"
  have w: "console_weight s' + 1 = console_weight s"
    using weight_done [OF me] by (simp add: s'_def console_weight_def me_key_def)
  have o': "console_open s' \<longleftrightarrow> (\<exists>who. r = Inr who)"
    by (auto simp: s'_def console_open_def gate_settled split: sum.splits js_error.splits)
  have eq: "t = (if \<not> console_open s' then s'\<lparr>cn_resolve := None\<rparr> else if console_open s then s' else ask (mount_keys (cn_page s)) s')"
    using o' by (cases r) (simp_all add: t s'_def Let_def)
  have "me_key \<notin> set (mount_keys p)" for p by (cases p) (simp_all add: me_key_def)
  then have "console_open t \<longleftrightarrow> console_open s'" by (simp add: eq ask_def console_open_def)
  with o' show "console_open t \<longleftrightarrow> (\<exists>who. r = Inr who)" by simp
  have "console_weight (ask (mount_keys (cn_page s)) s') \<le> console_weight s' + 8"
    using weight_ask [of "mount_keys (cn_page s)" s'] weight_mount [of "cn_page s"] by linarith
  then show "console_weight t + 1 \<le> console_weight s + (if console_open t \<and> \<not> console_open s then 8 else 0)"
    using w \<open>console_open t \<longleftrightarrow> console_open s'\<close> unfolding eq by (auto simp: console_weight_def)
qed

text \<open>
  Answers use up the requests under way. Only an answer that opens the console brings new ones; one can
  charge it to that answer, or to the one that closed the console before.
\<close>

definition answer_step :: "console \<Rightarrow> console_event \<Rightarrow> console \<Rightarrow> bool" where
  "answer_step s e t \<longleftrightarrow> console_step s e t \<and> is_answer e \<and> wf_query (cn_me s)"

fun me_succeeds :: "console_event \<Rightarrow> bool" where
  "me_succeeds (MeAnswer (Inr who)) \<longleftrightarrow> True"
| "me_succeeds e \<longleftrightarrow> False"

fun me_fails :: "console_event \<Rightarrow> bool" where
  "me_fails (MeAnswer (Inl err)) \<longleftrightarrow> True"
| "me_fails e \<longleftrightarrow> False"

definition closed_weight :: "console \<Rightarrow> nat" where
  "closed_weight s = console_weight s + (if console_open s then 0 else 8)"

lemma answer_step_cases:
  assumes "answer_step s e t"
  obtains "console_weight t < console_weight s" "console_open t = console_open s" "\<not> me_succeeds e" "\<not> me_fails e"
  | "me_succeeds e" "console_open t" "console_weight t + 1 \<le> console_weight s + (if console_open s then 0 else 8)"
  | "me_fails e" "\<not> console_open t" "console_weight t + 1 \<le> console_weight s"
proof (cases "\<exists>r. e = MeAnswer r")
  case True
  then obtain r where r: "e = MeAnswer r" ..
  with assms me_answer_weight [of s r t] that(2,3) show thesis
    by (cases r) (auto simp: answer_step_def split: if_splits)
next
  case False
  then have "\<not> me_succeeds e" "\<not> me_fails e" by (auto elim: me_succeeds.elims me_fails.elims)
  with False assms query_answer_lowers [of s e t] that(1) show thesis by (auto simp: answer_step_def)
qed

interpretation by_success: refilled_machine answer_step console_weight "\<lambda>e. if me_succeeds e then 8 else 0"
  by unfold_locales (auto elim!: answer_step_cases split: if_splits)

interpretation by_failure: refilled_machine answer_step closed_weight "\<lambda>e. if me_fails e then 8 else 0"
  by unfold_locales (auto elim!: answer_step_cases simp: closed_weight_def split: if_splits)

lemma answers_only:
  "trace console_step s es t \<Longrightarrow> list_all is_answer es \<Longrightarrow> wf_query (cn_me s) \<Longrightarrow> trace answer_step s es t"
proof (induction rule: trace.induct)
  case (trace_Cons s e t es u)
  then show ?case using console_step_wf [of s e t] by (auto simp: answer_step_def trace_Cons_iff)
qed simp

lemma refills: "sum_list (map (\<lambda>e. if P e then 8 else 0) es) = 8 * length (filter P es)"
  by (induction es) auto

text \<open>C23. What failed requests set off comes to an end unless the session itself flaps: answers alone, whatever
  they are and in whatever order, are at most twice as many as the requests under way, with eight more
  for each answer that grants the session; also with eight more for each answer that refuses it and, if
  the console is not open yet, for its opening. So an endless chain needs both endlessly often.\<close>

theorem error_cascade_bounded:
  assumes "trace console_step s es t" "list_all is_answer es" "wf_query (cn_me s)"
  shows "length es \<le> 2 * length (cn_pending s) + 8 * length (filter me_succeeds es) \<and>
    length es \<le> 2 * length (cn_pending s) + 8 * (length (filter me_fails es) + (if console_open s then 0 else 1))"
proof
  note run = answers_only [OF assms]
  show "length es \<le> 2 * length (cn_pending s) + 8 * length (filter me_succeeds es)"
    using by_success.trace_spends [OF run] weight_pending [of s] by (simp add: refills)
  show "length es \<le> 2 * length (cn_pending s) + 8 * (length (filter me_fails es) + (if console_open s then 0 else 1))"
    using by_failure.trace_spends [OF run] weight_pending [of s] by (simp add: refills closed_weight_def split: if_splits)
qed

definition ada :: me where
  "ada = \<lparr>me_user = js ''ada'', me_expiresAt = [], me_signingKeyId = None\<rparr>"

definition overview_open :: "query_key list \<Rightarrow> console" where
  "overview_open ks = \<lparr>cn_me = settle_me fresh_me (Inr ada), cn_page = OverviewPage, cn_resolve = None, cn_pending = ks\<rparr>"

lemma overview_wf: "wf_query (cn_me (overview_open ks))"
  by (simp add: overview_open_def settle_me_wf)

lemmas console_eval = trace_guarded console_open_def gate_def settle_me_def ask_def done_with_def start_me_def
  on_query_error_def invalidate_def active_keys_def screen_keys_def key_matches_def me_key_def Let_def

lemma sample_failure:
  "\<exists>t. trace console_step (overview_open [[js ''machines'']])
     [QueryFailed [js ''machines''] (ApiError 401 []), MeAnswer (Inl (ApiError 401 []))] t \<and> cn_pending t = []"
  by (simp add: overview_open_def fresh_me_def console_eval)

theorem error_cascade_bounded_witness:
  "length [QueryFailed [js ''machines''] (ApiError 401 []), MeAnswer (Inl (ApiError 401 []))]
     \<le> 2 * length (cn_pending (overview_open [[js ''machines'']]))"
proof -
  obtain t where "trace console_step (overview_open [[js ''machines'']])
     [QueryFailed [js ''machines''] (ApiError 401 []), MeAnswer (Inl (ApiError 401 []))] t"
    using sample_failure by blast
  from error_cascade_bounded [OF this _ overview_wf] show ?thesis by simp
qed

text \<open>
  When it does flap the chain need not end: the screens are unmounted by a refusal and fetch again when
  the next grant mounts them, and two requests of the overview that fail one after the other are enough
  to bring the console back to where it was.
\<close>

definition flap :: "query_key \<Rightarrow> query_key \<Rightarrow> console_event list" where
  "flap k l =
     [QueryFailed k (ApiError 503 []), MeAnswer (Inl (ApiError 503 [])), QueryFailed l (ApiError 503 []), MeAnswer (Inr ada)]"

theorem flapping_is_endless:
  "\<exists>es. length es = 8 * n \<and> list_all is_answer es \<and>
     trace console_step (overview_open (mount_keys OverviewPage)) es (overview_open (mount_keys OverviewPage))"
proof (induction n)
  case 0
  show ?case by (intro exI [of _ "[]"]) simp
next
  case (Suc n)
  then obtain es where es: "length es = 8 * n" "list_all is_answer es"
    "trace console_step (overview_open (mount_keys OverviewPage)) es (overview_open (mount_keys OverviewPage))" by blast
  let ?fs = "flap [js ''revisions''] [js ''machines''] @ flap [js ''groups''] [js ''audit'', js ''recent'']"
  have "trace console_step (overview_open (mount_keys OverviewPage)) ?fs (overview_open (mount_keys OverviewPage))"
    by (simp add: overview_open_def fresh_me_def flap_def console_eval)
  moreover have "length ?fs = 8" "list_all is_answer ?fs" by (simp_all add: flap_def)
  ultimately show ?case using es by (intro exI [of _ "?fs @ es"]) (auto simp: trace_append)
qed

section \<open>A lost session\<close>

lemma me_stays_asked:
  assumes "console_step s e t" "\<And>r. e \<noteq> MeAnswer r"
  shows "me_key \<in> set (cn_pending s) \<longrightarrow> me_key \<in> set (cn_pending t)"
    and "cn_me t = cn_me s \<or> me_key \<in> set (cn_pending t)"
  using assms by (cases e; force simp: guarded_def ask_def done_with_def Let_def)+

lemma unanswered:
  "trace console_step s es t \<Longrightarrow> (\<And>r. MeAnswer r \<notin> set es) \<Longrightarrow>
     (me_key \<in> set (cn_pending s) \<longrightarrow> me_key \<in> set (cn_pending t)) \<and> (cn_me t = cn_me s \<or> me_key \<in> set (cn_pending t))"
proof (induction rule: trace.induct)
  case (trace_Cons s e t es u)
  have "\<And>r. e \<noteq> MeAnswer r" using trace_Cons.prems by (metis list.set_intros(1))
  with me_stays_asked [OF trace_Cons.hyps(1)] trace_Cons.IH trace_Cons.prems show ?case by auto
qed simp

lemma last_answer:
  assumes "MeAnswer r \<in> set es"
  obtains gs q hs where "es = gs @ MeAnswer q # hs" "\<And>r. MeAnswer r \<notin> set hs"
  using split_list_last_prop [of es "\<lambda>e. \<exists>r. e = MeAnswer r"] assms by blast

text \<open>C24. A lost session is noticed by every query: once a query of any screen has failed with status 401, 403
  or 503, then whatever happens next, as soon as no answer about the session is awaited any more one
  has arrived, and the last of them decides what is on the screen: 401 the sign-in, 403 the refusal, a
  success the console, anything else neither of these.\<close>

theorem session_loss_noticed:
  assumes "trace console_step s (es @ QueryFailed k (ApiError status m) # fs) t" "status \<in> {401, 403, 503}" "hd k \<noteq> js ''me''"
    and "me_key \<notin> set (cn_pending t)"
  shows "\<exists>gs r hs. fs = gs @ MeAnswer r # hs \<and> (\<forall>q. MeAnswer q \<notin> set hs) \<and>
    (gate (cn_me t) = SignInScreen \<longleftrightarrow> (\<exists>x. r = Inl (ApiError 401 x))) \<and>
    (gate (cn_me t) = Message (js ''No access'') (js ''You are not a console admin.'') \<longleftrightarrow> (\<exists>x. r = Inl (ApiError 403 x))) \<and>
    (\<forall>who. gate (cn_me t) = ConsoleScreen who \<longleftrightarrow> r = Inr who)"
proof -
  obtain s1 s2 where s: "console_step s1 (QueryFailed k (ApiError status m)) s2" "trace console_step s2 fs t"
    using assms(1) by (auto simp: trace_append trace_Cons_iff)
  have "me_key \<in> set (cn_pending s2)"
    using s(1) assms(2,3) by (auto simp: guarded_def Let_def on_query_error_def invalidate_me)
  with unanswered [OF s(2)] assms(4) obtain r where "MeAnswer r \<in> set fs" by blast
  then obtain gs q hs where fs: "fs = gs @ MeAnswer q # hs" "\<And>r. MeAnswer r \<notin> set hs" by (rule last_answer) blast
  then obtain u v where u: "console_step u (MeAnswer q) v" "trace console_step v hs t"
    using s(2) by (auto simp: trace_append trace_Cons_iff)
  have "cn_me t = cn_me v" using unanswered [OF u(2) fs(2)] assms(4) by blast
  also have "\<dots> = settle_me (cn_me u) q"
  proof -
    have "me_key \<notin> set (mount_keys p)" for p by (cases p) (simp_all add: me_key_def)
    with u(1) show ?thesis by (auto simp: guarded_def Let_def ask_def split: sum.splits)
  qed
  finally have "gate (cn_me t) = gate (settle_me (cn_me u) q)" by simp
  then show ?thesis
    by (intro exI [of _ gs] exI [of _ q] exI [of _ hs])
      (auto simp: fs gate_settled split: sum.splits js_error.splits if_splits)
qed

theorem session_loss_noticed_witness:
  "\<exists>t. trace console_step (overview_open [[js ''machines'']])
     [QueryFailed [js ''machines''] (ApiError 401 []), MeAnswer (Inl (ApiError 401 []))] t \<and> gate (cn_me t) = SignInScreen"
proof -
  obtain t where t: "trace console_step (overview_open [[js ''machines'']])
     ([] @ QueryFailed [js ''machines''] (ApiError 401 []) # [MeAnswer (Inl (ApiError 401 []))]) t" "cn_pending t = []"
    using sample_failure by auto
  have "(401 :: nat) \<in> {401, 403, 503}" "hd [js ''machines''] \<noteq> js ''me''" "me_key \<notin> set (cn_pending t)"
    using t(2) by simp_all
  from session_loss_noticed [OF t(1) this] obtain gs r hs where
    split: "[MeAnswer (Inl (ApiError 401 []))] = gs @ MeAnswer r # hs"
    and signed: "gate (cn_me t) = SignInScreen \<longleftrightarrow> (\<exists>x. r = Inl (ApiError 401 x))" by auto
  from split have "r = Inl (ApiError 401 [])" by (cases gs) auto
  with signed t(1) show ?thesis by auto
qed

text \<open>
  Posts are not queries: a 401 that answers the enrollment form, the revision form or the revoke dialog
  asks nothing again, and the console stays as it is.
\<close>

theorem failed_post_unnoticed:
  "console_step s (MutationFailed (ApiError 401 m)) t \<Longrightarrow> t = s"
  by (simp add: guarded_def)

section \<open>The gate and the answers\<close>

text \<open>The gate follows the last answer about the session, and only that: the query record stays well
  formed through every sequence of answers, and what is shown is decided by the last one. The
  console is rendered exactly when it was a success, for its user, and never over a failed answer,
  although the user of an earlier success is still in the record.\<close>

theorem gate_follows_last_answer:
  assumes "rs \<noteq> []"
  shows "wf_query (foldl settle_me fresh_me rs) \<and>
    (\<forall>who. gate (foldl settle_me fresh_me rs) = ConsoleScreen who \<longleftrightarrow> last rs = Inr who) \<and>
    (\<forall>m. last rs = Inl (ApiError 401 m) \<longrightarrow> gate (foldl settle_me fresh_me rs) = SignInScreen) \<and>
    (\<forall>m. last rs = Inl (ApiError 403 m) \<longrightarrow>
       gate (foldl settle_me fresh_me rs) = Message (js ''No access'') (js ''You are not a console admin.''))"
proof -
  obtain rs' r where rs: "rs = rs' @ [r]" using assms by (cases rs rule: rev_cases) auto
  have fold: "foldl settle_me fresh_me rs = settle_me (foldl settle_me fresh_me rs') r" by (simp add: rs)
  show ?thesis
    unfolding fold gate_settled by (auto simp: rs settle_me_wf split: sum.splits js_error.splits)
qed

theorem gate_follows_last_answer_witness:
  "gate (foldl settle_me fresh_me
     [Inr \<lparr>me_user = js ''ada'', me_expiresAt = [], me_signingKeyId = None\<rparr>, Inl (ApiError 401 [])]) = SignInScreen"
  by (rule gate_follows_last_answer [THEN conjunct2, THEN conjunct2, THEN conjunct1, rule_format]) simp_all

end
