(* ===== verification/PolicyScreen.thy ===== *)
theory PolicyScreen
  imports Confirmation PolicyEditor Transitions Session
begin

text \<open>
  \<^verbatim>\<open>console/src/screens/policy.tsx\<close>: the revision list, the comparison of two revisions, and the
  form for a new revision, which is a state machine. Its events are what the operator does and
  what arrives: the revisions query, the editor (loaded lazily), the answer to the POST request.
  After each event React runs the effects whose inputs changed: first the one that seeds the
  draft, then, when that changed the draft, the one of the editor that replaces its document.
\<close>

section \<open>The new revision form\<close>

record form_state =
  nr_current :: "revision option"
  nr_loaded :: bool
  nr_draft :: jstr
  nr_error :: "jstr option"
  nr_error_line :: "nat option"
  nr_review :: json
  nr_open :: bool
  nr_touched :: bool
  nr_doc :: "jstr list option"
  nr_pending :: "json option"
  nr_done :: bool
  nr_posts :: "json list"
  nr_messages :: "jstr list"
  nr_invalidated :: "query_key list"
  nr_reviews :: "(jstr \<times> json) list"

text \<open>
  \<open>nr_doc\<close> is the document of the mounted editor; \<open>nr_posts\<close>, \<open>nr_messages\<close> and \<open>nr_invalidated\<close>
  record the requests sent, what \<open>onDone\<close> was called with and the keys invalidated;
  \<open>nr_reviews\<close> is a history of the drafts that passed review, kept for the proofs only.
\<close>

definition empty_rule_set :: json where
  "empty_rule_set = JObj [(js ''version'', JStr []), (js ''rules'', JArr [])]"

definition current_yaml :: "(json \<Rightarrow> jstr) \<Rightarrow> form_state \<Rightarrow> jstr" where
  "current_yaml yaml s = yaml (case nr_current s of None \<Rightarrow> empty_rule_set | Some r \<Rightarrow> rev_ruleSet r)"

definition form_init :: "(json \<Rightarrow> jstr) \<Rightarrow> revision option \<Rightarrow> bool \<Rightarrow> form_state" where
  "form_init yaml cur loaded =
     \<lparr>nr_current = cur, nr_loaded = loaded,
      nr_draft = yaml (case cur of None \<Rightarrow> empty_rule_set | Some r \<Rightarrow> rev_ruleSet r),
      nr_error = None, nr_error_line = None, nr_review = JNull, nr_open = False, nr_touched = False,
      nr_doc = None, nr_pending = None, nr_done = False, nr_posts = [], nr_messages = [],
      nr_invalidated = [], nr_reviews = []\<rparr>"

text \<open>\<open>(reviewValue as { version?: string } | null)?.version ?? ""\<close>, as a template writes it.\<close>

definition version_text :: "json \<Rightarrow> jstr" where
  "version_text v =
     (case json_field v (js ''version'') of None \<Rightarrow> [] | Some JNull \<Rightarrow> [] | Some x \<Rightarrow> js_to_string x)"

definition editDraft :: "jstr \<Rightarrow> form_state \<Rightarrow> form_state" where
  "editDraft value s = s\<lparr>nr_touched := True, nr_draft := value\<rparr>"

text \<open>The two effects.\<close>

definition seed_draft :: "(json \<Rightarrow> jstr) \<Rightarrow> form_state \<Rightarrow> form_state \<Rightarrow> form_state" where
  "seed_draft yaml old s =
     (if (nr_loaded old, current_yaml yaml old) \<noteq> (nr_loaded s, current_yaml yaml s) \<and>
         nr_loaded s \<and> \<not> nr_touched s
      then s\<lparr>nr_draft := current_yaml yaml s\<rparr> else s)"

definition sync_editor :: "(jstr \<Rightarrow> jstr list) \<Rightarrow> form_state \<Rightarrow> form_state \<Rightarrow> form_state" where
  "sync_editor cm_lines old s =
     (case nr_doc s of
        None \<Rightarrow> s
      | Some doc \<Rightarrow>
          (if nr_draft old = nr_draft s then s
           else (case sync_value cm_lines (nr_draft s) doc of
                   (doc', None) \<Rightarrow> s
                 | (doc', Some value) \<Rightarrow> editDraft value (s\<lparr>nr_doc := Some doc'\<rparr>))))"

text \<open>
  The editor mounts with the draft as its document; then the effect of its \<open>value\<close> property runs for the
  first time and replaces the document when its text is not the draft, which a carriage return in the
  draft makes it.
\<close>

definition mount_editor :: "(jstr \<Rightarrow> jstr list) \<Rightarrow> form_state \<Rightarrow> form_state" where
  "mount_editor cm_lines s =
     (case sync_value cm_lines (nr_draft s) (cm_lines (nr_draft s)) of
        (doc, None) \<Rightarrow> s\<lparr>nr_doc := Some doc\<rparr>
      | (doc, Some value) \<Rightarrow> editDraft value (s\<lparr>nr_doc := Some doc\<rparr>))"

definition run_effects :: "(jstr \<Rightarrow> jstr list) \<Rightarrow> (json \<Rightarrow> jstr) \<Rightarrow> form_state \<Rightarrow> form_state \<Rightarrow> form_state" where
  "run_effects cm_lines yaml old s = sync_editor cm_lines old (seed_draft yaml old s)"

definition review :: "(jstr \<Rightarrow> yaml_doc) \<Rightarrow> form_state \<Rightarrow> form_state" where
  "review parse s =
     (case parsePolicy parse (nr_draft s) of
        ParseError message line \<Rightarrow>
          s\<lparr>nr_error := Some (js ''Line '' @ show_nat line @ js '': '' @ message), nr_error_line := Some line\<rparr>
      | ParsedOk v \<Rightarrow>
          s\<lparr>nr_error := None, nr_error_line := None, nr_review := v, nr_open := True,
            nr_reviews := nr_reviews s @ [(nr_draft s, v)]\<rparr>
      | ParseThrows \<Rightarrow> s\<lparr>nr_error := None\<rparr>)"

text \<open>
  The callbacks of the mutation. While a request is under way the library calls the callbacks of
  the latest render, so \<open>onSuccess\<close> reads the review value of that moment.
\<close>

definition on_post_success :: "form_state \<Rightarrow> form_state" where
  "on_post_success s =
     s\<lparr>nr_pending := None, nr_open := False,
       nr_messages := nr_messages s @ [js ''Applied '' @ version_text (nr_review s)], nr_done := True,
       nr_invalidated := nr_invalidated s @ [[js ''revisions''], [js ''audit'']]\<rparr>"

definition on_post_error :: "js_error \<Rightarrow> form_state \<Rightarrow> form_state" where
  "on_post_error e s =
     s\<lparr>nr_pending := None, nr_open := False,
       nr_error := Some (api_error_or (js ''Could not create the revision.'') (Some e))\<rparr>"

datatype form_event =
    QueryUpdate "revision option" bool
  | EditorReady
  | TypeDoc "jstr list"
  | ClickReview
  | CloseDialog
  | ClickApply
  | PostOk
  | PostFailed js_error

fun form_can :: "form_event \<Rightarrow> form_state \<Rightarrow> bool" where
  "form_can (QueryUpdate cur loaded) s \<longleftrightarrow> \<not> nr_done s"
| "form_can EditorReady s \<longleftrightarrow> \<not> nr_done s \<and> nr_doc s = None"
| "form_can (TypeDoc doc) s \<longleftrightarrow> \<not> nr_done s \<and> nr_doc s \<noteq> None \<and> nr_doc s \<noteq> Some doc"
| "form_can ClickReview s \<longleftrightarrow> \<not> nr_done s"
| "form_can CloseDialog s \<longleftrightarrow> \<not> nr_done s \<and> nr_open s"
| "form_can ClickApply s \<longleftrightarrow> \<not> nr_done s \<and> nr_open s \<and> nr_pending s = None"
| "form_can PostOk s \<longleftrightarrow> \<not> nr_done s \<and> nr_pending s \<noteq> None"
| "form_can (PostFailed e) s \<longleftrightarrow> \<not> nr_done s \<and> nr_pending s \<noteq> None"

fun form_next :: "(jstr \<Rightarrow> jstr list) \<Rightarrow> (jstr \<Rightarrow> yaml_doc) \<Rightarrow> (json \<Rightarrow> jstr) \<Rightarrow> form_event \<Rightarrow> form_state \<Rightarrow> form_state" where
  "form_next cm_lines parse yaml (QueryUpdate cur loaded) s =
     run_effects cm_lines yaml s (s\<lparr>nr_current := cur, nr_loaded := loaded\<rparr>)"
| "form_next cm_lines parse yaml EditorReady s = mount_editor cm_lines s"
| "form_next cm_lines parse yaml (TypeDoc doc) s = editDraft (doc_text doc) (s\<lparr>nr_doc := Some doc\<rparr>)"
| "form_next cm_lines parse yaml ClickReview s = review parse s"
| "form_next cm_lines parse yaml CloseDialog s = s\<lparr>nr_open := False\<rparr>"
| "form_next cm_lines parse yaml ClickApply s =
     s\<lparr>nr_pending := Some (nr_review s), nr_posts := nr_posts s @ [nr_review s]\<rparr>"
| "form_next cm_lines parse yaml PostOk s = on_post_success s"
| "form_next cm_lines parse yaml (PostFailed e) s = on_post_error e s"

abbreviation form_step where
  "form_step cm_lines parse yaml \<equiv> guarded form_can (form_next cm_lines parse yaml)"

definition form_view :: "(jstr \<Rightarrow> jstr \<Rightarrow> diff_part list) \<Rightarrow> (json \<Rightarrow> jstr) \<Rightarrow> form_state \<Rightarrow> node list" where
  "form_view diffLines yaml s =
     [El ''div'' []
       ([El ''h2'' [] [Txt (js ''New revision'')],
         El ''p'' [] [Txt (js ''Comments are not kept: revisions are stored as JSON.'')]] @
        (if truthy (nr_error s) then [alert_p (the (nr_error s))] else []) @
        [El ''YamlEditor'' ([(''value'', AS (nr_draft s)), (''ariaLabel'', AS (js ''Policy YAML''))] @
           (case nr_error_line s of None \<Rightarrow> [] | Some l \<Rightarrow> [(''errorLine'', AN (int l))])) [],
         El ''div'' [] [El ''Button'' [(''type'', AS (js ''button''))] [Txt (js ''Review changes'')]],
         El ''Dialog'' [(''open'', AB (nr_open s))]
           [El ''DialogContent'' []
             [El ''DialogHeader'' []
                [El ''DialogTitle'' [] [Txt (js ''Apply revision ''), Txt (version_text (nr_review s))],
                 El ''DialogDescription'' [] [Txt (js ''Review the changes before applying this revision.'')]],
              LineDiff diffLines (current_yaml yaml s) (yaml (nr_review s)),
              El ''DialogFooter'' []
                [El ''Button'' [(''type'', AS (js ''button'')), (''disabled'', AB (nr_pending s \<noteq> None))]
                   [Txt (js ''Apply revision'')]]]]])]"

section \<open>Invariants of the form\<close>

definition form_inv :: "(jstr \<Rightarrow> yaml_doc) \<Rightarrow> (json \<Rightarrow> jstr) \<Rightarrow> form_state \<Rightarrow> bool" where
  "form_inv parse yaml s \<longleftrightarrow>
     (nr_open s \<longrightarrow> nr_reviews s \<noteq> [] \<and> snd (last (nr_reviews s)) = nr_review s) \<and>
     (\<forall>(d, v) \<in> set (nr_reviews s). parsePolicy parse d = ParsedOk v) \<and>
     set (nr_posts s) \<subseteq> snd ` set (nr_reviews s) \<and>
     (\<forall>v. nr_pending s = Some v \<longrightarrow> nr_posts s \<noteq> [] \<and> last (nr_posts s) = v) \<and>
     (nr_touched s \<longrightarrow> nr_doc s \<noteq> None) \<and>
     (nr_loaded s \<and> \<not> nr_touched s \<longrightarrow> nr_draft s = current_yaml yaml s)"

lemma seed_draft_fields [simp]:
  "nr_current (seed_draft y o' s) = nr_current s" "nr_loaded (seed_draft y o' s) = nr_loaded s"
  "nr_review (seed_draft y o' s) = nr_review s" "nr_open (seed_draft y o' s) = nr_open s"
  "nr_touched (seed_draft y o' s) = nr_touched s" "nr_pending (seed_draft y o' s) = nr_pending s"
  "nr_posts (seed_draft y o' s) = nr_posts s" "nr_reviews (seed_draft y o' s) = nr_reviews s"
  "nr_done (seed_draft y o' s) = nr_done s" "nr_doc (seed_draft y o' s) = nr_doc s"
  by (simp_all add: seed_draft_def)

lemma sync_editor_fields [simp]:
  "nr_current (sync_editor c o' s) = nr_current s" "nr_loaded (sync_editor c o' s) = nr_loaded s"
  "nr_review (sync_editor c o' s) = nr_review s" "nr_open (sync_editor c o' s) = nr_open s"
  "nr_pending (sync_editor c o' s) = nr_pending s"
  "nr_posts (sync_editor c o' s) = nr_posts s" "nr_reviews (sync_editor c o' s) = nr_reviews s"
  "nr_done (sync_editor c o' s) = nr_done s"
  by (simp_all add: sync_editor_def editDraft_def split: option.splits prod.splits)

lemma mount_editor_fields [simp]:
  "nr_current (mount_editor c s) = nr_current s" "nr_loaded (mount_editor c s) = nr_loaded s"
  "nr_review (mount_editor c s) = nr_review s" "nr_open (mount_editor c s) = nr_open s"
  "nr_pending (mount_editor c s) = nr_pending s" "nr_posts (mount_editor c s) = nr_posts s"
  "nr_reviews (mount_editor c s) = nr_reviews s" "nr_done (mount_editor c s) = nr_done s"
  "nr_doc (mount_editor c s) \<noteq> None"
  by (simp_all add: mount_editor_def editDraft_def split: option.splits prod.splits)

lemma mount_editor_draft: "\<not> nr_touched (mount_editor c s) \<Longrightarrow> \<not> nr_touched s \<and> nr_draft (mount_editor c s) = nr_draft s"
  by (auto simp: mount_editor_def editDraft_def split: option.splits prod.splits)

lemma sync_editor_doc: "nr_doc (sync_editor c o' s) = None \<longleftrightarrow> nr_doc s = None"
  by (simp add: sync_editor_def editDraft_def split: option.splits prod.splits)

lemma sync_editor_touches: "nr_touched (sync_editor c o' s) \<Longrightarrow> nr_touched s \<or> nr_doc s \<noteq> None"
  by (simp add: sync_editor_def split: option.splits)

lemma sync_editor_touched: "nr_touched s \<Longrightarrow> nr_touched (sync_editor c o' s)"
  by (simp add: sync_editor_def editDraft_def split: option.splits prod.splits)

lemma sync_editor_draft: "\<not> nr_touched (sync_editor c o' s) \<Longrightarrow> sync_editor c o' s = s"
  by (simp add: sync_editor_def editDraft_def split: option.splits prod.splits if_splits)

lemma current_yaml_cong: "nr_current s = nr_current t \<Longrightarrow> current_yaml y s = current_yaml y t"
  by (simp add: current_yaml_def)

lemma current_yaml_upd [simp]:
  "current_yaml y (s\<lparr>nr_doc := d\<rparr>) = current_yaml y s"
  "current_yaml y (s\<lparr>nr_open := b\<rparr>) = current_yaml y s"
  "current_yaml y (editDraft v s) = current_yaml y s"
  "current_yaml y (review p s) = current_yaml y s"
  "current_yaml y (on_post_success s) = current_yaml y s"
  "current_yaml y (on_post_error e s) = current_yaml y s"
  "current_yaml y (s\<lparr>nr_pending := q, nr_posts := ps\<rparr>) = current_yaml y s"
  by (simp_all add: current_yaml_def editDraft_def review_def on_post_success_def on_post_error_def split: parsed.splits)

lemma query_update_draft:
  assumes "form_inv parse yaml s" "t = run_effects cm yaml s (s\<lparr>nr_current := cur, nr_loaded := l\<rparr>)"
    "nr_loaded t" "\<not> nr_touched t"
  shows "nr_draft t = current_yaml yaml t"
proof -
  let ?s1 = "s\<lparr>nr_current := cur, nr_loaded := l\<rparr>"
  have t: "t = seed_draft yaml s ?s1"
    using assms(2,4) sync_editor_draft by (simp add: run_effects_def)
  then have "l" "\<not> nr_touched s" using assms(3,4) by simp_all
  moreover have "nr_draft s = current_yaml yaml s" if "nr_loaded s"
    using assms(1) that \<open>\<not> nr_touched s\<close> by (simp add: form_inv_def)
  moreover have "current_yaml yaml t = current_yaml yaml ?s1"
    by (rule current_yaml_cong) (simp add: t)
  ultimately show ?thesis by (auto simp: t seed_draft_def)
qed

lemma form_inv_step:
  assumes "form_inv parse yaml s" "form_can e s"
  shows "form_inv parse yaml (form_next cm parse yaml e s)"
proof (cases e)
  case (QueryUpdate cur l)
  let ?t = "form_next cm parse yaml e s"
  have "nr_touched ?t \<Longrightarrow> nr_doc ?t \<noteq> None"
    using assms(1) sync_editor_touches [of cm s "seed_draft yaml s (s\<lparr>nr_current := cur, nr_loaded := l\<rparr>)"]
    by (auto simp: QueryUpdate run_effects_def sync_editor_doc form_inv_def)
  with QueryUpdate assms query_update_draft [where cm = cm and cur = cur and l = l, OF assms(1) refl] show ?thesis
    by (cases l) (simp_all add: form_inv_def run_effects_def)
next
  case EditorReady
  have "current_yaml yaml (mount_editor cm s) = current_yaml yaml s" by (rule current_yaml_cong) simp
  with EditorReady assms mount_editor_draft [of cm s] show ?thesis by (simp add: form_inv_def)
next
  case ClickReview
  with assms show ?thesis
    by (auto simp: form_inv_def review_def current_yaml_def split: parsed.splits)
next
  case ClickApply
  with assms have "nr_reviews s \<noteq> []" "snd (last (nr_reviews s)) = nr_review s"
    by (simp_all add: form_inv_def)
  then have "nr_review s \<in> snd ` set (nr_reviews s)" by (metis image_eqI last_in_set)
  with ClickApply assms(1) show ?thesis by (simp add: form_inv_def)
qed (use assms in \<open>simp_all add: form_inv_def editDraft_def on_post_success_def on_post_error_def current_yaml_def\<close>)

lemma form_inv_init: "form_inv parse yaml (form_init yaml cur l)"
  by (simp add: form_inv_def form_init_def current_yaml_def)

interpretation form: invariant_machine "\<lambda>s. \<exists>cur l. s = form_init yaml cur l" "form_step cm parse yaml" "form_inv parse yaml"
  for cm parse yaml
  by unfold_locales (auto simp: guarded_def intro: form_inv_init form_inv_step)

lemma keep_typed:
  assumes "form_step cm parse yaml s e t" "nr_touched s" "nr_doc s \<noteq> None" "\<And>d. e \<noteq> TypeDoc d"
  shows "nr_touched t \<and> nr_draft t = nr_draft s"
  using assms
  by (cases e)
    (auto simp: guarded_def run_effects_def seed_draft_def sync_editor_def review_def on_post_success_def
      on_post_error_def split: parsed.splits option.splits)

fun is_apply :: "form_event \<Rightarrow> bool" where
  "is_apply ClickApply = True"
| "is_apply _ = False"

fun is_post_answer :: "form_event \<Rightarrow> bool" where
  "is_post_answer PostOk = True"
| "is_post_answer (PostFailed e) = True"
| "is_post_answer _ = False"

interpretation flight: single_flight "form_step cm parse yaml" "\<lambda>s. nr_pending s \<noteq> None" is_apply is_post_answer
  for cm parse yaml
proof unfold_locales
  fix s e t
  assume "form_step cm parse yaml s e t" "nr_pending s \<noteq> None" "\<not> is_post_answer e"
  then show "nr_pending t \<noteq> None"
    by (cases e) (auto simp: guarded_def run_effects_def editDraft_def review_def split: parsed.splits)
next
  fix s e t
  assume "form_step cm parse yaml s e t" "is_apply e"
  then show "\<not> nr_pending s \<noteq> None" "nr_pending t \<noteq> None"
    by (cases e; simp add: guarded_def)+
qed

lemma is_post_answer_iff: "is_post_answer e \<longleftrightarrow> e = PostOk \<or> (\<exists>err. e = PostFailed err)"
  by (cases e) simp_all

section \<open>Sample parameters\<close>

definition sample_cm :: "jstr \<Rightarrow> jstr list" where
  "sample_cm s = split_char LF (normalize_breaks s)"

definition sample_version :: "jstr \<Rightarrow> json" where
  "sample_version v = JObj [(js ''version'', JStr v)]"

definition sample_reader :: "jstr \<Rightarrow> yaml_doc" where
  "sample_reader t = \<lparr>yd_errors = [], yd_value = Some (sample_version t)\<rparr>"

definition sample_revision :: "int \<Rightarrow> jstr \<Rightarrow> revision" where
  "sample_revision n v =
     \<lparr>rev_seq = n, rev_version = v, rev_ruleSet = sample_version v, rev_createdAt = [], rev_createdBy = None\<rparr>"

lemma version_text_sample [simp]: "version_text (sample_version v) = v" "version_text empty_rule_set = []"
  by (simp_all add: version_text_def sample_version_def json_field_def empty_rule_set_def)

lemmas form_eval = trace_guarded form_init_def current_yaml_def mount_editor_def run_effects_def seed_draft_def sync_editor_def
  sync_value_def doc_text_def sample_cm_def editDraft_def review_def parsePolicy_def sample_reader_def
  on_post_success_def on_post_error_def sample_revision_def trim_def trim_start_def trim_end_def is_ws_def

section \<open>Properties of the form\<close>

lemma apply_posts_reviewed:
  assumes "trace (form_step cm parse yaml) (form_init yaml cur loaded) (es @ ClickApply # fs) u"
  shows "\<exists>s t d. trace (form_step cm parse yaml) (form_init yaml cur loaded) es s \<and>
    form_step cm parse yaml s ClickApply t \<and> nr_open s \<and> nr_posts t = nr_posts s @ [nr_review s] \<and>
    (d, nr_review s) \<in> set (nr_reviews s) \<and> parsePolicy parse d = ParsedOk (nr_review s)"
proof -
  obtain s t where s: "trace (form_step cm parse yaml) (form_init yaml cur loaded) es s"
    and t: "form_step cm parse yaml s ClickApply t"
    using assms by (auto simp: trace_append trace_Cons_iff)
  have i: "form_inv parse yaml s"
    by (rule form.reachable_inv [OF _ s]) blast
  from t have o1: "nr_open s" "nr_posts t = nr_posts s @ [nr_review s]" by (auto simp: guarded_def)
  with i obtain d where "(d, nr_review s) \<in> set (nr_reviews s)"
    unfolding form_inv_def by (metis last_in_set prod.collapse)
  moreover from this i have "parsePolicy parse d = ParsedOk (nr_review s)"
    by (auto simp: form_inv_def)
  ultimately show ?thesis using s t o1 by blast
qed

text \<open>C9. Only reviewed policy is applied: whatever the operator does and whatever arrives, the request
  of a click on Apply carries the value read from a draft that passed review, and it is the value
  whose difference from the current policy the open dialog shows at that moment.\<close>

theorem apply_sends_reviewed:
  assumes "trace (form_step cm parse yaml) (form_init yaml cur loaded) (es @ ClickApply # fs) u"
  shows "\<exists>s t d. trace (form_step cm parse yaml) (form_init yaml cur loaded) es s \<and>
    form_step cm parse yaml s ClickApply t \<and> nr_open s \<and> nr_posts t = nr_posts s @ [nr_review s] \<and>
    (d, nr_review s) \<in> set (nr_reviews s) \<and> parsePolicy parse d = ParsedOk (nr_review s)"
  by (rule apply_posts_reviewed [OF assms])

theorem apply_sends_reviewed_witness:
  "\<exists>s t d. trace (form_step sample_cm sample_reader version_text) (form_init version_text None True)
      [EditorReady, TypeDoc [[97]], ClickReview] s \<and>
    form_step sample_cm sample_reader version_text s ClickApply t \<and> nr_open s \<and>
    nr_posts t = nr_posts s @ [nr_review s] \<and> (d, nr_review s) \<in> set (nr_reviews s) \<and>
    parsePolicy sample_reader d = ParsedOk (nr_review s)"
  by (rule apply_sends_reviewed [where fs = "[]" and u = "fold (form_next sample_cm sample_reader version_text)
      [EditorReady, TypeDoc [[97]], ClickReview, ClickApply] (form_init version_text None True)"])
    (simp add: form_eval)

text \<open>A revision is never sent twice by a second click: between two clicks on Apply lies the answer
  to the first request.\<close>

theorem apply_not_repeated:
  assumes "trace (form_step cm parse yaml) s (ClickApply # es @ [ClickApply]) u"
  shows "\<exists>e \<in> set es. e = PostOk \<or> (\<exists>err. e = PostFailed err)"
  using flight.no_overlap [OF assms] by (simp add: is_post_answer_iff)

theorem apply_not_repeated_witness:
  "\<exists>e \<in> set [PostFailed NotAnError, ClickReview]. e = PostOk \<or> (\<exists>err. e = PostFailed err)"
proof -
  let ?run = "fold (form_next sample_cm sample_reader version_text)"
  let ?s = "?run [EditorReady, TypeDoc [[97]], ClickReview] (form_init version_text None True)"
  have "trace (form_step sample_cm sample_reader version_text) ?s
      (ClickApply # [PostFailed NotAnError, ClickReview] @ [ClickApply])
      (?run (ClickApply # [PostFailed NotAnError, ClickReview] @ [ClickApply]) ?s)"
    by (simp add: form_eval)
  then show ?thesis by (rule apply_not_repeated)
qed

text \<open>C34. Typed text is never lost: once the operator has typed, no other event changes the draft; and
  while nothing counts as typed, a loaded form shows the current revision.\<close>

theorem draft_is_safe:
  assumes "trace (form_step cm parse yaml) (form_init yaml cur loaded) es s"
  shows "(nr_touched s \<and> form_step cm parse yaml s e t \<and> (\<forall>d. e \<noteq> TypeDoc d) \<longrightarrow>
      nr_touched t \<and> nr_draft t = nr_draft s) \<and>
    (nr_loaded s \<and> \<not> nr_touched s \<longrightarrow> nr_draft s = current_yaml yaml s)"
proof -
  have "form_inv parse yaml s"
    by (rule form.reachable_inv [OF _ assms]) blast
  then show ?thesis using keep_typed [of cm parse yaml s e t] by (auto simp: form_inv_def)
qed

theorem draft_is_safe_witness:
  "\<exists>s t. trace (form_step sample_cm sample_reader version_text) (form_init version_text None False)
      [EditorReady, TypeDoc [[97]]] s \<and>
    form_step sample_cm sample_reader version_text s (QueryUpdate (Some (sample_revision 1 [98])) True) t \<and>
    nr_draft t = [97]"
proof -
  let ?next = "form_next sample_cm sample_reader version_text"
  let ?s = "fold ?next [EditorReady, TypeDoc [[97]]] (form_init version_text None False)"
  let ?e = "QueryUpdate (Some (sample_revision 1 [98])) True"
  have s: "trace (form_step sample_cm sample_reader version_text) (form_init version_text None False)
      [EditorReady, TypeDoc [[97]]] ?s" "nr_touched ?s" "nr_draft ?s = [97]"
    by (simp_all add: form_eval)
  have t: "form_step sample_cm sample_reader version_text ?s ?e (?next ?e ?s)"
    by (simp add: guarded_def form_eval)
  from draft_is_safe [OF s(1), of ?e "?next ?e ?s"] s t show ?thesis by auto
qed

section \<open>What the form reports\<close>

lemma pending_is_review:
  assumes "trace (form_step cm parse yaml) s es t" "ClickReview \<notin> set es"
    "\<And>v. nr_pending s = Some v \<Longrightarrow> nr_review s = v"
  shows "nr_pending t = Some v \<Longrightarrow> nr_review t = v"
  using assms
proof (induction arbitrary: v rule: trace.induct)
  case (trace_Cons s e t es u)
  have "nr_review t = v" if "nr_pending t = Some v" for v
    using trace_Cons.hyps(1) trace_Cons.prems(2,3) that
    by (cases e)
      (auto simp: guarded_def run_effects_def editDraft_def on_post_success_def on_post_error_def)
  with trace_Cons show ?case by simp
qed simp

text \<open>The success message names the version that was sent, as long as no other draft was reviewed
  while the request was under way.\<close>

theorem applied_message_names_posted:
  assumes "trace (form_step cm parse yaml) (form_init yaml cur loaded) (es @ ClickApply # fs @ [PostOk]) u"
    and "ClickReview \<notin> set fs"
  shows "last (nr_messages u) = js ''Applied '' @ version_text (last (nr_posts u))"
proof -
  obtain s t v where s: "trace (form_step cm parse yaml) (form_init yaml cur loaded) es s"
    "form_step cm parse yaml s ClickApply t" "trace (form_step cm parse yaml) t fs v" "form_step cm parse yaml v PostOk u"
    using assms(1) by (auto simp: trace_append trace_Cons_iff)
  have "trace (form_step cm parse yaml) (form_init yaml cur loaded) (es @ ClickApply # fs) v"
    using s by (auto simp: trace_append trace_Cons_iff)
  then have i: "form_inv parse yaml v" by (intro form.reachable_inv) blast+
  obtain x where x: "nr_pending v = Some x" using s(4) by (auto simp: guarded_def)
  have "nr_review v = x"
    by (rule pending_is_review [OF s(3) assms(2) _ x]) (use s(2) in \<open>auto simp: guarded_def\<close>)
  moreover have "last (nr_posts v) = x" using i x by (simp add: form_inv_def)
  ultimately show ?thesis using s(4) by (auto simp: guarded_def on_post_success_def)
qed

theorem applied_message_names_posted_witness:
  "\<exists>u. trace (form_step sample_cm sample_reader version_text) (form_init version_text None True)
      ([EditorReady, TypeDoc [[97]], ClickReview] @ ClickApply # [] @ [PostOk]) u \<and>
    last (nr_messages u) = js ''Applied '' @ version_text (last (nr_posts u))"
proof -
  have "\<exists>u. trace (form_step sample_cm sample_reader version_text) (form_init version_text None True)
      ([EditorReady, TypeDoc [[97]], ClickReview] @ ClickApply # [] @ [PostOk]) u"
    by (simp add: form_eval)
  with applied_message_names_posted [of sample_cm sample_reader version_text None True
      "[EditorReady, TypeDoc [[97]], ClickReview]" "[]"] show ?thesis by auto
qed

text \<open>
  Without that condition it can name another one: the operator closes the dialog while the request
  is under way, edits, reviews again, and is told that the second version was applied.
\<close>

theorem applied_message_can_mislead:
  "\<exists>u. trace (form_step sample_cm sample_reader version_text) (form_init version_text None True)
      [EditorReady, TypeDoc [[97]], ClickReview, ClickApply, CloseDialog, TypeDoc [[98]], ClickReview, PostOk] u \<and>
    nr_posts u = [sample_version [97]] \<and> nr_messages u = [js ''Applied '' @ [98]]"
  by (simp add: form_eval)

text \<open>
  The comment on the seeding effect says the draft follows the current revision as long as the
  operator has not typed. It follows it once: replacing the document of a mounted editor reports
  the change through \<open>onChange\<close>, which counts as typing, so the next revision does not arrive.
\<close>

theorem reseed_counts_as_typing:
  "\<exists>s. trace (form_step sample_cm sample_reader version_text) (form_init version_text None False)
      [EditorReady, QueryUpdate (Some (sample_revision 1 [97])) True, QueryUpdate (Some (sample_revision 2 [98])) True] s \<and>
    nr_loaded s \<and> nr_draft s = [97] \<and> current_yaml version_text s = [98]"
  by (simp add: form_eval)

section \<open>The revision list\<close>

text \<open>A row, and below it the rule set when the row is expanded.\<close>

definition revision_row :: "(json \<Rightarrow> jstr) \<Rightarrow> revision \<Rightarrow> bool \<Rightarrow> node list" where
  "revision_row yaml r expanded =
     [El ''TableRow''
        [(''role'', AS (js ''button'')), (''tabIndex'', AN 0), (''aria-expanded'', AB expanded)]
        [El ''TableCell'' [] [Txt (rev_version r)],
         El ''TableCell'' [] [Txt (nullish (rev_createdBy r) em_dash)],
         El ''TableCell'' [] [Txt (rev_createdAt r)]]] @
     (if expanded
      then [El ''TableRow'' [] [El ''TableCell'' [(''colSpan'', AN 3)] [El ''pre'' [] [Txt (yaml (rev_ruleSet r))]]]]
      else [])"

text \<open>Which key presses toggle a row.\<close>

definition toggles_row :: "jstr \<Rightarrow> bool" where
  "toggles_row key \<longleftrightarrow> key = js ''Enter'' \<or> key = js '' ''"

definition revisions_panel :: "(json \<Rightarrow> jstr) \<Rightarrow> int option \<Rightarrow> revision list query \<Rightarrow> node list" where
  "revisions_panel yaml expanded q =
     (let revisions = nullish (q_data q) [] in
      if q_status q = Failed_query then [alert_p (error_or (js ''Could not load revisions.'') (q_error q))]
      else if q_status q = Success \<and> revisions = [] then [muted_p [Txt (js ''No revisions yet.'')]]
      else if q_status q = Success then
        [El ''Table'' []
          [El ''TableHeader'' []
             [El ''TableRow'' []
                [El ''TableHead'' [] [Txt (js ''Version'')], El ''TableHead'' [] [Txt (js ''Applied by'')],
                 El ''TableHead'' [] [Txt (js ''Applied'')]]],
           El ''TableBody'' []
             (concat (map (\<lambda>r. revision_row yaml r (expanded = Some (rev_seq r))) revisions))]]
      else [])"

section \<open>Comparing two revisions\<close>

record compare_state =
  cp_from :: jstr
  cp_to :: jstr

definition compare_init :: compare_state where
  "compare_init = \<lparr>cp_from = [], cp_to = []\<rparr>"

definition find_version :: "revision list \<Rightarrow> jstr \<Rightarrow> revision option" where
  "find_version revisions v = find (\<lambda>r. rev_version r = v) revisions"

definition compare_select :: "string \<Rightarrow> jstr \<Rightarrow> jstr \<Rightarrow> revision list \<Rightarrow> node" where
  "compare_select cid label v revisions =
     El ''div'' []
       [El ''Label'' [(''htmlFor'', AS (js cid))] [Txt label],
        El ''select'' [(''id'', AS (js cid)), (''value'', AS v)]
          (El ''option'' [(''value'', AS [])] [Txt (js ''Select a revision'')] #
           map (\<lambda>r. El ''option'' [(''value'', AS (rev_version r))]
             [Txt (rev_version r), Txt (js '' (rev ''), Txt (show_int (rev_seq r)), Txt (js '')'')]) revisions)]"

definition CompareRevisions :: "(jstr \<Rightarrow> jstr \<Rightarrow> diff_part list) \<Rightarrow> (json \<Rightarrow> jstr) \<Rightarrow> revision list \<Rightarrow> compare_state \<Rightarrow> node" where
  "CompareRevisions diffLines yaml revisions c =
     El ''div'' []
       ([El ''h2'' [] [Txt (js ''Compare revisions'')],
         El ''div'' []
           [compare_select ''compare-from'' (js ''Compare from'') (cp_from c) revisions,
            compare_select ''compare-to'' (js ''Compare to'') (cp_to c) revisions]] @
        (case (find_version revisions (cp_from c), find_version revisions (cp_to c)) of
           (Some a, Some b) \<Rightarrow> [LineDiff diffLines (yaml (rev_ruleSet a)) (yaml (rev_ruleSet b))]
         | _ \<Rightarrow> []))"

section \<open>The screen\<close>

record policy_state =
  ps_expanded :: "int option"
  ps_status :: "jstr option"
  ps_creating :: bool

definition policy_init :: policy_state where
  "policy_init = \<lparr>ps_expanded = None, ps_status = None, ps_creating = False\<rparr>"

definition toggle_row :: "int \<Rightarrow> policy_state \<Rightarrow> policy_state" where
  "toggle_row n s = s\<lparr>ps_expanded := (if ps_expanded s = Some n then None else Some n)\<rparr>"

definition new_revision :: "policy_state \<Rightarrow> policy_state" where
  "new_revision s = s\<lparr>ps_creating := True\<rparr>"

definition revision_done :: "jstr \<Rightarrow> policy_state \<Rightarrow> policy_state" where
  "revision_done message s = s\<lparr>ps_status := Some message, ps_creating := False\<rparr>"

definition Policy :: "(jstr \<Rightarrow> jstr \<Rightarrow> diff_part list) \<Rightarrow> (json \<Rightarrow> jstr) \<Rightarrow> revision list query \<Rightarrow> policy_state \<Rightarrow>
    compare_state \<Rightarrow> form_state \<Rightarrow> node" where
  "Policy diffLines yaml q s c f =
     (let revisions = nullish (q_data q) [] in
      El ''div'' []
        ([El ''div'' []
            [El ''h1'' [] [Txt (js ''Policy'')],
             El ''Button'' [(''type'', AS (js ''button''))] [Txt (js ''New revision'')]],
          El ''div'' [(''role'', AS (js ''status''))] (case ps_status s of None \<Rightarrow> [] | Some m \<Rightarrow> [Txt m])] @
         revisions_panel yaml (ps_expanded s) q @
         (if length revisions > 1 then [CompareRevisions diffLines yaml revisions c] else []) @
         (if ps_creating s then form_view diffLines yaml f else [])))"

text \<open>The properties the screen hands to the form.\<close>

definition form_props :: "revision list query \<Rightarrow> revision option \<times> bool" where
  "form_props q = (case nullish (q_data q) [] of [] \<Rightarrow> None | r # rs \<Rightarrow> Some r, q_status q = Success)"

lemma revision_row_no_alert: "with_role ''alert'' (revision_row yaml r e) = []"
  by (simp add: revision_row_def)

interpretation revisions: query_panel "revisions_panel yaml expanded" "js ''Could not load revisions.''"
  "\<lambda>d. d = []" "[muted_p [Txt (js ''No revisions yet.'')]]" for yaml expanded
  by unfold_locales
    (auto simp: revisions_panel_def wf_query_def alerts_def muted_p_def Let_def
      intro!: with_role_concat_Nil revision_row_no_alert)

lemma find_version_unique:
  "distinct (map rev_version rs) \<Longrightarrow> r \<in> set rs \<Longrightarrow> find_version rs (rev_version r) = Some r"
  unfolding find_version_def
  by (induction rs) auto


section \<open>The form refines the confirmation\<close>

definition form_abs :: "form_state \<Rightarrow> json confirmation" where
  "form_abs s =
     \<lparr>cf_shown = (if nr_open s then Some (nr_review s) else None), cf_flight = nr_pending s \<noteq> None,
      cf_sent = nr_posts s\<rparr>"

lemma form_abs_effects: "form_abs (run_effects cm yaml old s) = form_abs s"
  by (simp add: form_abs_def run_effects_def)

text \<open>
  A click on Review shows the value read from the draft of that moment, when it can be read; closing
  the dialog and an answer take it away; a click on Apply confirms.
\<close>

definition form_observe :: "(jstr \<Rightarrow> yaml_doc) \<Rightarrow> form_state \<Rightarrow> form_event \<Rightarrow> json confirm_event list" where
  "form_observe parse s e =
     (case e of
        ClickReview \<Rightarrow> (case parsePolicy parse (nr_draft s) of ParsedOk v \<Rightarrow> [Show (Some v)] | _ \<Rightarrow> [])
      | CloseDialog \<Rightarrow> [Show None]
      | ClickApply \<Rightarrow> [Confirm]
      | PostOk \<Rightarrow> [Answer None]
      | PostFailed x \<Rightarrow> [Answer None]
      | _ \<Rightarrow> [])"

interpretation form_confirms: confirmed_requests "form_step cm parse yaml" "form_next cm parse yaml" form_abs "form_observe parse"
  for cm parse yaml
proof unfold_locales
  fix s e t assume st: "form_step cm parse yaml s e t"
  then show "t = form_next cm parse yaml e s" by (simp add: guarded_def)
  show "trace confirm_step (form_abs s) (form_observe parse s e) (form_abs t)"
  proof (cases e)
    case (QueryUpdate cur l)
    with st show ?thesis by (simp add: guarded_def form_observe_def form_abs_effects, simp add: form_abs_def)
  qed (use st in \<open>auto simp: guarded_def form_observe_def form_abs_def review_def editDraft_def on_post_success_def
      on_post_error_def trace_Cons_iff confirm_iffs split: parsed.splits\<close>)
qed

end
