(* ===== verification/ConsoleFormat.thy ===== *)
theory ConsoleFormat
  imports Complex_Main ConsoleApi
begin

text \<open>
  \<^verbatim>\<open>console/src/lib/format.ts\<close>: when a machine counts as never seen, stale or on an old key, and
  how a moment is shown relative to now. \<open>Date\<close> and \<open>Intl.RelativeTimeFormat\<close> belong to the
  browser: \<open>parse\<close> gives the milliseconds of a date string (\<^term>\<open>None\<close> for an invalid date, whose
  time is \<open>NaN\<close>) and \<open>rtf\<close> formats a number of units. The divisions are exact here; the doubles
  of the source give the same comparison and the same rounded number as long as the two moments
  are less than ten million days apart.
\<close>

section \<open>Machines\<close>

definition ZERO :: jstr where
  "ZERO = js ''0001-01-01T00:00:00Z''"

definition WEEK :: int where
  "WEEK = 7 * 24 * 60 * 60 * 1000"

definition neverSeen :: "machine \<Rightarrow> bool" where
  "neverSeen m \<longleftrightarrow> mc_lastSeenAt m = [] \<or> mc_lastSeenAt m = ZERO"

text \<open>A comparison with \<open>NaN\<close> is false.\<close>

definition isStale :: "(jstr \<Rightarrow> int option) \<Rightarrow> machine \<Rightarrow> int \<Rightarrow> bool" where
  "isStale parse m now \<longleftrightarrow>
     neverSeen m \<or> (case parse (mc_lastSeenAt m) of None \<Rightarrow> False | Some t \<Rightarrow> now - t > WEEK)"

definition isOldKey :: "machine \<Rightarrow> jstr option \<Rightarrow> bool" where
  "isOldKey m current \<longleftrightarrow> truthy (mc_lastKeyId m) \<and> truthy current \<and> mc_lastKeyId m \<noteq> current"

section \<open>Relative time\<close>

datatype time_unit = Day | Hour | Minute

fun unit_secs :: "time_unit \<Rightarrow> int" where
  "unit_secs Day = 86400"
| "unit_secs Hour = 3600"
| "unit_secs Minute = 60"

definition time_units :: "time_unit list" where
  "time_units = [Day, Hour, Minute]"

text \<open>\<open>Math.round\<close>: the nearest integer, a half goes up.\<close>

definition math_round :: "rat \<Rightarrow> int" where
  "math_round x = \<lfloor>x + 1 / 2\<rfloor>"

text \<open>The number and unit to show for a distance in seconds, if any.\<close>

definition relative_parts :: "rat \<Rightarrow> (int \<times> time_unit) option" where
  "relative_parts diff =
     map_option (\<lambda>u. (math_round (diff / of_int (unit_secs u)), u))
       (find (\<lambda>u. of_int (unit_secs u) \<le> \<bar>diff\<bar>) time_units)"

definition relative :: "(jstr \<Rightarrow> int option) \<Rightarrow> (int \<Rightarrow> time_unit \<Rightarrow> jstr) \<Rightarrow> jstr \<Rightarrow> int \<Rightarrow> jstr" where
  "relative parse rtf date now =
     (case parse date of
        None \<Rightarrow> js ''just now''
      | Some t \<Rightarrow>
          (case relative_parts (of_int (t - now) / 1000) of
             None \<Rightarrow> js ''just now''
           | Some (n, u) \<Rightarrow> rtf n u))"

section \<open>Lemmas\<close>

lemma relative_parts_None: "relative_parts diff = None \<longleftrightarrow> \<bar>diff\<bar> < 60"
  by (auto simp: relative_parts_def find_None_iff time_units_def)

lemma relative_parts_unit:
  assumes "relative_parts diff = Some (n, u)"
  shows "n = math_round (diff / of_int (unit_secs u))" "of_int (unit_secs u) \<le> \<bar>diff\<bar>"
    "u = Hour \<Longrightarrow> \<bar>diff\<bar> < 86400" "u = Minute \<Longrightarrow> \<bar>diff\<bar> < 3600"
  using assms by (auto simp: relative_parts_def time_units_def split: if_splits)

lemma math_round_near: "\<bar>of_int (math_round x) - x\<bar> \<le> 1 / 2"
  unfolding math_round_def by linarith

lemma math_round_mono: "x \<le> y \<Longrightarrow> math_round x \<le> math_round y"
  unfolding math_round_def by (intro floor_mono) simp

lemma math_round_int [simp]: "math_round (of_int k) = k"
  unfolding math_round_def by linarith

lemma round_bounds:
  assumes "of_int a \<le> x" "x \<le> of_int b" shows "a \<le> math_round x" "math_round x \<le> b"
  using math_round_mono [OF assms(1)] math_round_mono [OF assms(2)] by simp_all

lemma scaled_bounds:
  fixes diff :: rat
  assumes "of_int s \<le> \<bar>diff\<bar>" "0 < s" "\<bar>diff\<bar> \<le> of_int s * of_int k"
  shows "1 \<le> \<bar>math_round (diff / of_int s)\<bar> \<and> \<bar>math_round (diff / of_int s)\<bar> \<le> k"
proof -
  have s: "(0 :: rat) < of_int s" using assms(2) by simp
  show ?thesis
  proof (cases "0 \<le> diff")
    case True
    with assms s have "of_int 1 \<le> diff / of_int s" "diff / of_int s \<le> of_int k"
      by (simp_all add: field_simps)
    from round_bounds [OF this] show ?thesis by simp
  next
    case False
    with assms s have "of_int (- k) \<le> diff / of_int s" "diff / of_int s \<le> of_int (- 1)"
      by (simp_all add: field_simps)
    from round_bounds [OF this] show ?thesis by simp
  qed
qed

section \<open>Properties\<close>

text \<open>A moment less than a minute away (or an invalid date) is "just now"; otherwise the largest unit
  that fits is shown, with a number that is never 0 and is within half a unit of the exact
  distance. It can reach 24 hours and 60 minutes but not exceed them.\<close>

theorem relative_parts_correct:
  "(relative_parts diff = None \<longleftrightarrow> \<bar>diff\<bar> < 60) \<and>
   (relative_parts diff = Some (n, u) \<longrightarrow>
      1 \<le> \<bar>n\<bar> \<and> \<bar>of_int n - diff / of_int (unit_secs u)\<bar> \<le> 1 / 2 \<and>
      (u = Day \<longleftrightarrow> 86400 \<le> \<bar>diff\<bar>) \<and> (u = Minute \<longleftrightarrow> \<bar>diff\<bar> < 3600) \<and>
      (u = Hour \<longrightarrow> \<bar>n\<bar> \<le> 24) \<and> (u = Minute \<longrightarrow> \<bar>n\<bar> \<le> 60))"
proof (intro conjI impI)
  assume r: "relative_parts diff = Some (n, u)"
  note p = relative_parts_unit [OF r]
  have pos: "0 < unit_secs u" by (cases u) simp_all
  define k where "k = \<lceil>\<bar>diff\<bar>\<rceil>"
  have k: "\<bar>diff\<bar> \<le> of_int k" by (simp add: k_def)
  then have "(0 :: rat) \<le> of_int k" by (rule order_trans [OF abs_ge_zero])
  moreover have "(1 :: rat) \<le> of_int (unit_secs u)" by (cases u) simp_all
  ultimately have "1 * of_int k \<le> of_int (unit_secs u) * (of_int k :: rat)"
    by (intro mult_right_mono)
  with k have "\<bar>diff\<bar> \<le> of_int (unit_secs u) * of_int k" by simp
  from scaled_bounds [OF p(2) pos this] show "1 \<le> \<bar>n\<bar>" by (simp add: p(1))
  show "\<bar>of_int n - diff / of_int (unit_secs u)\<bar> \<le> 1 / 2"
    unfolding p(1) by (rule math_round_near)
  show "u = Day \<longleftrightarrow> 86400 \<le> \<bar>diff\<bar>" "u = Minute \<longleftrightarrow> \<bar>diff\<bar> < 3600"
    using p(2-4) by (cases u; force)+
  show "\<bar>n\<bar> \<le> 24" if "u = Hour"
    using scaled_bounds [OF p(2) pos, of 24] p(3) [OF that] that by (simp add: p(1))
  show "\<bar>n\<bar> \<le> 60" if "u = Minute"
    using scaled_bounds [OF p(2) pos, of 60] p(4) [OF that] that by (simp add: p(1))
qed (rule relative_parts_None)

theorem relative_parts_correct_witness:
  "relative_parts (- 86399) = Some (- 24, Hour) \<and> \<bar>- 24 :: int\<bar> \<le> 24"
proof -
  have "math_round (- 86399 / 3600) = - 24" unfolding math_round_def by linarith
  then have "relative_parts (- 86399) = Some (- 24, Hour)"
    by (simp add: relative_parts_def time_units_def)
  with relative_parts_correct [of "- 86399" "- 24" Hour] show ?thesis by blast
qed

end
