(* ===== verification/MachinesScreen.thy ===== *)
theory MachinesScreen
  imports Confirmation ConsoleFormat Transitions Session
begin

text \<open>
  \<^verbatim>\<open>console/src/screens/machines.tsx\<close>: the list of machines and the dialog that revokes one, a state
  machine whose events are the operator's actions and the answer to the DELETE request.
\<close>

section \<open>The revoke dialog\<close>

record revoke_state =
  rk_open :: bool
  rk_confirm :: jstr
  rk_pending :: bool
  rk_error :: "js_error option"
  rk_paths :: "jstr list"
  rk_messages :: "jstr list"
  rk_invalidated :: "query_key list"

text \<open>
  The last three record the paths of the requests sent, the calls of \<open>onResolved\<close> and the keys
  invalidated.
\<close>

definition revoke_init :: revoke_state where
  "revoke_init =
     \<lparr>rk_open = False, rk_confirm = [], rk_pending = False, rk_error = None, rk_paths = [],
      rk_messages = [], rk_invalidated = []\<rparr>"

definition machine_label :: "machine \<Rightarrow> jstr" where
  "machine_label m = or_else (mc_name m) (mc_id m)"

text \<open>\<open>encodeURIComponent\<close> throws on a lone surrogate: then nothing is sent.\<close>

definition revoke_path :: "machine \<Rightarrow> jstr option" where
  "revoke_path m = map_option (\<lambda>e. js ''/v1/machines/'' @ e) (encodeURIComponent (mc_id m))"

definition revoke_invalidate :: "revoke_state \<Rightarrow> revoke_state" where
  "revoke_invalidate s = s\<lparr>rk_invalidated := rk_invalidated s @ [[js ''machines''], [js ''audit'']]\<rparr>"

definition not_found :: "js_error \<Rightarrow> bool" where
  "not_found e \<longleftrightarrow> (case e of ApiError status m \<Rightarrow> status = 404 | _ \<Rightarrow> False)"

definition on_open_change :: "bool \<Rightarrow> revoke_state \<Rightarrow> revoke_state" where
  "on_open_change b s = (if b then s\<lparr>rk_open := True\<rparr> else s\<lparr>rk_open := False, rk_confirm := []\<rparr>)"

definition start_revoke :: "machine \<Rightarrow> revoke_state \<Rightarrow> revoke_state" where
  "start_revoke m s =
     s\<lparr>rk_pending := True, rk_error := None,
       rk_paths := rk_paths s @ (case revoke_path m of None \<Rightarrow> [] | Some p \<Rightarrow> [p])\<rparr>"

definition on_revoke_success :: "machine \<Rightarrow> revoke_state \<Rightarrow> revoke_state" where
  "on_revoke_success m s =
     revoke_invalidate (s\<lparr>rk_pending := False, rk_open := False,
       rk_messages := rk_messages s @ [js ''Revoked '' @ machine_label m]\<rparr>)"

definition on_revoke_error :: "machine \<Rightarrow> js_error \<Rightarrow> revoke_state \<Rightarrow> revoke_state" where
  "on_revoke_error m e s =
     (let s' = s\<lparr>rk_pending := False, rk_error := Some e\<rparr> in
      if not_found e
      then revoke_invalidate (s'\<lparr>rk_open := False,
             rk_messages := rk_messages s' @ [machine_label m @ js '' was already revoked'']\<rparr>)
      else s')"

datatype revoke_event =
    OpenChange bool
  | TypeConfirm jstr
  | ClickRevoke
  | RevokeOk
  | RevokeFailed js_error

inductive revoke_step :: "machine \<Rightarrow> revoke_state \<Rightarrow> revoke_event \<Rightarrow> revoke_state \<Rightarrow> bool" for m where
  open_change: "rk_open s \<noteq> b \<Longrightarrow> revoke_step m s (OpenChange b) (on_open_change b s)"
| type_confirm: "rk_open s \<Longrightarrow> revoke_step m s (TypeConfirm v) (s\<lparr>rk_confirm := v\<rparr>)"
| click_revoke: "rk_open s \<Longrightarrow> rk_confirm s = machine_label m \<Longrightarrow> \<not> rk_pending s \<Longrightarrow>
    revoke_step m s ClickRevoke (start_revoke m s)"
| revoke_ok: "rk_pending s \<Longrightarrow> revoke_path m \<noteq> None \<Longrightarrow> revoke_step m s RevokeOk (on_revoke_success m s)"
| revoke_failed: "rk_pending s \<Longrightarrow> revoke_step m s (RevokeFailed e) (on_revoke_error m e s)"

inductive_cases revoke_stepE: "revoke_step m s e t"
inductive_simps click_revoke_iff: "revoke_step m s ClickRevoke t"
inductive_simps open_change_iff: "revoke_step m s (OpenChange b) t"
inductive_simps type_confirm_iff: "revoke_step m s (TypeConfirm v) t"
inductive_simps revoke_ok_iff: "revoke_step m s RevokeOk t"
inductive_simps revoke_failed_iff: "revoke_step m s (RevokeFailed e) t"

lemmas revoke_step_iffs = click_revoke_iff open_change_iff type_confirm_iff revoke_ok_iff revoke_failed_iff
lemmas revoke_defs = on_open_change_def start_revoke_def on_revoke_success_def on_revoke_error_def
  revoke_invalidate_def Let_def

text \<open>\<open>alertMessage\<close>: the message of an error that is not a 404.\<close>

definition revoke_alert :: "revoke_state \<Rightarrow> jstr option" where
  "revoke_alert s =
     (case rk_error s of None \<Rightarrow> None | Some e \<Rightarrow> if not_found e then None else error_message e)"

definition revoke_view :: "machine \<Rightarrow> revoke_state \<Rightarrow> node" where
  "revoke_view m s =
     (let label = machine_label m; inputId = js ''revoke-confirm-'' @ mc_id m in
      El ''Dialog'' [(''open'', AB (rk_open s))]
        [El ''DialogTrigger'' []
           [El ''Button'' [(''aria-label'', AS (js ''Revoke '' @ label))] [Txt (js ''Revoke'')]],
         El ''DialogContent'' []
           ([El ''DialogHeader'' []
               [El ''DialogTitle'' [] [Txt (js ''Type ''), Txt label, Txt (js '' to confirm'')],
                El ''DialogDescription'' []
                  [Txt (js ''This revokes ''), Txt label, Txt ([8217] @ js ''s credential. It can re-enroll with a new token.'')]],
             El ''div'' []
               [El ''Label'' [(''htmlFor'', AS inputId)] [Txt (js ''Type ''), Txt label, Txt (js '' to confirm'')],
                El ''Input'' [(''id'', AS inputId), (''value'', AS (rk_confirm s))] []]] @
            (if truthy (revoke_alert s) then [alert_p (the (revoke_alert s))] else []) @
            [El ''DialogFooter'' []
               [El ''Button'' [(''disabled'', AB (rk_confirm s \<noteq> label \<or> rk_pending s))]
                  [Txt (js ''Revoke machine'')]]])])"

section \<open>Lemmas on the dialog\<close>

definition is_revoke_answer :: "revoke_event \<Rightarrow> bool" where
  "is_revoke_answer e \<longleftrightarrow> e = RevokeOk \<or> (\<exists>x. e = RevokeFailed x)"

interpretation revoke_flight: single_flight "revoke_step m" rk_pending "\<lambda>e. e = ClickRevoke" is_revoke_answer for m
  by unfold_locales (auto elim!: revoke_stepE simp: revoke_defs is_revoke_answer_def)

lemma revoke_path_shape:
  assumes "revoke_path m = Some p"
  obtains e where "p = js ''/v1/machines/'' @ e" "encodeURIComponent (mc_id m) = Some e"
    "slash \<notin> set e" "35 \<notin> set e" "63 \<notin> set e"
proof -
  from assms obtain e where e: "p = js ''/v1/machines/'' @ e" "encodeURIComponent (mc_id m) = Some e"
    by (auto simp: revoke_path_def)
  have "slash \<notin> set e" "35 \<notin> set e" "63 \<notin> set e"
    using encodeURIComponent_safe [OF e(2)] by (auto simp: uri_unreserved_def)
  with e that show thesis by blast
qed

lemma confirm_typed:
  "trace (revoke_step m) s es t \<Longrightarrow> rk_confirm t = rk_confirm s \<or> rk_confirm t = [] \<or> TypeConfirm (rk_confirm t) \<in> set es"
  by (induction rule: trace.induct) (auto elim!: revoke_stepE simp: revoke_defs split: if_splits)

lemma paths_change:
  "revoke_step m s e t \<Longrightarrow> rk_paths t \<noteq> rk_paths s \<Longrightarrow>
     e = ClickRevoke \<and> rk_open s \<and> rk_confirm s = machine_label m \<and>
     (\<exists>p. revoke_path m = Some p \<and> rk_paths t = rk_paths s @ [p])"
  by (auto elim!: revoke_stepE simp: revoke_defs split: if_splits option.splits)

section \<open>The list\<close>

definition dash_or :: "jstr option \<Rightarrow> jstr" where
  "dash_or v = or_else v em_dash"

text \<open>Reading the clock and formatting are parameters: \<open>parse\<close> and \<open>rtf\<close> as in \<open>relative\<close>.\<close>

definition machine_badge :: "(jstr \<Rightarrow> int option) \<Rightarrow> int \<Rightarrow> machine \<Rightarrow> node list" where
  "machine_badge parse now m =
     (if neverSeen m then [El ''Badge'' [] [Txt (js ''Never seen'')]]
      else if isStale parse m now then [El ''Badge'' [] [Txt (js ''Stale'')]]
      else [])"

definition machine_row :: "(jstr \<Rightarrow> int option) \<Rightarrow> (int \<Rightarrow> time_unit \<Rightarrow> jstr) \<Rightarrow> int \<Rightarrow> me \<Rightarrow>
    (machine \<Rightarrow> revoke_state) \<Rightarrow> machine \<Rightarrow> node" where
  "machine_row parse rtf now who dialogs m =
     El ''TableRow'' []
       [El ''TableCell'' [] [Txt (mc_user m)],
        El ''TableCell'' [] [Txt (dash_or (mc_name m))],
        El ''TableCell'' [] [Txt (dash_or (mc_os m))],
        El ''TableCell'' []
          [El ''div'' []
             (El ''span'' [] [Txt (if neverSeen m then js ''Never'' else relative parse rtf (mc_lastSeenAt m) now)] #
              machine_badge parse now m)],
        El ''TableCell'' [] [Txt (dash_or (mc_lastBundleVersion m))],
        El ''TableCell'' []
          [El ''div'' []
             (El ''span'' [] [Txt (dash_or (mc_lastKeyId m))] #
              (if isOldKey m (me_signingKeyId who) then [El ''Badge'' [] [Txt (js ''Old key'')]] else []))],
        El ''TableCell'' [] [revoke_view m (dialogs m)]]"

definition machines_panel :: "(jstr \<Rightarrow> int option) \<Rightarrow> (int \<Rightarrow> time_unit \<Rightarrow> jstr) \<Rightarrow> int \<Rightarrow> me \<Rightarrow>
    (machine \<Rightarrow> revoke_state) \<Rightarrow> machine list query \<Rightarrow> node list" where
  "machines_panel parse rtf now who dialogs q =
     (let machines = nullish (q_data q) [] in
      if q_status q = Failed_query then [alert_p (error_or (js ''Could not load machines.'') (q_error q))]
      else if q_status q = Success \<and> machines = [] then [muted_p [Txt (js ''No machines enrolled yet.'')]]
      else if q_status q = Success then
        [El ''Table'' []
          [El ''TableHeader'' []
             [El ''TableRow'' []
                (map (\<lambda>h. El ''TableHead'' [] [Txt h])
                   [js ''User'', js ''Name'', js ''OS'', js ''Last seen'', js ''Bundle'', js ''Key'', js ''Actions''])],
           El ''TableBody'' [] (map (machine_row parse rtf now who dialogs) machines)]]
      else [])"

definition Machines :: "(jstr \<Rightarrow> int option) \<Rightarrow> (int \<Rightarrow> time_unit \<Rightarrow> jstr) \<Rightarrow> int \<Rightarrow> me \<Rightarrow>
    (machine \<Rightarrow> revoke_state) \<Rightarrow> machine list query \<Rightarrow> jstr option \<Rightarrow> node" where
  "Machines parse rtf now who dialogs q status =
     El ''div'' []
       ([El ''h1'' [] [Txt (js ''Machines'')],
         El ''div'' [(''role'', AS (js ''status''))] (case status of None \<Rightarrow> [] | Some m \<Rightarrow> [Txt m])] @
        machines_panel parse rtf now who dialogs q)"

text \<open>
  The alert of a dialog is the dialog's own: the panel is judged with no dialog showing one.
\<close>

definition quiet :: "(machine \<Rightarrow> revoke_state) \<Rightarrow> bool" where
  "quiet dialogs \<longleftrightarrow> (\<forall>m. \<not> truthy (revoke_alert (dialogs m)))"

lemma machine_row_no_alert:
  "quiet dialogs \<Longrightarrow> with_role ''alert'' [machine_row parse rtf now who dialogs m] = []"
  by (simp add: machine_row_def machine_badge_def revoke_view_def Let_def quiet_def)

definition idle_dialogs :: "machine \<Rightarrow> revoke_state" where
  "idle_dialogs m = revoke_init"

lemma idle_quiet: "quiet idle_dialogs"
  by (simp add: quiet_def idle_dialogs_def revoke_init_def revoke_alert_def)

interpretation machines: query_panel "machines_panel parse rtf now who idle_dialogs" "js ''Could not load machines.''"
  "\<lambda>d. d = []" "[muted_p [Txt (js ''No machines enrolled yet.'')]]" for parse rtf now who
  by unfold_locales
    (auto simp: machines_panel_def wf_query_def alerts_def muted_p_def Let_def
      intro!: with_role_map_Nil machine_row_no_alert idle_quiet)

section \<open>Properties\<close>

text \<open>C19. A machine is revoked only after its label was typed: in every run of the dialog, a DELETE
  request leaves only at a click in the open dialog while the confirmation text is the label, after
  the operator typed that label, and its path is the machine's own: the encoded id as one segment,
  with nothing in it that could end the path.\<close>

theorem revoke_needs_typed_label:
  assumes "trace (revoke_step m) revoke_init es s" and "revoke_step m s e u" and "rk_paths u \<noteq> rk_paths s" and "machine_label m \<noteq> []"
  shows "e = ClickRevoke \<and> rk_open s \<and> rk_confirm s = machine_label m \<and>
    TypeConfirm (machine_label m) \<in> set es \<and>
    (\<exists>p. encodeURIComponent (mc_id m) = Some p \<and> rk_paths u = rk_paths s @ [js ''/v1/machines/'' @ p] \<and>
       {slash, 35, 63} \<inter> set p = {})"
proof -
  note c = paths_change [OF assms(2,3)]
  then obtain p where p: "revoke_path m = Some p" "rk_paths u = rk_paths s @ [p]" by blast
  obtain x where x: "p = js ''/v1/machines/'' @ x" "encodeURIComponent (mc_id m) = Some x"
    "slash \<notin> set x" "35 \<notin> set x" "63 \<notin> set x"
    by (rule revoke_path_shape [OF p(1)])
  have "TypeConfirm (machine_label m) \<in> set es"
    using confirm_typed [OF assms(1)] c assms(4) by (auto simp: revoke_init_def)
  with c p x show ?thesis by auto
qed

definition sample_machine :: machine where
  "sample_machine =
     \<lparr>mc_id = js ''m 1'', mc_user = js ''ada'', mc_name = None, mc_os = None, mc_enrolledAt = [],
      mc_lastSeenAt = [], mc_lastBundleVersion = None, mc_lastKeyId = None\<rparr>"

lemma sample_label: "machine_label sample_machine = js ''m 1''"
  by (simp add: machine_label_def sample_machine_def or_else_def)

lemma sample_path: "revoke_path sample_machine = Some (js ''/v1/machines/m%201'')"
  by (simp add: revoke_path_def sample_machine_def js_eval)

lemma sample_run:
  "\<exists>s u. trace (revoke_step sample_machine) revoke_init [OpenChange True, TypeConfirm (js ''m 1'')] s \<and>
     revoke_step sample_machine s ClickRevoke u \<and> rk_paths s = [] \<and> rk_paths u = [js ''/v1/machines/m%201'']"
  by (simp add: trace_Cons_iff revoke_step_iffs revoke_init_def revoke_defs sample_label sample_path)

theorem revoke_needs_typed_label_witness:
  "encodeURIComponent (js ''m 1'') = Some (js ''m%201'') \<and>
   TypeConfirm (js ''m 1'') \<in> set [OpenChange True, TypeConfirm (js ''m 1'')]"
proof -
  obtain s u where r: "trace (revoke_step sample_machine) revoke_init [OpenChange True, TypeConfirm (js ''m 1'')] s"
    "revoke_step sample_machine s ClickRevoke u" "rk_paths s = []" "rk_paths u = [js ''/v1/machines/m%201'']"
    using sample_run by blast
  have "rk_paths u \<noteq> rk_paths s" "machine_label sample_machine \<noteq> []"
    using r(3,4) by (simp_all add: sample_label)
  from revoke_needs_typed_label [OF r(1,2) this] r(3,4) obtain p where
    "encodeURIComponent (mc_id sample_machine) = Some p" "js ''/v1/machines/m%201'' = js ''/v1/machines/'' @ p"
    "TypeConfirm (js ''m 1'') \<in> set [OpenChange True, TypeConfirm (js ''m 1'')]"
    by (auto simp: sample_label)
  then show ?thesis by (simp add: sample_machine_def js_def)
qed

text \<open>One click, one request: between two clicks on Revoke machine lies the answer to the first.\<close>

theorem revoke_not_repeated:
  assumes "trace (revoke_step m) s (ClickRevoke # es @ [ClickRevoke]) u"
  shows "RevokeOk \<in> set es \<or> (\<exists>x. RevokeFailed x \<in> set es)"
  using revoke_flight.no_overlap [OF assms] by (auto simp: is_revoke_answer_def)

theorem revoke_not_repeated_witness:
  "RevokeOk \<in> set [RevokeFailed NotAnError] \<or> (\<exists>x. RevokeFailed x \<in> set [RevokeFailed NotAnError])"
proof -
  have "\<exists>s u. trace (revoke_step sample_machine) s (ClickRevoke # [RevokeFailed NotAnError] @ [ClickRevoke]) u"
    by (rule exI [of _ "revoke_init\<lparr>rk_open := True, rk_confirm := js ''m 1''\<rparr>"])
      (simp add: trace_Cons_iff revoke_step_iffs revoke_init_def revoke_defs sample_label not_found_def)
  then show ?thesis using revoke_not_repeated by blast
qed

text \<open>The outcome is told truthfully: a revocation and a 404 (someone else was first) close the
  dialog, say so and refresh the list and the log; any other error leaves the dialog as it is,
  refreshes nothing and shows the error's message.\<close>

lemma revoke_outcome:
  "on_revoke_success m s = s\<lparr>rk_pending := False, rk_open := False,
     rk_messages := rk_messages s @ [js ''Revoked '' @ machine_label m],
     rk_invalidated := rk_invalidated s @ [[js ''machines''], [js ''audit'']]\<rparr> \<and>
   rk_open (on_revoke_error m e s) = (rk_open s \<and> \<not> not_found e) \<and>
   rk_confirm (on_revoke_error m e s) = rk_confirm s \<and>
   rk_messages (on_revoke_error m e s) = rk_messages s @ (if not_found e then [machine_label m @ js '' was already revoked''] else []) \<and>
   rk_invalidated (on_revoke_error m e s) = rk_invalidated s @ (if not_found e then [[js ''machines''], [js ''audit'']] else []) \<and>
   revoke_alert (on_revoke_error m e s) = (if not_found e then None else error_message e)"
  by (simp add: revoke_defs revoke_alert_def)

section \<open>A dialog that reopens armed\<close>

text \<open>
  Closing the dialog by hand clears the confirmation text. Closing it after an answer does not:
  opened again, the button is enabled before anything is typed.
\<close>

theorem reopened_dialog_is_armed:
  assumes "revoke_path m \<noteq> None"
  shows "\<exists>s t. trace (revoke_step m) revoke_init
      [OpenChange True, TypeConfirm (machine_label m), ClickRevoke, RevokeOk, OpenChange True] s \<and>
    revoke_step m s ClickRevoke t"
  using assms by (auto simp: trace_Cons_iff revoke_step_iffs revoke_init_def revoke_defs)


section \<open>The dialog refines the confirmation\<close>

text \<open>Shown for confirmation is the machine's path, once its label has been typed.\<close>

definition revoke_abs :: "machine \<Rightarrow> revoke_state \<Rightarrow> jstr confirmation" where
  "revoke_abs m s =
     \<lparr>cf_shown = (if rk_open s \<and> rk_confirm s = machine_label m then revoke_path m else None),
      cf_flight = rk_pending s, cf_sent = rk_paths s\<rparr>"

text \<open>
  The path is on show while the dialog is open and the text in it is the label; only a 404 closes the
  dialog among the failures. A machine whose id cannot be encoded has no path and is left out.
\<close>

definition path_shown :: "machine \<Rightarrow> bool \<Rightarrow> jstr \<Rightarrow> jstr option" where
  "path_shown m is_open typed = (if is_open \<and> typed = machine_label m then revoke_path m else None)"

definition revoke_observe :: "machine \<Rightarrow> revoke_state \<Rightarrow> revoke_event \<Rightarrow> jstr confirm_event list" where
  "revoke_observe m s e =
     (case e of
        OpenChange b \<Rightarrow> [Show (path_shown m b (rk_confirm s))]
      | TypeConfirm v \<Rightarrow> [Show (path_shown m True v)]
      | ClickRevoke \<Rightarrow> [Confirm]
      | RevokeOk \<Rightarrow> [Answer None]
      | RevokeFailed x \<Rightarrow> [Answer (path_shown m (rk_open s \<and> \<not> not_found x) (rk_confirm s))])"

fun revoke_next :: "machine \<Rightarrow> revoke_event \<Rightarrow> revoke_state \<Rightarrow> revoke_state" where
  "revoke_next m (OpenChange b) s = on_open_change b s"
| "revoke_next m (TypeConfirm v) s = s\<lparr>rk_confirm := v\<rparr>"
| "revoke_next m ClickRevoke s = start_revoke m s"
| "revoke_next m RevokeOk s = on_revoke_success m s"
| "revoke_next m (RevokeFailed x) s = on_revoke_error m x s"

definition addressable_step :: "machine \<Rightarrow> revoke_state \<Rightarrow> revoke_event \<Rightarrow> revoke_state \<Rightarrow> bool" where
  "addressable_step m s e t \<longleftrightarrow> revoke_path m \<noteq> None \<and> revoke_step m s e t"

interpretation revoke_confirms: confirmed_requests "addressable_step m" "revoke_next m" "revoke_abs m" "revoke_observe m" for m
proof unfold_locales
  fix s e t assume "addressable_step m s e t"
  then have st: "revoke_step m s e t" and p: "revoke_path m \<noteq> None" by (simp_all add: addressable_step_def)
  from st show "t = revoke_next m e s" by cases simp_all
  from st p show "trace confirm_step (revoke_abs m s) (revoke_observe m s e) (revoke_abs m t)"
    by cases (auto simp: revoke_observe_def revoke_abs_def path_shown_def revoke_defs trace_Cons_iff confirm_iffs)
qed

end
