(* ===== verification/EnrollmentScreen.thy ===== *)
theory EnrollmentScreen
  imports ConsoleApi Transitions
begin

text \<open>
  \<^verbatim>\<open>console/src/screens/enrollment.tsx\<close>: minting an enrollment token and copying it. The clipboard
  is the browser's; a write takes time and may be refused, so writes under way are part of the
  state, as is what the clipboard holds.
\<close>

record enroll_state =
  en_user :: jstr
  en_ttl :: jstr
  en_result :: "enrollment_token option"
  en_copied :: bool
  en_pending :: bool
  en_error :: "js_error option"
  en_posts :: "json list"
  en_copying :: "jstr list"
  en_clipboard :: "jstr option"

definition enroll_init :: "jstr option \<Rightarrow> enroll_state" where
  "enroll_init clip =
     \<lparr>en_user = [], en_ttl = js ''24h'', en_result = None, en_copied = False, en_pending = False,
      en_error = None, en_posts = [], en_copying = [], en_clipboard = clip\<rparr>"

datatype enroll_event =
    TypeUser jstr
  | TypeTtl jstr
  | Submit
  | TokenOk enrollment_token
  | TokenFailed js_error
  | ClickCopy
  | CopyOk jstr
  | CopyFailed jstr

definition enroll_body :: "enroll_state \<Rightarrow> json" where
  "enroll_body s = JObj [(js ''user'', JStr (en_user s)), (js ''ttl'', JStr (en_ttl s))]"

text \<open>
  The browser submits the form only when its fields are valid (\<open>valid_user\<close>: required, an email
  address) and its button is enabled.
\<close>

fun enroll_can :: "(jstr \<Rightarrow> bool) \<Rightarrow> enroll_event \<Rightarrow> enroll_state \<Rightarrow> bool" where
  "enroll_can valid_user (TypeUser v) s \<longleftrightarrow> True"
| "enroll_can valid_user (TypeTtl v) s \<longleftrightarrow> True"
| "enroll_can valid_user Submit s \<longleftrightarrow> \<not> en_pending s \<and> en_user s \<noteq> [] \<and> valid_user (en_user s)"
| "enroll_can valid_user (TokenOk tok) s \<longleftrightarrow> en_pending s"
| "enroll_can valid_user (TokenFailed e) s \<longleftrightarrow> en_pending s"
| "enroll_can valid_user ClickCopy s \<longleftrightarrow> en_result s \<noteq> None"
| "enroll_can valid_user (CopyOk v) s \<longleftrightarrow> v \<in> set (en_copying s)"
| "enroll_can valid_user (CopyFailed v) s \<longleftrightarrow> v \<in> set (en_copying s)"

fun enroll_next :: "enroll_event \<Rightarrow> enroll_state \<Rightarrow> enroll_state" where
  "enroll_next (TypeUser v) s = s\<lparr>en_user := v\<rparr>"
| "enroll_next (TypeTtl v) s = s\<lparr>en_ttl := v\<rparr>"
| "enroll_next Submit s =
     s\<lparr>en_result := None, en_pending := True, en_error := None, en_posts := en_posts s @ [enroll_body s]\<rparr>"
| "enroll_next (TokenOk tok) s = s\<lparr>en_pending := False, en_result := Some tok, en_copied := False\<rparr>"
| "enroll_next (TokenFailed e) s = s\<lparr>en_pending := False, en_error := Some e\<rparr>"
| "enroll_next ClickCopy s =
     (case en_result s of None \<Rightarrow> s | Some tok \<Rightarrow> s\<lparr>en_copying := en_copying s @ [et_token tok]\<rparr>)"
| "enroll_next (CopyOk v) s =
     s\<lparr>en_copying := remove1 v (en_copying s), en_clipboard := Some v, en_copied := True\<rparr>"
| "enroll_next (CopyFailed v) s = s\<lparr>en_copying := remove1 v (en_copying s)\<rparr>"

abbreviation enroll_step where
  "enroll_step valid_user \<equiv> guarded (enroll_can valid_user) enroll_next"

definition Enrollment :: "jstr \<Rightarrow> enroll_state \<Rightarrow> node" where
  "Enrollment origin s =
     El ''div'' []
       ([El ''h1'' [] [Txt (js ''Enrollment'')],
         El ''form'' []
           ([El ''div'' []
               [El ''Label'' [(''htmlFor'', AS (js ''enroll-user''))] [Txt (js ''User'')],
                El ''Input'' [(''id'', AS (js ''enroll-user'')), (''type'', AS (js ''email'')), (''required'', AB True),
                  (''value'', AS (en_user s))] []],
             El ''div'' []
               [El ''Label'' [(''htmlFor'', AS (js ''enroll-ttl''))] [Txt (js ''Valid for'')],
                El ''Input'' [(''id'', AS (js ''enroll-ttl'')), (''value'', AS (en_ttl s)),
                  (''aria-describedby'', AS (js ''enroll-ttl-hint''))] [],
                El ''p'' [(''id'', AS (js ''enroll-ttl-hint''))] [Txt (js ''At most 168h.'')]]] @
            (case en_error s of None \<Rightarrow> []
             | Some e \<Rightarrow> [alert_p (api_error_or (js ''Could not create the token.'') (Some e))]) @
            [El ''Button'' [(''type'', AS (js ''submit'')), (''disabled'', AB (en_pending s))] [Txt (js ''Create token'')]])] @
        (case en_result s of None \<Rightarrow> []
         | Some tok \<Rightarrow>
             [El ''Card'' []
                [El ''CardHeader'' []
                   [El ''CardTitle'' [] [Txt (js ''Token for ''), Txt (et_user tok), Txt (32 # em_dash @ js '' shown once'')]],
                 El ''CardContent'' []
                   [El ''div'' []
                      [El ''code'' [] [Txt (et_token tok)],
                       El ''Button'' [(''type'', AS (js ''button''))] [Txt (if en_copied s then js ''Copied'' else js ''Copy'')]],
                    El ''pre'' [] [Txt (js ''aw-sync enroll --server '' @ origin @ js '' --token '' @ et_token tok)],
                    El ''p'' [] [Txt (js ''Copy it now: it cannot be retrieved again.'')]]]]))"

section \<open>Invariants\<close>

definition enroll_inv :: "enroll_state \<Rightarrow> bool" where
  "enroll_inv s \<longleftrightarrow>
     (en_pending s \<longrightarrow> en_result s = None \<and> en_error s = None) \<and> (en_error s \<noteq> None \<longrightarrow> en_result s = None)"

interpretation enroll: invariant_machine "\<lambda>s. \<exists>c. s = enroll_init c" "enroll_step valid_user" enroll_inv for valid_user
proof unfold_locales
  fix s e t assume "enroll_inv s" "enroll_step valid_user s e t"
  then show "enroll_inv t" by (cases e) (auto simp: guarded_def enroll_inv_def)
qed (auto simp: enroll_inv_def enroll_init_def)

definition is_token_answer :: "enroll_event \<Rightarrow> bool" where
  "is_token_answer e \<longleftrightarrow> (\<exists>tok. e = TokenOk tok) \<or> (\<exists>x. e = TokenFailed x)"

interpretation enroll_flight: single_flight "enroll_step valid_user" en_pending "\<lambda>e. e = Submit" is_token_answer
  for valid_user
proof unfold_locales
  fix s e t assume "enroll_step valid_user s e t" "en_pending s" "\<not> is_token_answer e"
  then show "en_pending t"
    by (cases e) (auto simp: guarded_def is_token_answer_def split: option.splits)
qed (auto simp: guarded_def)

text \<open>The runs in which the operator does not ask for a new token while a copy is under way.\<close>

definition patient_step :: "(jstr \<Rightarrow> bool) \<Rightarrow> enroll_state \<Rightarrow> enroll_event \<Rightarrow> enroll_state \<Rightarrow> bool" where
  "patient_step valid_user s e t \<longleftrightarrow> enroll_step valid_user s e t \<and> (e = Submit \<longrightarrow> en_copying s = [])"

definition copied_inv :: "enroll_state \<Rightarrow> bool" where
  "copied_inv s \<longleftrightarrow>
     (case en_result s of
        None \<Rightarrow> en_copying s = []
      | Some tok \<Rightarrow> set (en_copying s) \<subseteq> {et_token tok} \<and> (en_copied s \<longrightarrow> en_clipboard s = Some (et_token tok)))"

interpretation patient: invariant_machine "\<lambda>s. \<exists>c. s = enroll_init c" "patient_step valid_user"
  "\<lambda>s. enroll_inv s \<and> copied_inv s" for valid_user
proof unfold_locales
  fix s e t assume i: "enroll_inv s \<and> copied_inv s" and st: "patient_step valid_user s e t"
  then have "enroll_inv t" by (auto simp: patient_step_def intro: enroll.step_inv)
  moreover have "copied_inv t"
    using i st
    by (cases e)
      (auto simp: patient_step_def guarded_def copied_inv_def enroll_inv_def split: option.splits dest!: set_remove1_subset [THEN subsetD])
  ultimately show "enroll_inv t \<and> copied_inv t" ..
qed (auto simp: enroll_inv_def copied_inv_def enroll_init_def)

section \<open>Properties\<close>

text \<open>The requests of a run and their answers, without what happens between them.\<close>

definition exchanges :: "enroll_event list \<Rightarrow> enroll_event list" where
  "exchanges es = filter (\<lambda>e. e = Submit \<or> is_token_answer e) es"

lemma exchanges_snoc:
  "exchanges (es @ [e]) = (if e = Submit \<or> is_token_answer e then exchanges es @ [e] else exchanges es)"
  by (simp add: exchanges_def)

text \<open>What is on the page is decided by the last exchange.\<close>

definition tells :: "enroll_event list \<Rightarrow> enroll_state \<Rightarrow> bool" where
  "tells h s \<longleftrightarrow>
     (en_pending s \<longleftrightarrow> (\<exists>l. h = l @ [Submit])) \<and>
     (\<forall>tok. en_result s = Some tok \<longleftrightarrow> (\<exists>l. h = l @ [Submit, TokenOk tok])) \<and>
     (\<forall>e. en_error s = Some e \<longleftrightarrow> (\<exists>l. h = l @ [Submit, TokenFailed e]))"

lemma tells_step:
  assumes "tells (exchanges es) s" "enroll_inv s" "enroll_step valid_user s e t"
  shows "tells (exchanges (es @ [e])) t"
proof (cases e)
  case (TokenOk tok)
  with assms obtain l where l: "exchanges es = l @ [Submit]" by (auto simp: tells_def guarded_def)
  with TokenOk assms show ?thesis
    by (auto simp: tells_def exchanges_snoc is_token_answer_def guarded_def enroll_inv_def)
next
  case (TokenFailed x)
  with assms obtain l where l: "exchanges es = l @ [Submit]" by (auto simp: tells_def guarded_def)
  with TokenFailed assms show ?thesis
    by (auto simp: tells_def exchanges_snoc is_token_answer_def guarded_def enroll_inv_def)
qed (use assms in \<open>auto simp: tells_def exchanges_snoc is_token_answer_def guarded_def split: option.splits\<close>)

lemma run_tells:
  "trace (enroll_step valid_user) (enroll_init clip) es s \<Longrightarrow> tells (exchanges es) s"
proof (induction es arbitrary: s rule: rev_induct)
  case Nil
  then show ?case by (simp add: tells_def exchanges_def enroll_init_def)
next
  case (snoc e es)
  then obtain r where r: "trace (enroll_step valid_user) (enroll_init clip) es r" "enroll_step valid_user r e s"
    by (auto simp: trace_snoc)
  have inv: "enroll_inv r" by (rule enroll.reachable_inv [OF _ r(1)]) blast
  show ?case by (rule tells_step [OF snoc.IH [OF r(1)] inv r(2)])
qed

text \<open>C35. The token on the page is the answer to the last submission, exactly: a token is shown when and only
  when the last exchange of the run is a submission answered with that token, an error when and only
  when it is one answered with that error, neither while the answer is awaited; each submission sends
  the user and validity on the form, and a second one waits for the answer to the first.\<close>

theorem token_shown_fresh:
  assumes "trace (enroll_step valid_user) (enroll_init clip) es s"
  shows "(en_result s = Some tok \<longleftrightarrow> (\<exists>l. exchanges es = l @ [Submit, TokenOk tok])) \<and>
    (en_error s = Some err \<longleftrightarrow> (\<exists>l. exchanges es = l @ [Submit, TokenFailed err])) \<and>
    (en_pending s \<longleftrightarrow> (\<exists>l. exchanges es = l @ [Submit])) \<and>
    (enroll_step valid_user s Submit t \<longrightarrow>
       en_posts t = en_posts s @ [JObj [(js ''user'', JStr (en_user s)), (js ''ttl'', JStr (en_ttl s))]] \<and>
       en_result t = None \<and> en_error t = None \<and> (\<forall>u. \<not> enroll_step valid_user t Submit u))"
  using run_tells [OF assms] by (auto simp: tells_def guarded_def enroll_body_def)

theorem token_shown_fresh_witness:
  "\<exists>s :: enroll_state. en_result s = Some \<lparr>et_token = [2], et_user = [97], et_expiresAt = []\<rparr> \<and> en_posts s \<noteq> []"
proof -
  let ?tok = "\<lambda>v. \<lparr>et_token = [v], et_user = [97], et_expiresAt = []\<rparr>"
  let ?es = "[TypeUser [97], Submit, TokenOk (?tok 1), TypeUser [98], Submit, TokenOk (?tok 2), TypeTtl []]"
  obtain s where s: "trace (enroll_step (\<lambda>u. True)) (enroll_init None) ?es s" "en_posts s \<noteq> []"
    by (simp add: trace_guarded enroll_init_def)
  have "exchanges ?es = [Submit, TokenOk (?tok 1)] @ [Submit, TokenOk (?tok 2)]"
    by (simp add: exchanges_def is_token_answer_def)
  with token_shown_fresh [OF s(1), of "?tok 2"] have "en_result s = Some (?tok 2)" by blast
  with s(2) show ?thesis by blast
qed

text \<open>When the button says Copied, the clipboard holds the token on the page, provided no new token
  was asked for while a copy was under way.\<close>

theorem copied_is_true:
  assumes "trace (patient_step valid_user) (enroll_init clip) es s"
    and "en_result s = Some tok" and "en_copied s"
  shows "en_clipboard s = Some (et_token tok)"
proof -
  have "enroll_inv s \<and> copied_inv s" by (rule patient.reachable_inv [OF _ assms(1)]) blast
  with assms(2,3) show ?thesis by (simp add: copied_inv_def)
qed

definition sample_token :: "jstr \<Rightarrow> enrollment_token" where
  "sample_token v = \<lparr>et_token = v, et_user = [97], et_expiresAt = []\<rparr>"

theorem copied_is_true_witness:
  "\<exists>s :: enroll_state. en_result s = Some (sample_token [1]) \<and> en_clipboard s = Some [1]"
proof -
  let ?es = "[TypeUser [97], Submit, TokenOk (sample_token [1]), ClickCopy, CopyOk [1]]"
  have "\<exists>s. trace (patient_step (\<lambda>u. True)) (enroll_init None) ?es s \<and> en_result s = Some (sample_token [1]) \<and> en_copied s"
    by (simp add: trace_Cons_iff patient_step_def guarded_def enroll_init_def sample_token_def)
  then obtain s where s: "trace (patient_step (\<lambda>u. True)) (enroll_init None) ?es s"
    "en_result s = Some (sample_token [1])" "en_copied s" by blast
  from copied_is_true [OF s] have "en_clipboard s = Some [1]" by (simp add: sample_token_def)
  with s(2) show ?thesis by blast
qed

text \<open>
  Without that proviso it can lie: a copy of the first token that completes after the second token
  arrived says Copied next to the second one.
\<close>

theorem late_copy_misleads:
  "\<exists>s. trace (enroll_step (\<lambda>u. True)) (enroll_init None)
      [TypeUser [97], Submit, TokenOk (sample_token [1]), ClickCopy, Submit, TokenOk (sample_token [2]), CopyOk [1]] s \<and>
    en_result s = Some (sample_token [2]) \<and> en_copied s \<and> en_clipboard s = Some [1]"
  by (simp add: trace_guarded enroll_init_def sample_token_def)

end
