(* ===== verification/AuditScreen.thy ===== *)
theory AuditScreen
  imports ConsoleFormat Transitions
begin

text \<open>
  The audit log: \<^verbatim>\<open>console/src/screens/audit.tsx\<close>, and the control plane's side of the same request,
  \<^verbatim>\<open>internal/handler/audit.go\<close> with the in-memory store of \<^verbatim>\<open>internal/store/memory_console.go\<close>.
  The infinite query of \<^verbatim>\<open>@tanstack/react-query\<close> keeps the pages fetched so far; fetching the next
  page appends one.
\<close>

section \<open>The control plane\<close>

text \<open>\<open>Memory.AuditEvents\<close>: the loop over the stored events, newest first (ids are \<open>int64\<close>).\<close>

fun audit_scan :: "nat \<Rightarrow> int \<Rightarrow> audit_event list \<Rightarrow> audit_event list \<Rightarrow> audit_event list" where
  "audit_scan limit before [] out = out"
| "audit_scan limit before (e # es) out =
     (if length out < limit
      then (if before > 0 \<and> ae_id e \<ge> before then audit_scan limit before es out
            else audit_scan limit before es (out @ [e]))
      else out)"

definition audit_events :: "audit_event list \<Rightarrow> nat \<Rightarrow> int \<Rightarrow> audit_event list" where
  "audit_events stored limit before = audit_scan limit before (rev stored) []"

text \<open>\<open>strconv\<close> on a decimal number with an optional sign, within 64 bits.\<close>

definition go_int :: "jstr \<Rightarrow> int option" where
  "go_int s =
     (let neg = (case s of c # cs \<Rightarrow> c = 45 | [] \<Rightarrow> False);
          ds = (case s of c # cs \<Rightarrow> if c = 45 \<or> c = 43 then cs else s | [] \<Rightarrow> s);
          v = (if neg then - int (nat_of_digits ds) else int (nat_of_digits ds)) in
      if ds \<noteq> [] \<and> list_all is_digit ds \<and> - (2 ^ 63) \<le> v \<and> v < 2 ^ 63 then Some v else None)"

definition query_get :: "(jstr \<times> jstr) list \<Rightarrow> jstr \<Rightarrow> jstr" where
  "query_get params k = nullish (map_of params k) []"

datatype audit_response = AuditOk "audit_event list" | AuditBad jstr

definition getAudit :: "audit_event list \<Rightarrow> (jstr \<times> jstr) list \<Rightarrow> audit_response" where
  "getAudit stored params =
     (let limit = (case query_get params (js ''limit'') of [] \<Rightarrow> Some 50
           | raw \<Rightarrow> (case go_int raw of None \<Rightarrow> None | Some n \<Rightarrow> if n < 1 \<or> n > 200 then None else Some (nat n)));
          before = (case query_get params (js ''before'') of [] \<Rightarrow> Some 0
           | raw \<Rightarrow> (case go_int raw of None \<Rightarrow> None | Some n \<Rightarrow> if n < 1 then None else Some n)) in
      (case limit of None \<Rightarrow> AuditBad (js ''limit must be between 1 and 200'')
       | Some l \<Rightarrow> (case before of None \<Rightarrow> AuditBad (js ''before must be a positive event id'')
                    | Some b \<Rightarrow> AuditOk (audit_events stored l b))))"

section \<open>The console\<close>

definition PAGE_SIZE :: nat where
  "PAGE_SIZE = 50"

text \<open>The search parameters of \<open>fetchAuditPage\<close> and the path it asks for.\<close>

definition audit_params :: "int option \<Rightarrow> (jstr \<times> jstr) list" where
  "audit_params before =
     (js ''limit'', show_nat PAGE_SIZE) # (case before of None \<Rightarrow> [] | Some b \<Rightarrow> [(js ''before'', show_int b)])"

definition audit_path :: "int option \<Rightarrow> jstr" where
  "audit_path before = js ''/v1/audit?'' @ join [38] (map (\<lambda>(k, v). k @ 61 # v) (audit_params before))"

definition getNextPageParam :: "audit_event list \<Rightarrow> int option" where
  "getNextPageParam lastPage = (if length lastPage = PAGE_SIZE then Some (ae_id (last lastPage)) else None)"

definition next_param :: "audit_event list list \<Rightarrow> int option" where
  "next_param pages = (if pages = [] then None else getNextPageParam (last pages))"

definition all_events :: "audit_event list list query \<Rightarrow> audit_event list" where
  "all_events q = (case q_data q of None \<Rightarrow> [] | Some pages \<Rightarrow> concat pages)"

text \<open>\<open>[...new Set(xs)]\<close> keeps the first of equal values; \<open>sort\<close> orders by code units.\<close>

definition distinct_values :: "jstr list \<Rightarrow> jstr list" where
  "distinct_values xs = rev (remdups (rev xs))"

definition action_options :: "audit_event list \<Rightarrow> jstr list" where
  "action_options events = js ''All'' # sort (distinct_values (map ae_action events))"

definition filter_events :: "(jstr \<Rightarrow> jstr) \<Rightarrow> jstr \<Rightarrow> jstr \<Rightarrow> audit_event list \<Rightarrow> audit_event list" where
  "filter_events lc actor act events =
     filter (\<lambda>e. (actor = [] \<or> includes_str (lc (ae_actor e)) (lc actor)) \<and> (act = js ''All'' \<or> ae_action e = act)) events"

definition audit_row :: "(jstr \<Rightarrow> int option) \<Rightarrow> (int \<Rightarrow> time_unit \<Rightarrow> jstr) \<Rightarrow> (jstr \<Rightarrow> jstr) \<Rightarrow> int \<Rightarrow> audit_event \<Rightarrow> node" where
  "audit_row parse rtf local now e =
     El ''TableRow'' []
       [El ''TableCell'' []
          [Txt (local (ae_at e)), Txt (js '' (''), Txt (relative parse rtf (ae_at e) now), Txt (js '')'')],
        El ''TableCell'' [] [Txt (ae_actor e)],
        El ''TableCell'' [] [Txt (ae_action e)],
        El ''TableCell'' [] [Txt (nullish (ae_target e) em_dash)],
        El ''TableCell'' []
          [El ''code'' [] [Txt (case ae_detail e of None \<Rightarrow> em_dash | Some d \<Rightarrow> stringify d)]]]"

definition audit_panel :: "(jstr \<Rightarrow> int option) \<Rightarrow> (int \<Rightarrow> time_unit \<Rightarrow> jstr) \<Rightarrow> (jstr \<Rightarrow> jstr) \<Rightarrow> (jstr \<Rightarrow> jstr) \<Rightarrow> int \<Rightarrow>
    jstr \<Rightarrow> jstr \<Rightarrow> audit_event list list query \<Rightarrow> node list" where
  "audit_panel parse rtf local lc now actor act q =
     (let filtered = filter_events lc actor act (all_events q) in
      if q_status q = Failed_query then [alert_p (error_or (js ''Could not load audit events.'') (q_error q))]
      else if q_status q = Success \<and> filtered = [] then [muted_p [Txt (js ''No audit events'')]]
      else if q_status q = Success then
        [El ''Table'' []
          [El ''TableHeader'' []
             [El ''TableRow'' []
                (map (\<lambda>h. El ''TableHead'' [] [Txt h])
                   [js ''Time'', js ''Actor'', js ''Action'', js ''Target'', js ''Detail''])],
           El ''TableBody'' [] (map (audit_row parse rtf local now) filtered)]]
      else [])"

definition Audit :: "(jstr \<Rightarrow> int option) \<Rightarrow> (int \<Rightarrow> time_unit \<Rightarrow> jstr) \<Rightarrow> (jstr \<Rightarrow> jstr) \<Rightarrow> (jstr \<Rightarrow> jstr) \<Rightarrow> int \<Rightarrow>
    jstr \<Rightarrow> jstr \<Rightarrow> bool \<Rightarrow> audit_event list list query \<Rightarrow> node" where
  "Audit parse rtf local lc now actor act fetching q =
     El ''div'' []
       ([El ''h1'' [] [Txt (js ''Audit'')],
         El ''div'' []
           [El ''div'' []
              [El ''Label'' [(''htmlFor'', AS (js ''audit-actor''))] [Txt (js ''Actor'')],
               El ''Input'' [(''id'', AS (js ''audit-actor'')), (''value'', AS actor)] []],
            El ''div'' []
              [El ''Label'' [(''htmlFor'', AS (js ''audit-action''))] [Txt (js ''Action'')],
               El ''select'' [(''id'', AS (js ''audit-action'')), (''value'', AS act)]
                 (map (\<lambda>a. El ''option'' [(''value'', AS a)] [Txt a]) (action_options (all_events q)))]]] @
        audit_panel parse rtf local lc now actor act q @
        (if next_param (nullish (q_data q) []) \<noteq> None
         then [El ''Button'' [(''disabled'', AB fetching)] [Txt (js ''Older'')]] else []))"

lemma audit_row_no_alert: "with_role ''alert'' [audit_row parse rtf local now e] = []"
  by (simp add: audit_row_def)

interpretation audit: query_panel "audit_panel parse rtf local lc now actor act" "js ''Could not load audit events.''"
  "\<lambda>pages. filter_events lc actor act (concat pages) = []" "[muted_p [Txt (js ''No audit events'')]]"
  for parse rtf local lc now actor act
  by unfold_locales
    (auto simp: audit_panel_def wf_query_def alerts_def muted_p_def Let_def all_events_def
      intro!: with_role_map_Nil audit_row_no_alert)

section \<open>Paging\<close>

text \<open>
  The log and the pages loaded so far: events are appended on the control plane while the operator
  pages backwards with the Older button. Numbers are exact here, where JavaScript rounds integers
  above \<open>2 ^ 53\<close>; and the pages stay as they were loaded, where the query library also loads all of
  them again when the window gets the focus.
\<close>

datatype audit_op = NewEvent audit_event | Older

definition fetch_page :: "audit_event list \<Rightarrow> int option \<Rightarrow> audit_event list option" where
  "fetch_page stored before = (case getAudit stored (audit_params before) of AuditOk es \<Rightarrow> Some es | AuditBad m \<Rightarrow> None)"

inductive audit_step :: "audit_event list \<times> audit_event list list \<Rightarrow> audit_op \<Rightarrow>
    audit_event list \<times> audit_event list list \<Rightarrow> bool" where
  new_event: "(\<And>x. x \<in> set stored \<Longrightarrow> ae_id x < ae_id e) \<Longrightarrow> 0 < ae_id e \<Longrightarrow> ae_id e < 2 ^ 63 \<Longrightarrow>
    audit_step (stored, pages) (NewEvent e) (stored @ [e], pages)"
| older: "next_param pages = Some b \<Longrightarrow> fetch_page stored (Some b) = Some page \<Longrightarrow>
    audit_step (stored, pages) Older (stored, pages @ [page])"

inductive_cases audit_stepE: "audit_step s e t"

definition log_ids :: "audit_event list \<Rightarrow> bool" where
  "log_ids stored \<longleftrightarrow> sorted_wrt (<) (map ae_id stored) \<and> (\<forall>e \<in> set stored. 0 < ae_id e \<and> ae_id e < 2 ^ 63)"

lemma audit_scan_eq:
  "audit_scan limit before es out =
     out @ take (limit - length out) (filter (\<lambda>e. \<not> (before > 0 \<and> ae_id e \<ge> before)) es)"
proof (induction limit before es out rule: audit_scan.induct)
  case (2 limit before e es out)
  show ?case
  proof (cases "length out < limit")
    case True
    then have "limit - length out = Suc (limit - Suc (length out))" by simp
    with 2 True show ?thesis by auto
  qed simp
qed simp

lemma audit_events_eq:
  "audit_events stored limit before = take limit (filter (\<lambda>e. \<not> (before > 0 \<and> ae_id e \<ge> before)) (rev stored))"
  by (simp add: audit_events_def audit_scan_eq)

lemma go_int_show_nat:
  assumes "int n < 2 ^ 63" shows "go_int (show_nat n) = Some (int n)"
proof -
  obtain c cs where c: "show_nat n = c # cs" "is_digit c"
    using show_nat_digits [of n] by (cases "show_nat n") auto
  then have "c \<noteq> 45" "c \<noteq> 43" by (auto simp: is_digit_def)
  moreover have "list_all is_digit (c # cs)" "nat_of_digits (c # cs) = n"
    using show_nat_digits [of n] nat_of_show_nat [of n] unfolding c(1) by (simp_all add: list_all_iff)
  ultimately show ?thesis using assms unfolding c(1) go_int_def by simp
qed

lemma show_int_nonneg: "0 \<le> b \<Longrightarrow> show_int b = show_nat (nat b)"
  by (simp add: show_int_def)

lemma limit_ok: "go_int (show_nat PAGE_SIZE) = Some 50"
  using go_int_show_nat [of 50] by (simp add: PAGE_SIZE_def)

lemma limit_digits: "\<exists>c cs. show_nat PAGE_SIZE = c # cs \<and> go_int (c # cs) = Some 50"
  using limit_ok by (cases "show_nat PAGE_SIZE") auto

lemma fetch_first: "fetch_page stored None = Some (take 50 (rev stored))"
  using limit_digits
  by (auto simp: fetch_page_def getAudit_def audit_params_def query_get_def audit_events_eq)

lemma fetch_before:
  assumes "0 < b" "b < 2 ^ 63"
  shows "fetch_page stored (Some b) = Some (take 50 (filter (\<lambda>e. ae_id e < b) (rev stored)))"
proof -
  have "go_int (show_nat (nat b)) = Some b"
    using go_int_show_nat [of "nat b"] assms by simp
  then obtain d ds where d: "show_nat (nat b) = d # ds" "go_int (d # ds) = Some b"
    by (cases "show_nat (nat b)") auto
  obtain c cs where c: "show_nat PAGE_SIZE = c # cs" "go_int (c # cs) = Some 50" using limit_digits by blast
  from assms c d show ?thesis
    by (simp add: fetch_page_def getAudit_def audit_params_def query_get_def audit_events_eq show_int_nonneg not_le)
qed

lemma filter_below:
  "sorted_wrt (>) (map f (ys @ y # zs)) \<Longrightarrow> filter (\<lambda>e. f e < f y) (ys @ y # zs) = zs" for f :: "'a \<Rightarrow> int"
  by (auto simp: sorted_wrt_append sorted_wrt_map filter_empty_conv intro!: filter_True)

definition paging_inv :: "audit_event list \<Rightarrow> audit_event list \<times> audit_event list list \<Rightarrow> bool" where
  "paging_inv start s \<longleftrightarrow>
     (case s of (stored, pages) \<Rightarrow>
       log_ids stored \<and> (\<exists>extra. stored = start @ extra) \<and> pages \<noteq> [] \<and>
       length (concat (butlast pages)) = 50 * (length pages - 1) \<and>
       concat pages = take (50 * length pages) (rev start))"

lemma paging_older:
  assumes inv: "paging_inv start (stored, pages)" and b: "next_param pages = Some b"
  shows "fetch_page stored (Some b) = Some (take 50 (drop (50 * length pages) (rev start)))"
    and "length (concat pages) = 50 * length pages"
proof -
  obtain extra where st: "log_ids stored" "stored = start @ extra" and ne: "pages \<noteq> []"
    and len: "length (concat (butlast pages)) = 50 * (length pages - 1)"
    and pages: "concat pages = take (50 * length pages) (rev start)"
    using inv by (auto simp: paging_inv_def)
  from b ne have last50: "length (last pages) = 50" and bid: "b = ae_id (last (last pages))"
    by (auto simp: next_param_def getNextPageParam_def PAGE_SIZE_def split: if_splits)
  have split: "concat pages = concat (butlast pages) @ last pages"
    using ne by (metis append_butlast_last_id concat.simps(1,2) concat_append append_Nil2)
  show full: "length (concat pages) = 50 * length pages"
    unfolding split using len last50 ne by (cases pages) auto
  obtain ys y where y: "concat pages = ys @ [y]" "ae_id y = b"
    using split last50 bid
    by (metis append_assoc append_butlast_last_id length_greater_0_conv zero_less_numeral)
  define zs where "zs = drop (50 * length pages) (rev start)"
  have rev_start: "rev start = ys @ y # zs"
    using y(1) pages append_take_drop_id [of "50 * length pages" "rev start"] by (simp add: zs_def)
  have "y \<in> set (rev start)" unfolding rev_start by simp
  then have mem: "y \<in> set start" by simp
  have up: "\<forall>x \<in> set extra. b < ae_id x"
    using st(1) mem unfolding y(2) [symmetric] st(2) log_ids_def by (simp add: sorted_wrt_append)
  have bounds: "0 < b" "b < 2 ^ 63"
    using st(1) mem unfolding y(2) [symmetric] st(2) log_ids_def by simp_all
  have "sorted_wrt (<) (map ae_id start)"
    using st(1) unfolding st(2) log_ids_def by (simp add: sorted_wrt_append)
  then have "sorted_wrt (>) (map ae_id (rev start))"
    by (simp add: sorted_wrt_rev flip: rev_map)
  then have "filter (\<lambda>e. ae_id e < b) (rev start) = zs"
    unfolding rev_start y(2) [symmetric] by (rule filter_below)
  moreover have "filter (\<lambda>e. ae_id e < b) (rev extra) = []"
    using up by (auto simp: filter_empty_conv)
  ultimately show "fetch_page stored (Some b) = Some (take 50 (drop (50 * length pages) (rev start)))"
    by (simp add: fetch_before [OF bounds] st(2) zs_def)
qed

lemma paging_init: "log_ids start \<Longrightarrow> paging_inv start (start, [the (fetch_page start None)])"
  by (simp add: paging_inv_def fetch_first)

lemma paging_step:
  assumes "paging_inv start s" "audit_step s e t"
  shows "paging_inv start t"
  using assms(2)
proof (cases rule: audit_step.cases)
  case (new_event stored e' pages)
  with assms(1) show ?thesis by (auto simp: paging_inv_def log_ids_def sorted_wrt_append)
next
  case (older pages b stored page)
  note o1 = paging_older [OF assms(1) [unfolded older(1)] older(4)]
  have "page = take 50 (drop (50 * length pages) (rev start))" using o1(1) older(5) by simp
  moreover have "take (50 * Suc (length pages)) (rev start) =
      take (50 * length pages) (rev start) @ take 50 (drop (50 * length pages) (rev start))"
    by (metis mult_Suc_right add.commute take_add)
  ultimately show ?thesis
    using assms(1) o1(2) by (simp add: paging_inv_def older(1,3) del: mult_Suc_right)
qed

interpretation paging: invariant_machine "\<lambda>s. log_ids start \<and> s = (start, [the (fetch_page start None)])"
  audit_step "paging_inv start" for start
  by unfold_locales (auto intro: paging_init paging_step)

lemma last_page_partial:
  assumes "paging_inv start (stored, pages)" "next_param pages = None"
  shows "concat pages = rev start"
proof -
  have ne: "pages \<noteq> []" and len: "length (concat (butlast pages)) = 50 * (length pages - 1)"
    and pages: "concat pages = take (50 * length pages) (rev start)"
    using assms(1) by (auto simp: paging_inv_def)
  have "concat pages = concat (butlast pages) @ last pages"
    using ne by (metis append_butlast_last_id concat.simps(1,2) concat_append append_Nil2)
  then have l: "length (concat pages) = 50 * (length pages - 1) + length (last pages)"
    using len by simp
  have "length (last pages) \<noteq> 50"
    using assms(2) ne by (auto simp: next_param_def getNextPageParam_def PAGE_SIZE_def)
  moreover have "length (concat pages) \<le> 50 * length pages" by (simp add: pages)
  moreover have "50 * length pages = 50 * (length pages - 1) + 50" using ne by (cases pages) auto
  ultimately have "length (concat pages) < 50 * length pages" using l by linarith
  then have "length (rev start) < 50 * length pages" by (simp add: pages min_def split: if_splits)
  then show ?thesis by (simp add: pages)
qed

section \<open>Properties\<close>

text \<open>C11. Paging misses nothing and repeats nothing: however the operator pages back and however many
  events are recorded meanwhile, the pages loaded so far are exactly the newest events of the log as
  it was when the screen opened, in order; the Older button is there until the whole log has been
  loaded, every press of it is answered, and it is pressed at most once per fifty events.\<close>

theorem audit_paging_exact:
  assumes "log_ids start" and "trace audit_step (start, [the (fetch_page start None)]) ops (stored, pages)"
  shows "concat pages = take (50 * length pages) (rev start) \<and>
    (next_param pages = None \<longrightarrow> concat pages = rev start) \<and>
    (\<forall>b. next_param pages = Some b \<longrightarrow> fetch_page stored (Some b) \<noteq> None) \<and>
    length pages \<le> length start div 50 + 1"
proof -
  have inv: "paging_inv start (stored, pages)"
    by (rule paging.reachable_inv [OF _ assms(2)]) (use assms(1) in simp)
  then have "50 * (length pages - 1) = length (concat (butlast pages))"
    and eq: "concat pages = take (50 * length pages) (rev start)" and ne: "pages \<noteq> []"
    by (simp_all add: paging_inv_def)
  moreover have "length (concat (butlast pages)) \<le> length (concat pages)"
    using ne by (metis append_butlast_last_id concat_append le_add1 length_append)
  ultimately have "50 * (length pages - 1) \<le> length start" by (simp add: eq)
  then have "length pages \<le> length start div 50 + 1"
    by (metis add.commute div_le_mono le_diff_conv nonzero_mult_div_cancel_left zero_neq_numeral)
  moreover have "fetch_page stored (Some b) \<noteq> None" if "next_param pages = Some b" for b
    using paging_older(1) [OF inv that] by simp
  ultimately show ?thesis using eq last_page_partial [OF inv] by blast
qed

definition sample_event :: "int \<Rightarrow> audit_event" where
  "sample_event n = \<lparr>ae_id = n, ae_at = [], ae_actor = js ''ada'', ae_action = js ''machine.revoke'',
     ae_target = None, ae_detail = None\<rparr>"

theorem audit_paging_exact_witness:
  "concat [the (fetch_page [sample_event 1, sample_event 2] None)] = [sample_event 2, sample_event 1]"
proof -
  let ?l = "[sample_event 1, sample_event 2]"
  have "log_ids ?l" by (simp add: log_ids_def sample_event_def)
  moreover have "audit_step (?l, [the (fetch_page ?l None)]) (NewEvent (sample_event 3))
      (?l @ [sample_event 3], [the (fetch_page ?l None)])"
    by (rule new_event) (auto simp: sample_event_def)
  then have "trace audit_step (?l, [the (fetch_page ?l None)]) [NewEvent (sample_event 3)]
      (?l @ [sample_event 3], [the (fetch_page ?l None)])"
    by (rule trace_Cons) (rule trace_Nil)
  ultimately have "concat [the (fetch_page ?l None)] = take (50 * length [the (fetch_page ?l None)]) (rev ?l)"
    using audit_paging_exact by blast
  then show ?thesis by simp
qed

lemma set_distinct_values [simp]: "set (distinct_values xs) = set xs" "distinct (distinct_values xs)"
  by (simp_all add: distinct_values_def)

text \<open>The action filter offers each action of the loaded events once, in order; choosing one shows
  exactly the events of that action (never none), and All shows every event.\<close>

theorem action_filter_exact:
  assumes "act \<in> set (action_options events)"
  shows "distinct (tl (action_options events)) \<and> sorted (tl (action_options events)) \<and>
    filter_events lc [] (js ''All'') events = events \<and>
    (act \<noteq> js ''All'' \<longrightarrow>
       filter_events lc [] act events = filter (\<lambda>e. ae_action e = act) events \<and> filter_events lc [] act events \<noteq> [])"
  using assms by (auto simp: action_options_def filter_events_def filter_empty_conv)

theorem action_filter_exact_witness:
  "filter_events (\<lambda>s. s) [] (js ''machine.revoke'') [sample_event 1] = [sample_event 1]"
proof -
  have "js ''machine.revoke'' \<in> set (action_options [sample_event 1])"
    by (simp add: action_options_def distinct_values_def sample_event_def)
  from action_filter_exact [OF this, of "\<lambda>s. s"] show ?thesis
    by (simp add: sample_event_def)
qed

end
