(* ===== verification/GroupsScreen.thy ===== *)
theory GroupsScreen
  imports ConsoleFormat Unicode Transitions
begin

text \<open>
  \<^verbatim>\<open>console/src/screens/groups.tsx\<close>: reading the group data, counting members per group, the group
  table, and the form that resolves one user's groups. \<open>localeCompare\<close> is the browser's; the locale
  \<open>collation\<close> states that it orders strings.
\<close>

section \<open>Reading\<close>

text \<open>A 404 means that no data was ever loaded: \<open>null\<close>.\<close>

definition fetchGroups :: "(jstr \<Rightarrow> js_error + groups_view) \<Rightarrow> js_error + groups_view option" where
  "fetchGroups get =
     (case get (js ''/v1/groups'') of
        Inr v \<Rightarrow> Inr (Some v)
      | Inl (ApiError status m) \<Rightarrow> if status = 404 then Inr None else Inl (ApiError status m)
      | Inl e \<Rightarrow> Inl e)"

section \<open>Counting\<close>

text \<open>
  \<open>Map\<close> keeps its entries in insertion order; setting an existing key keeps its place. The members
  come as \<open>Object.values\<close> lists them.
\<close>

fun map_set :: "jstr \<Rightarrow> nat \<Rightarrow> (jstr \<times> nat) list \<Rightarrow> (jstr \<times> nat) list" where
  "map_set k v [] = [(k, v)]"
| "map_set k v ((k', v') # kvs) = (if k' = k then (k, v) # kvs else (k', v') # map_set k v kvs)"

definition bump :: "(jstr \<times> nat) list \<Rightarrow> jstr \<Rightarrow> (jstr \<times> nat) list" where
  "bump counts g = map_set g (nullish (map_of counts g) 0 + 1) counts"

definition count_groups :: "(jstr \<times> jstr list) list option \<Rightarrow> (jstr \<times> nat) list" where
  "count_groups members =
     foldl (\<lambda>counts groups. foldl bump counts groups) [] (map snd (nullish members []))"

text \<open>A stable sort by a comparison.\<close>

fun insert_by :: "(jstr \<Rightarrow> jstr \<Rightarrow> bool) \<Rightarrow> jstr \<times> nat \<Rightarrow> (jstr \<times> nat) list \<Rightarrow> (jstr \<times> nat) list" where
  "insert_by le x [] = [x]"
| "insert_by le x (y # ys) = (if le (fst x) (fst y) then x # y # ys else y # insert_by le x ys)"

definition sort_by :: "(jstr \<Rightarrow> jstr \<Rightarrow> bool) \<Rightarrow> (jstr \<times> nat) list \<Rightarrow> (jstr \<times> nat) list" where
  "sort_by le xs = foldr (insert_by le) xs []"

definition groupCounts :: "(jstr \<Rightarrow> jstr \<Rightarrow> bool) \<Rightarrow> (jstr \<times> jstr list) list option \<Rightarrow> (jstr \<times> nat) list" where
  "groupCounts le members = sort_by le (count_groups members)"

locale collation =
  fixes le :: "jstr \<Rightarrow> jstr \<Rightarrow> bool"
  assumes le_total: "le a b \<or> le b a"
    and le_trans: "le a b \<Longrightarrow> le b c \<Longrightarrow> le a c"
begin

lemma le_flip: "\<not> le a b \<Longrightarrow> le b a"
  using le_total by blast

end

lemma insert_by_perm: "set (insert_by le x ys) = insert x (set ys)" "length (insert_by le x ys) = Suc (length ys)"
  by (induction ys) auto

lemma insert_by_distinct:
  "distinct (map fst (x # ys)) \<Longrightarrow> distinct (map fst (insert_by le x ys))"
  by (induction ys) (auto simp: insert_by_perm image_iff)

lemma sort_by_set: "set (sort_by le xs) = set xs"
  unfolding sort_by_def by (induction xs) (simp_all add: insert_by_perm)

lemma sort_by_distinct: "distinct (map fst xs) \<Longrightarrow> distinct (map fst (sort_by le xs))"
proof (induction xs)
  case (Cons x xs)
  have "fst ` set (sort_by le xs) = fst ` set xs" by (simp add: sort_by_set)
  with Cons have "distinct (map fst (x # sort_by le xs))" by simp
  from insert_by_distinct [OF this] show ?case by (simp add: sort_by_def)
qed (simp add: sort_by_def)

context collation
begin

lemma insert_by_sorted: "sorted_wrt le (map fst ys) \<Longrightarrow> sorted_wrt le (map fst (insert_by le x ys))"
  by (induction ys) (auto simp: insert_by_perm intro: le_trans le_flip)

lemma sort_by_sorted: "sorted_wrt le (map fst (sort_by le xs))"
  unfolding sort_by_def by (induction xs) (simp_all add: insert_by_sorted)

end

interpretation code_unit_order: collation "(\<le>) :: jstr \<Rightarrow> jstr \<Rightarrow> bool"
  by unfold_locales auto

lemma map_of_map_set: "map_of (map_set k v kvs) = (map_of kvs)(k \<mapsto> v)"
  by (induction kvs) auto

lemma keys_map_set: "set (map fst (map_set k v kvs)) = insert k (set (map fst kvs))"
  by (induction k v kvs rule: map_set.induct) (simp_all add: insert_commute del: set_map)

lemma distinct_map_set: "distinct (map fst kvs) \<Longrightarrow> distinct (map fst (map_set k v kvs))"
proof (induction kvs)
  case (Cons kv kvs)
  then show ?case
    by (cases kv) (auto simp: keys_map_set simp del: set_map)
qed simp

definition counts_of :: "jstr list \<Rightarrow> (jstr \<times> nat) list \<Rightarrow> bool" where
  "counts_of seen counts \<longleftrightarrow> distinct (map fst counts) \<and>
     (\<forall>g. map_of counts g = (if g \<in> set seen then Some (count_list seen g) else None))"

lemma counts_bump: "counts_of seen counts \<Longrightarrow> counts_of (seen @ [g]) (bump counts g)"
  by (auto simp: counts_of_def bump_def map_of_map_set distinct_map_set count_list_append)

lemma counts_foldl: "counts_of seen counts \<Longrightarrow> counts_of (seen @ gs) (foldl bump counts gs)"
proof (induction gs arbitrary: seen counts)
  case (Cons g gs)
  from Cons.IH [OF counts_bump [OF Cons.prems]] show ?case by simp
qed simp

lemma counts_groups:
  "counts_of seen counts \<Longrightarrow> counts_of (seen @ concat gss) (foldl (\<lambda>c groups. foldl bump c groups) counts gss)"
proof (induction gss arbitrary: seen counts)
  case (Cons gs gss)
  from Cons.IH [OF counts_foldl [OF Cons.prems]] show ?case by simp
qed simp

lemma counts_count_groups: "counts_of (concat (map snd (nullish members []))) (count_groups members)"
  unfolding count_groups_def using counts_groups [of "[]" "[]"] by (simp add: counts_of_def)

section \<open>Resolving a user\<close>

record resolve_state =
  rs_input :: jstr
  rs_user :: jstr

definition resolve_init :: resolve_state where
  "resolve_init = \<lparr>rs_input = [], rs_user = []\<rparr>"

definition type_resolve :: "jstr \<Rightarrow> resolve_state \<Rightarrow> resolve_state" where
  "type_resolve v s = s\<lparr>rs_input := v\<rparr>"

text \<open>The button is disabled while the input is empty.\<close>

definition click_resolve :: "resolve_state \<Rightarrow> resolve_state" where
  "click_resolve s = (if rs_input s = [] then s else s\<lparr>rs_user := rs_input s\<rparr>)"

text \<open>The path the query asks for; the query is disabled without a user.\<close>

definition resolve_path :: "jstr \<Rightarrow> jstr option" where
  "resolve_path user = map_option (\<lambda>e. js ''/v1/groups/resolve?user='' @ e) (encodeURIComponent user)"

definition resolve_request :: "resolve_state \<Rightarrow> jstr option" where
  "resolve_request s = (if rs_user s = [] then None else resolve_path (rs_user s))"

definition joined_or_dash :: "jstr list \<Rightarrow> jstr" where
  "joined_or_dash xs = (let j = join (js '', '') xs in if j = [] then em_dash else j)"

definition resolve_view :: "resolve_state \<Rightarrow> group_sources query \<Rightarrow> node" where
  "resolve_view s q =
     El ''div'' []
       ([El ''h2'' [] [Txt (js ''Resolve a user'' @ [39] @ js ''s groups'')],
         El ''div'' []
           [El ''div'' []
              [El ''Label'' [(''htmlFor'', AS (js ''resolve-user''))] [Txt (js ''User'')],
               El ''Input'' [(''id'', AS (js ''resolve-user'')), (''value'', AS (rs_input s))] []],
            El ''Button'' [(''type'', AS (js ''button'')), (''disabled'', AB (rs_input s = []))] [Txt (js ''Resolve'')]]] @
        (if q_status q = Failed_query
         then [alert_p (api_error_or (js ''Could not resolve groups.'') (q_error q))] else []) @
        (case q_data q of None \<Rightarrow> []
         | Some d \<Rightarrow>
             [El ''div'' []
               ([El ''dl'' []
                   [El ''dt'' [] [Txt (js ''Authored'')], El ''dd'' [] [Txt (joined_or_dash (gs_authored d))],
                    El ''dt'' [] [Txt (js ''Snapshot'')], El ''dd'' [] [Txt (joined_or_dash (gs_snapshot d))],
                    El ''dt'' [] [Txt (js ''SCIM'')], El ''dd'' [] [Txt (joined_or_dash (gs_scim d))],
                    El ''dt'' [] [Txt (js ''Effective'')], El ''dd'' [] [Txt (joined_or_dash (gs_effective d))]]] @
                (if truthy (gs_scimNearMatch d)
                 then [El ''p'' [(''role'', AS (js ''status''))]
                         [Txt (js ''SCIM has ''), Txt (the (gs_scimNearMatch d)),
                          Txt (32 # em_dash @ js '' differs only in case; fix the IdP attribute mapping.'')]]
                 else []))]))"

section \<open>The screen\<close>

text \<open>\<open>Synced ...\<close> or \<open>Never synced\<close>.\<close>

definition synced_text :: "(jstr \<Rightarrow> int option) \<Rightarrow> (int \<Rightarrow> time_unit \<Rightarrow> jstr) \<Rightarrow> int \<Rightarrow> groups_view \<Rightarrow> jstr" where
  "synced_text parse rtf now v =
     (if truthy (gv_syncedAt v) then js ''Synced '' @ relative parse rtf (the (gv_syncedAt v)) now
      else js ''Never synced'')"

definition no_groups :: "node list" where
  "no_groups =
     [muted_p [Txt (js ''No group data yet. Sync SCIM or run ''), El ''code'' [] [Txt (js ''awd groups apply'')],
               Txt (js '' to load one.'')]]"

definition groups_panel :: "(jstr \<Rightarrow> int option) \<Rightarrow> (int \<Rightarrow> time_unit \<Rightarrow> jstr) \<Rightarrow> (jstr \<Rightarrow> jstr \<Rightarrow> bool) \<Rightarrow> int \<Rightarrow>
    groups_view option query \<Rightarrow> node list" where
  "groups_panel parse rtf le now q =
     (if q_status q = Pending then []
      else if q_status q = Failed_query then [alert_p (error_or (js ''Could not load groups.'') (q_error q))]
      else (case nullish (q_data q) None of
         None \<Rightarrow> no_groups
       | Some v \<Rightarrow>
           [El ''div'' []
             [El ''div'' []
                (El ''p'' []
                   [Txt (js ''Source: ''), Txt (nullish (gv_source v) em_dash), Txt (32 # mid_dot @ js '' Applied by: ''),
                    Txt (nullish (gv_appliedBy v) em_dash), Txt (32 # mid_dot @ js '' ''), Txt (synced_text parse rtf now v)] #
                 (case gv_scim v of None \<Rightarrow> []
                  | Some c \<Rightarrow>
                      [El ''p'' []
                        [Txt (js ''SCIM: ''), Txt (show_int (sc_users c)), Txt (js '' users (''),
                         Txt (show_int (sc_activeUsers c)), Txt (js '' active), ''), Txt (show_int (sc_groups c)),
                         Txt (js '' group''), Txt (if sc_groups c = 1 then [] else js ''s'')]])),
              El ''Table'' []
                [El ''TableHeader'' []
                   [El ''TableRow'' [] [El ''TableHead'' [] [Txt (js ''Group'')], El ''TableHead'' [] [Txt (js ''Members'')]]],
                 El ''TableBody'' []
                   (map (\<lambda>(g, n). El ''TableRow'' []
                      [El ''TableCell'' [] [Txt g], El ''TableCell'' [] [Txt (show_nat n)]])
                      (groupCounts le (gv_members v)))]]]))"

definition Groups :: "(jstr \<Rightarrow> int option) \<Rightarrow> (int \<Rightarrow> time_unit \<Rightarrow> jstr) \<Rightarrow> (jstr \<Rightarrow> jstr \<Rightarrow> bool) \<Rightarrow> int \<Rightarrow>
    groups_view option query \<Rightarrow> resolve_state \<Rightarrow> group_sources query \<Rightarrow> node" where
  "Groups parse rtf le now q s rq =
     El ''div'' [] ([El ''h1'' [] [Txt (js ''Groups'')]] @ groups_panel parse rtf le now q @ [resolve_view s rq])"

interpretation groups: query_panel "groups_panel parse rtf le now" "js ''Could not load groups.''"
  "\<lambda>d. d = None" no_groups for parse rtf le now
  by unfold_locales
    (auto simp: groups_panel_def wf_query_def alerts_def no_groups_def muted_p_def
      intro!: with_role_map_Nil split: option.splits)

section \<open>Properties\<close>

text \<open>C40. The group table counts correctly: every group that some user is in appears once, in the order
  of the collation, with the number of memberships, and no other group appears.\<close>

theorem groupCounts_correct:
  assumes "collation le"
  shows "distinct (map fst (groupCounts le members)) \<and> sorted_wrt le (map fst (groupCounts le members)) \<and>
    (\<forall>g. map_of (groupCounts le members) g =
       (if g \<in> set (concat (map snd (nullish members [])))
        then Some (count_list (concat (map snd (nullish members []))) g) else None))"
proof -
  note c = counts_count_groups [of members, unfolded counts_of_def]
  have d: "distinct (map fst (groupCounts le members))"
    using c by (simp add: groupCounts_def sort_by_distinct)
  moreover have "map_of (groupCounts le members) = map_of (count_groups members)"
    using c d by (intro map_of_inject_set [THEN iffD2]) (simp_all add: groupCounts_def sort_by_set)
  ultimately show ?thesis
    using c collation.sort_by_sorted [OF assms] by (simp add: groupCounts_def)
qed

theorem groupCounts_correct_witness:
  "map_of (groupCounts (\<le>) (Some [(js ''ada'', [[98], [97]]), (js ''bob'', [[98]])])) [98] = Some 2"
  using groupCounts_correct [OF code_unit_order.collation_axioms,
      of "Some [(js ''ada'', [[98], [97]]), (js ''bob'', [[98]])]"]
  by simp

text \<open>Resolving asks about exactly the user typed: the query part of the path has the one parameter
  \<open>user\<close>, whose value decodes to that user, so no character of the name is taken for part of the URL;
  the only names it cannot ask about are ill-formed UTF-16.\<close>

theorem resolve_path_faithful:
  assumes "\<forall>c \<in> set user. c < 65536"
  shows "(case resolve_path user of
      None \<Rightarrow> \<exists>p \<in> set (code_points user). \<not> is_scalar p
    | Some p \<Rightarrow>
        \<exists>e. p = js ''/v1/groups/resolve?user='' @ e \<and> {slash, 63, 35, 38, 61, 32} \<inter> set e = {} \<and>
          map_option (\<lambda>ps. concat (map units_of ps)) (decode_all uri_dec1 (length e) e) = Some user)"
proof (cases "encodeURIComponent user")
  case None
  then show ?thesis by (simp add: resolve_path_def encodeURIComponent_def split: if_splits)
next
  case (Some e)
  have "decode_all uri_dec1 (length e) e = Some (code_points user)"
    using uri.decode_encode encodeURIComponent_SomeD [OF Some] by simp
  with Some encodeURIComponent_safe [OF Some] show ?thesis
    by (auto simp: resolve_path_def units_code_points [OF assms])
qed

theorem resolve_path_faithful_witness:
  "\<exists>e. resolve_path (js ''a&b'') = Some (js ''/v1/groups/resolve?user='' @ e) \<and> 38 \<notin> set e"
proof -
  have "\<forall>c \<in> set (js ''a&b''). c < 65536" by (simp add: js_eval)
  note faithful = resolve_path_faithful [OF this]
  have "resolve_path (js ''a&b'') \<noteq> None" by (simp add: resolve_path_def js_eval)
  with faithful show ?thesis by (auto split: option.splits)
qed

end
