(* ===== verification/OverviewScreen.thy ===== *)
theory OverviewScreen
  imports GroupsScreen
begin

text \<open>
  \<^verbatim>\<open>console/src/screens/overview.tsx\<close>: the four cards of the overview, each fed by its own query.
\<close>

section \<open>The cards\<close>

definition CardError :: "js_error option \<Rightarrow> node" where
  "CardError e = alert_p (error_or (js ''Could not load this.'') e)"

text \<open>\<open>revisions.data?.[0]\<close>\<close>

definition first_revision :: "revision list option \<Rightarrow> revision option" where
  "first_revision revs = (case revs of Some (r # rs) \<Rightarrow> Some r | _ \<Rightarrow> None)"

definition policy_card :: "revision list query \<Rightarrow> node list" where
  "policy_card q =
     (if q_status q = Failed_query then [CardError (q_error q)]
      else (case first_revision (q_data q) of
         Some r \<Rightarrow> [El ''p'' [] [Txt (rev_version r), Txt (js '' by ''), Txt (nullish (rev_createdBy r) em_dash)]]
       | None \<Rightarrow> if q_status q = Success then [muted_p [Txt (js ''No policy yet'')]] else []))"

definition old_key_count :: "machine list option \<Rightarrow> jstr option \<Rightarrow> nat" where
  "old_key_count ms key = length (filter (\<lambda>m. isOldKey m key) (nullish ms []))"

definition machines_card :: "jstr option \<Rightarrow> machine list query \<Rightarrow> node list" where
  "machines_card key q =
     (if q_status q = Failed_query then [CardError (q_error q)]
      else if q_status q = Success then
        El ''p'' [] [Txt (show_nat (case q_data q of None \<Rightarrow> 0 | Some ms \<Rightarrow> length ms)), Txt (js '' machines'')] #
        (if old_key_count (q_data q) key > 0
         then [El ''p'' []
                 [Txt (show_nat (old_key_count (q_data q) key)), Txt (js '' machine''),
                  Txt (if old_key_count (q_data q) key = 1 then [] else js ''s''), Txt (js '' on an old key'')]]
         else [])
      else [])"

definition groups_card :: "(jstr \<Rightarrow> int option) \<Rightarrow> (int \<Rightarrow> time_unit \<Rightarrow> jstr) \<Rightarrow> int \<Rightarrow> groups_view option query \<Rightarrow> node list" where
  "groups_card parse rtf now q =
     (if q_status q = Failed_query then [CardError (q_error q)]
      else (case nullish (q_data q) None of
         Some v \<Rightarrow>
           [El ''p'' []
              [Txt (nullish (gv_source v) em_dash), Txt (32 # mid_dot), Txt (js '' ''), Txt (synced_text parse rtf now v)]]
       | None \<Rightarrow> if q_status q = Success then [muted_p [Txt (js ''No group data yet'')]] else []))"

definition activity_row :: "(jstr \<Rightarrow> int option) \<Rightarrow> (int \<Rightarrow> time_unit \<Rightarrow> jstr) \<Rightarrow> int \<Rightarrow> audit_event \<Rightarrow> node" where
  "activity_row parse rtf now e =
     El ''li'' []
       [Txt (ae_actor e), Txt (js '' ''), Txt (ae_action e), Txt (js '' ''), Txt (nullish (ae_target e) []),
        Txt (32 # mid_dot @ js '' ''), Txt (relative parse rtf (ae_at e) now)]"

definition activity_card :: "(jstr \<Rightarrow> int option) \<Rightarrow> (int \<Rightarrow> time_unit \<Rightarrow> jstr) \<Rightarrow> int \<Rightarrow> audit_event list query \<Rightarrow> node list" where
  "activity_card parse rtf now q =
     (if q_status q = Failed_query then [CardError (q_error q)]
      else if nullish (q_data q) [] \<noteq> [] then
        [El ''ul'' [] (map (activity_row parse rtf now) (nullish (q_data q) []))]
      else if q_status q = Success then [muted_p [Txt (js ''No recent activity'')]]
      else [])"

definition card :: "string \<Rightarrow> node list \<Rightarrow> node" where
  "card title content =
     El ''Card'' [] [El ''CardHeader'' [] [El ''CardTitle'' [] [Txt (js title)]], El ''CardContent'' [] content]"

definition Overview :: "(jstr \<Rightarrow> int option) \<Rightarrow> (int \<Rightarrow> time_unit \<Rightarrow> jstr) \<Rightarrow> int \<Rightarrow> me \<Rightarrow> revision list query \<Rightarrow>
    machine list query \<Rightarrow> groups_view option query \<Rightarrow> audit_event list query \<Rightarrow> node" where
  "Overview parse rtf now who revisions machines groups audit =
     El ''div'' []
       [El ''h1'' [] [Txt (js ''Overview'')],
        El ''div'' []
          [card ''Policy'' (policy_card revisions),
           card ''Machines'' (machines_card (me_signingKeyId who) machines),
           card ''Groups'' (groups_card parse rtf now groups),
           card ''Recent activity'' (activity_card parse rtf now audit)]]"

section \<open>The cards keep the contract of a panel\<close>

interpretation policy_panel: query_panel policy_card "js ''Could not load this.''" "\<lambda>revs. revs = []"
  "[muted_p [Txt (js ''No policy yet'')]]"
  by unfold_locales
    (auto simp: policy_card_def CardError_def first_revision_def wf_query_def alerts_def muted_p_def
      split: option.splits list.splits)

interpretation groups_card_panel: query_panel "groups_card parse rtf now" "js ''Could not load this.''" "\<lambda>d. d = None"
  "[muted_p [Txt (js ''No group data yet'')]]" for parse rtf now
  by unfold_locales
    (auto simp: groups_card_def CardError_def wf_query_def alerts_def muted_p_def split: option.splits)

interpretation activity_panel: query_panel "activity_card parse rtf now" "js ''Could not load this.''" "\<lambda>es. es = []"
  "[muted_p [Txt (js ''No recent activity'')]]" for parse rtf now
  by unfold_locales
    (auto simp: activity_card_def CardError_def activity_row_def wf_query_def alerts_def muted_p_def
      intro!: with_role_map_Nil)

text \<open>The machines card has no empty state of its own: it counts.\<close>

lemma machines_card_alert:
  "wf_query q \<Longrightarrow> alerts (machines_card key q) \<noteq> [] \<longleftrightarrow> q_status q = Failed_query"
  by (auto simp: machines_card_def CardError_def alert_p_def alerts_def)

lemma machines_card_counts:
  assumes "q_status q = Success" "q_data q = Some ms"
  shows "text_of_view (machines_card key q) =
    show_nat (length ms) @ js '' machines'' @
    (let n = length (filter (\<lambda>m. isOldKey m key) ms) in
     if n = 0 then [] else show_nat n @ js '' machine'' @ (if n = 1 then [] else js ''s'') @ js '' on an old key'')"
  using assms by (simp add: machines_card_def old_key_count_def text_of_view_def Let_def)

end
