(* ===== verification/Policy.thy ===== *)
theory Policy
  imports Json
begin

text \<open>
  The policy a revision stores and what a machine makes of it: \<^verbatim>\<open>internal/policy\<close> (rule sets, slices,
  compiling), \<^verbatim>\<open>internal/glob\<close> (repository patterns) and \<^verbatim>\<open>internal/merge\<close> (combining settings). A
  Go map is an association list with distinct keys; the code never depends on its order.
\<close>

section \<open>Data\<close>

type_synonym 'v go_map = "(jstr \<times> 'v) list"

text \<open>A document of settings; \<^term>\<open>None\<close> is a nil map.\<close>

type_synonym settings = "json go_map option"

text \<open>Users and their groups; a nil slice is \<^term>\<open>None\<close>, and ranging over it is ranging over nothing.\<close>

type_synonym group_lists = "jstr list option go_map"

definition groups_at :: "group_lists \<Rightarrow> jstr \<Rightarrow> jstr list" where
  "groups_at m user = nullish (nullish (map_of m user) None) []"

record agent_config =
  ac_managed :: settings
  ac_env :: "jstr go_map"
  ac_forceEnv :: bool
  ac_launch :: settings

record match_spec =
  mt_groups :: "jstr list"
  mt_repos :: "jstr list"

record rule =
  ru_name :: jstr
  ru_match :: match_spec
  ru_agents :: "agent_config go_map"

record rule_set =
  rs_version :: jstr
  rs_groups :: "group_lists"
  rs_rules :: "rule list"

record subject =
  su_groups :: "jstr list"
  su_repo :: jstr

record policy_bundle =
  bu_version :: jstr
  bu_revisedAt :: int
  bu_user :: jstr
  bu_groups :: "jstr list"
  bu_rules :: "rule list"

record policy_document =
  do_version :: jstr
  do_agents :: "agent_config go_map"
  do_appliedRules :: "jstr list"

definition zero_rule_set :: rule_set where
  "zero_rule_set = \<lparr>rs_version = [], rs_groups = [], rs_rules = []\<rparr>"

definition empty_config :: agent_config where
  "empty_config = \<lparr>ac_managed = None, ac_env = [], ac_forceEnv = False, ac_launch = None\<rparr>"

text \<open>Assignment to a key of a map.\<close>

fun put :: "jstr \<Rightarrow> 'v \<Rightarrow> 'v go_map \<Rightarrow> 'v go_map" where
  "put k v [] = [(k, v)]"
| "put k v ((x, y) # m) = (if x = k then (k, v) # m else (x, y) # put k v m)"

lemma map_of_put: "map_of (put k v m) = (map_of m)(k \<mapsto> v)"
  by (induction m) auto

lemma keys_put: "fst ` set (put k v m) = insert k (fst ` set m)"
  using map_of_put [of k v m] by (metis dom_fun_upd dom_map_of_conv_image_fst option.distinct(1))

lemma distinct_put: "distinct (map fst m) \<Longrightarrow> distinct (map fst (put k v m))"
  by (induction m) (auto simp: keys_put)

section \<open>Groups\<close>

definition GroupsFor :: "rule_set \<Rightarrow> jstr \<Rightarrow> jstr list" where
  "GroupsFor rs user = groups_at (rs_groups rs) user"

text \<open>The loop of \<open>UnionGroups\<close>: the names not seen before, in order; then they are sorted.\<close>

fun union_loop :: "jstr list \<Rightarrow> jstr list \<Rightarrow> jstr list" where
  "union_loop out [] = out"
| "union_loop out (g # gs) = union_loop (if g \<in> set out then out else out @ [g]) gs"

definition UnionGroups :: "jstr list list \<Rightarrow> jstr list" where
  "UnionGroups gss = sort (foldl union_loop [] gss)"

lemma union_loop_set: "set (union_loop out gs) = set out \<union> set gs" "distinct out \<Longrightarrow> distinct (union_loop out gs)"
  by (induction out gs rule: union_loop.induct) auto

lemma union_fold: "set (foldl union_loop out gss) = set out \<union> \<Union> (set ` set gss)"
    "distinct out \<Longrightarrow> distinct (foldl union_loop out gss)"
  by (induction gss arbitrary: out) (auto simp: union_loop_set)

lemma UnionGroups_set [simp]: "set (UnionGroups gss) = \<Union> (set ` set gss)"
  and UnionGroups_sorted: "sorted (UnionGroups gss)" "distinct (UnionGroups gss)"
  by (simp_all add: UnionGroups_def union_fold)

section \<open>Matching\<close>

definition anyIn :: "jstr list \<Rightarrow> jstr list \<Rightarrow> bool" where
  "anyIn wanted have \<longleftrightarrow> list_ex (\<lambda>w. list_ex (\<lambda>h. w = h) have) wanted"

text \<open>\<open>strings.Index\<close>, returning what follows the first occurrence.\<close>

fun after_first :: "jstr \<Rightarrow> jstr \<Rightarrow> jstr option" where
  "after_first n [] = strip_prefix n []"
| "after_first n (c # cs) =
     (case strip_prefix n (c # cs) of Some r \<Rightarrow> Some r | None \<Rightarrow> after_first n cs)"

fun match_middle :: "jstr list \<Rightarrow> jstr \<Rightarrow> bool" where
  "match_middle [] v \<longleftrightarrow> True"
| "match_middle (m # ms) v \<longleftrightarrow> (case after_first m v of None \<Rightarrow> False | Some r \<Rightarrow> match_middle ms r)"

text \<open>\<open>glob.Match\<close>: the pattern is split at its stars.\<close>

definition glob_match :: "jstr \<Rightarrow> jstr \<Rightarrow> bool" where
  "glob_match pattern value =
     (let segments = split_char 42 pattern in
      if length segments = 1 then pattern = value
      else (case strip_prefix (hd segments) value of
              None \<Rightarrow> False
            | Some v \<Rightarrow> (case strip_suffix (last segments) v of
                None \<Rightarrow> False
              | Some w \<Rightarrow> match_middle (butlast (tl segments)) w)))"

definition MatchAny :: "jstr list \<Rightarrow> jstr \<Rightarrow> jstr option" where
  "MatchAny patterns value = find (\<lambda>p. glob_match p value) patterns"

definition Matches :: "match_spec \<Rightarrow> subject \<Rightarrow> bool" where
  "Matches m s =
     (if mt_groups m \<noteq> [] \<and> \<not> anyIn (mt_groups m) (su_groups s) then False
      else if mt_repos m \<noteq> [] then
        (if su_repo s = [] then False else MatchAny (mt_repos m) (su_repo s) \<noteq> None)
      else True)"

section \<open>Combining settings\<close>

text \<open>
  \<open>canonKey\<close>: the JSON text of a value, whose objects are written with their keys sorted, as Go
  compares them: by the bytes of UTF-8, which order like the code points.
\<close>

fun canon :: "json \<Rightarrow> json" where
  "canon (JArr xs) = JArr (map canon xs)"
| "canon (JObj kvs) = JObj (sort_key (\<lambda>kv. code_points (fst kv)) (map (\<lambda>kv. (fst kv, canon (snd kv))) kvs))"
| "canon v = v"

definition canonKey :: "json \<Rightarrow> jstr" where
  "canonKey v = stringify (canon v)"

fun union_arrays :: "json list \<Rightarrow> json list \<Rightarrow> json list" where
  "union_arrays out [] = out"
| "union_arrays out (v # vs) =
     union_arrays (if canonKey v \<in> canonKey ` set out then out else out @ [v]) vs"

definition unionArrays :: "json list \<Rightarrow> json list \<Rightarrow> json list" where
  "unionArrays base overlay = union_arrays (union_arrays [] base) overlay"

definition childPath :: "jstr \<Rightarrow> jstr \<Rightarrow> jstr" where
  "childPath parent key = (if parent = [] then key else parent @ 46 # key)"

fun merge_value :: "jstr list \<Rightarrow> jstr \<Rightarrow> json \<Rightarrow> json \<Rightarrow> json"
  and merge_fields :: "jstr list \<Rightarrow> jstr \<Rightarrow> json go_map \<Rightarrow> json go_map \<Rightarrow> json go_map" where
  "merge_value un path base JNull = base"
| "merge_value un path base (JObj os) =
     (case base of
        JNull \<Rightarrow> JObj os
      | JObj bs \<Rightarrow> JObj (merge_fields un path bs os)
      | _ \<Rightarrow> JObj os)"
| "merge_value un path base (JArr ys) =
     (case base of
        JArr xs \<Rightarrow> if path \<in> set un then JArr (unionArrays xs ys) else JArr ys
      | _ \<Rightarrow> JArr ys)"
| "merge_value un path base overlay = overlay"
| "merge_fields un path out [] = out"
| "merge_fields un path out ((k, v) # os) =
     merge_fields un path
       (put k (case map_of out k of
                 Some prev \<Rightarrow> merge_value un (childPath path k) prev v
               | None \<Rightarrow> v) out) os"

definition merge_JSON :: "json \<Rightarrow> json \<Rightarrow> jstr list \<Rightarrow> json" where
  "merge_JSON base overlay un = merge_value un [] base overlay"

section \<open>Compiling\<close>

definition AgentMergeRules :: "jstr \<Rightarrow> jstr list" where
  "AgentMergeRules agentName =
     (if agentName = js ''claude'' then
        [js ''permissions.allow'', js ''permissions.deny'', js ''permissions.ask'',
         js ''permissions.additionalDirectories'']
      else if agentName = js ''codex'' then [js ''rules.prefix_rules'']
      else [])"

definition object_fields :: "json \<Rightarrow> settings" where
  "object_fields v = (case v of JObj kvs \<Rightarrow> Some kvs | _ \<Rightarrow> None)"

definition merge_settings :: "jstr list \<Rightarrow> settings \<Rightarrow> settings \<Rightarrow> settings" where
  "merge_settings un current new =
     (case new of
        None \<Rightarrow> current
      | Some kvs \<Rightarrow> object_fields (merge_JSON (JObj (nullish current [])) (JObj kvs) un))"

definition layer_config :: "jstr \<Rightarrow> agent_config \<Rightarrow> agent_config \<Rightarrow> agent_config" where
  "layer_config agentName current config =
     \<lparr>ac_managed = merge_settings (AgentMergeRules agentName) (ac_managed current) (ac_managed config),
      ac_env = fold (\<lambda>(k, v). put k v) (ac_env config) (ac_env current),
      ac_forceEnv = (ac_forceEnv current \<or> ac_forceEnv config),
      ac_launch = merge_settings [] (ac_launch current) (ac_launch config)\<rparr>"

definition mergeAgent :: "jstr \<Rightarrow> agent_config \<Rightarrow> policy_document \<Rightarrow> policy_document" where
  "mergeAgent agentName config d =
     d\<lparr>do_agents := put agentName
       (layer_config agentName (nullish (map_of (do_agents d) agentName) empty_config) config) (do_agents d)\<rparr>"

definition Slice :: "rule_set \<Rightarrow> jstr list \<Rightarrow> policy_bundle" where
  "Slice rs groups =
     \<lparr>bu_version = rs_version rs, bu_revisedAt = 0, bu_user = [], bu_groups = groups,
      bu_rules = filter (\<lambda>r. \<not> (mt_groups (ru_match r) \<noteq> [] \<and> \<not> anyIn (mt_groups (ru_match r)) groups)) (rs_rules rs)\<rparr>"

definition apply_rule :: "subject \<Rightarrow> policy_document \<Rightarrow> rule \<Rightarrow> policy_document" where
  "apply_rule s d r =
     (if \<not> Matches (ru_match r) s then d
      else fold (\<lambda>(agentName, config). mergeAgent agentName config) (ru_agents r)
             (d\<lparr>do_appliedRules := do_appliedRules d @ [ru_name r]\<rparr>))"

definition bundle_Compile :: "policy_bundle \<Rightarrow> jstr \<Rightarrow> policy_document" where
  "bundle_Compile b repo =
     foldl (apply_rule \<lparr>su_groups = bu_groups b, su_repo = repo\<rparr>)
       \<lparr>do_version = bu_version b, do_agents = [], do_appliedRules = []\<rparr> (bu_rules b)"

definition Compile :: "rule_set \<Rightarrow> subject \<Rightarrow> policy_document" where
  "Compile rs s = bundle_Compile (Slice rs (su_groups s)) (su_repo s)"

section \<open>Patterns\<close>

text \<open>What a pattern means: a star stands for any run of characters, every other character for itself.\<close>

fun glob_means :: "jstr \<Rightarrow> jstr \<Rightarrow> bool" where
  "glob_means [] v \<longleftrightarrow> v = []"
| "glob_means (p # ps) [] \<longleftrightarrow> p = 42 \<and> glob_means ps []"
| "glob_means (p # ps) (c # cs) \<longleftrightarrow>
     (if p = 42 then glob_means ps (c # cs) \<or> glob_means (p # ps) cs else p = c \<and> glob_means ps cs)"

lemma glob_means_star: "glob_means (42 # ps) v \<longleftrightarrow> (\<exists>x r. v = x @ r \<and> glob_means ps r)"
proof (induction v)
  case (Cons c v)
  have "(\<exists>x r. c # v = x @ r \<and> glob_means ps r) \<longleftrightarrow> glob_means ps (c # v) \<or> (\<exists>x r. v = x @ r \<and> glob_means ps r)"
    by (metis append_Cons append_Nil list.exhaust list.inject)
  with Cons show ?case by simp
qed simp

lemma glob_means_text: "42 \<notin> set q \<Longrightarrow> glob_means (q @ ps) v \<longleftrightarrow> (\<exists>r. v = q @ r \<and> glob_means ps r)"
proof (induction q arbitrary: v)
  case (Cons c q)
  then show ?case by (cases v) auto
qed simp

text \<open>The same over the segments between the stars.\<close>

fun segments_mean :: "jstr list \<Rightarrow> jstr \<Rightarrow> bool" where
  "segments_mean [] v \<longleftrightarrow> False"
| "segments_mean [s] v \<longleftrightarrow> v = s"
| "segments_mean (s # t # ss) v \<longleftrightarrow> (\<exists>x r. v = s @ x @ r \<and> segments_mean (t # ss) r)"

fun middle_means :: "jstr list \<Rightarrow> jstr \<Rightarrow> bool" where
  "middle_means [] v \<longleftrightarrow> True"
| "middle_means (m # ms) v \<longleftrightarrow> (\<exists>x r. v = x @ m @ r \<and> middle_means ms r)"

lemma glob_means_join:
  "\<forall>s \<in> set ss. 42 \<notin> set s \<Longrightarrow> ss \<noteq> [] \<Longrightarrow> glob_means (join [42] ss) v \<longleftrightarrow> segments_mean ss v"
proof (induction ss v rule: segments_mean.induct)
  case (2 s v)
  then show ?case using glob_means_text [of s "[]" v] by simp
next
  case (3 s t ss v)
  then show ?case by (simp add: glob_means_text glob_means_star) blast
qed simp

lemma segments_after_star:
  "(\<exists>x r. v = x @ r \<and> segments_mean (ms @ [suf]) r) \<longleftrightarrow> (\<exists>w. v = w @ suf \<and> middle_means ms w)"
proof (induction ms arbitrary: v)
  case (Cons m ms)
  have "segments_mean (m # ms @ [suf]) r \<longleftrightarrow> (\<exists>y. r = m @ y \<and> (\<exists>x q. y = x @ q \<and> segments_mean (ms @ [suf]) q))" for r
    by (cases "ms @ [suf]") auto
  with Cons show ?case by (simp, metis append.assoc)
qed simp

lemma segments_split:
  "segments_mean (pre # ms @ [suf]) v \<longleftrightarrow> (\<exists>w. v = pre @ w @ suf \<and> middle_means ms w)"
proof -
  have "segments_mean (pre # ms @ [suf]) v \<longleftrightarrow> (\<exists>u. v = pre @ u \<and> (\<exists>x r. u = x @ r \<and> segments_mean (ms @ [suf]) r))"
    by (cases "ms @ [suf]") auto
  then show ?thesis unfolding segments_after_star by auto
qed

text \<open>Taking the first occurrence of a segment leaves the most for the others.\<close>

lemma Cons_occurrence: "c # v = x @ m @ r \<longleftrightarrow> x = [] \<and> c # v = m @ r \<or> (\<exists>y. x = c # y \<and> v = y @ m @ r)"
  by (cases x) auto

lemma after_first_cases:
  "case after_first m v of
     None \<Rightarrow> \<forall>x r. v \<noteq> x @ m @ r
   | Some r \<Rightarrow> (\<exists>x. v = x @ m @ r) \<and> (\<forall>x' r'. v = x' @ m @ r' \<longrightarrow> length r' \<le> length r)"
proof (induction v)
  case Nil
  show ?case by (cases m) auto
next
  case (Cons c v)
  show ?case
  proof (cases "strip_prefix m (c # v)")
    case None
    then have no: "c # v \<noteq> m @ r" for r by (simp add: strip_prefix_eq_None)
    show ?thesis
    proof (cases "after_first m v")
      case none: None
      with Cons.IH no None show ?thesis by (simp add: Cons_occurrence)
    next
      case (Some r)
      with Cons.IH obtain x where "v = x @ m @ r" by auto
      then have "c # v = (c # x) @ m @ r" by simp
      with Some Cons.IH no None show ?thesis by (auto simp: Cons_occurrence)
    qed
  next
    case (Some r)
    then have cv: "c # v = m @ r" by (simp add: strip_prefix_eq_Some)
    moreover have "length r' \<le> length r" if "c # v = x @ m @ r'" for x r'
      using arg_cong [OF that, of length] arg_cong [OF cv, of length] by simp
    moreover have "\<exists>x. c # v = x @ m @ r" using cv by (intro exI [of _ "[]"]) simp
    moreover have "after_first m (c # v) = Some r" using Some by simp
    ultimately show ?thesis by simp
  qed
qed

lemma middle_means_more: "middle_means ms r \<Longrightarrow> middle_means ms (y @ r)"
  by (cases ms) (auto, metis append.assoc)

lemma longer_tail: "a @ r = b @ r' \<Longrightarrow> length r' \<le> length r \<Longrightarrow> \<exists>y. r = y @ r'"
  by (auto simp: append_eq_append_conv2)

lemma match_middle_iff: "match_middle ms v \<longleftrightarrow> middle_means ms v"
proof (induction ms arbitrary: v)
  case (Cons m ms)
  show ?case
  proof (cases "after_first m v")
    case None
    with after_first_cases [where m = m and v = v] show ?thesis by simp
  next
    case (Some r)
    then obtain x where x: "v = x @ m @ r"
      and most: "\<And>x' r'. v = x' @ m @ r' \<Longrightarrow> length r' \<le> length r"
      using after_first_cases [where m = m and v = v] by auto
    have "middle_means ms r" if q: "v = x' @ m @ r'" "middle_means ms r'" for x' r'
    proof -
      have "(x @ m) @ r = (x' @ m) @ r'" using x q(1) by simp
      with most [OF q(1)] obtain y where "r = y @ r'" using longer_tail by blast
      with q(2) show ?thesis by (simp add: middle_means_more)
    qed
    with Some x Cons show ?thesis by auto
  qed
qed simp

theorem glob_match_correct: "glob_match pattern v \<longleftrightarrow> glob_means pattern v"
proof (cases "length (split_char 42 pattern) = 1")
  case True
  then obtain s where s: "split_char 42 pattern = [s]" by (auto simp: length_Suc_conv)
  then have "pattern = s" using join_split_char [of 42 pattern] by simp
  with s glob_means_text [of pattern "[]" v] split_char_parts [of s 42 pattern] show ?thesis
    by (auto simp: glob_match_def)
next
  case False
  then obtain pre t ts where "split_char 42 pattern = pre # t # ts"
    by (metis One_nat_def length_Cons length_0_conv list.exhaust split_char_neq_Nil)
  then obtain ms suf where segs: "split_char 42 pattern = pre # ms @ [suf]"
    by (metis append_butlast_last_id list.distinct(1))
  have "glob_means pattern v \<longleftrightarrow> segments_mean (split_char 42 pattern) v"
    using glob_means_join [of "split_char 42 pattern" v] split_char_parts by fastforce
  also have "\<dots> \<longleftrightarrow> (\<exists>w. v = pre @ w @ suf \<and> match_middle ms w)"
    by (simp add: segs segments_split match_middle_iff)
  also have "\<dots> \<longleftrightarrow> glob_match pattern v"
    by (auto simp: glob_match_def segs Let_def strip_prefix_eq_Some strip_suffix_eq_Some strip_prefix_eq_None
        split: option.splits dest: sym)
  finally show ?thesis ..
qed

section \<open>What compiling does\<close>

definition doc_init :: "jstr \<Rightarrow> policy_document" where
  "doc_init version = \<lparr>do_version = version, do_agents = [], do_appliedRules = []\<rparr>"

definition applicable :: "rule_set \<Rightarrow> subject \<Rightarrow> rule list" where
  "applicable rs s = filter (\<lambda>r. Matches (ru_match r) s) (rs_rules rs)"

definition wf_rules :: "rule_set \<Rightarrow> bool" where
  "wf_rules rs \<longleftrightarrow> (\<forall>r \<in> set (rs_rules rs). distinct (map fst (ru_agents r)))"

lemma foldl_skip: "(\<And>d r. r \<in> set rs \<Longrightarrow> \<not> P r \<Longrightarrow> f d r = d) \<Longrightarrow> foldl f d (filter P rs) = foldl f d rs"
  by (induction rs arbitrary: d) auto

lemma Compile_direct: "Compile rs s = foldl (apply_rule s) (doc_init (rs_version rs)) (applicable rs s)"
proof -
  have "Compile rs s = foldl (apply_rule s) (doc_init (rs_version rs))
      (filter (\<lambda>r. \<not> (mt_groups (ru_match r) \<noteq> [] \<and> \<not> anyIn (mt_groups (ru_match r)) (su_groups s))) (rs_rules rs))"
    by (cases s) (simp add: Compile_def bundle_Compile_def Slice_def doc_init_def)
  also have "\<dots> = foldl (apply_rule s) (doc_init (rs_version rs)) (rs_rules rs)"
    by (rule foldl_skip) (simp add: apply_rule_def Matches_def)
  also have "\<dots> = foldl (apply_rule s) (doc_init (rs_version rs)) (applicable rs s)"
    unfolding applicable_def by (rule foldl_skip [symmetric]) (simp add: apply_rule_def)
  finally show ?thesis .
qed

lemma fold_mergeAgent_rest:
  "do_version (fold (\<lambda>(a, c). mergeAgent a c) as d) = do_version d"
  "do_appliedRules (fold (\<lambda>(a, c). mergeAgent a c) as d) = do_appliedRules d"
  by (induction as arbitrary: d) (auto simp: mergeAgent_def)

lemma fold_mergeAgent:
  "distinct (map fst as) \<Longrightarrow>
   map_of (do_agents (fold (\<lambda>(a, c). mergeAgent a c) as d)) a =
     (case map_of as a of
        None \<Rightarrow> map_of (do_agents d) a
      | Some c \<Rightarrow> Some (layer_config a (nullish (map_of (do_agents d) a) empty_config) c))"
proof (induction as arbitrary: d)
  case (Cons x as)
  obtain b c where x: "x = (b, c)" by (cases x)
  have "map_of as b = None" using Cons.prems by (simp add: x map_of_eq_None_iff)
  with Cons show ?case by (auto simp: x mergeAgent_def map_of_put split: option.splits)
qed simp

text \<open>The configurations of an agent in a list of rules, in order.\<close>

definition configs_of :: "jstr \<Rightarrow> rule list \<Rightarrow> agent_config list" where
  "configs_of a rules = concat (map (\<lambda>r. case map_of (ru_agents r) a of None \<Rightarrow> [] | Some c \<Rightarrow> [c]) rules)"

definition layered :: "jstr \<Rightarrow> agent_config list \<Rightarrow> agent_config option" where
  "layered a cs = (if cs = [] then None else Some (foldl (layer_config a) empty_config cs))"

lemma foldl_rules:
  assumes "\<forall>r \<in> set rules. Matches (ru_match r) s \<and> distinct (map fst (ru_agents r))"
    and "map_of (do_agents d) a = layered a cs"
  shows "map_of (do_agents (foldl (apply_rule s) d rules)) a = layered a (cs @ configs_of a rules) \<and>
    do_appliedRules (foldl (apply_rule s) d rules) = do_appliedRules d @ map ru_name rules \<and>
    do_version (foldl (apply_rule s) d rules) = do_version d"
  using assms
proof (induction rules arbitrary: d cs)
  case Nil
  then show ?case by (simp add: configs_of_def)
next
  case (Cons r rules)
  let ?d = "apply_rule s d r" and ?c = "case map_of (ru_agents r) a of None \<Rightarrow> [] | Some c \<Rightarrow> [c]"
  have r: "?d = fold (\<lambda>(b, c). mergeAgent b c) (ru_agents r) (d\<lparr>do_appliedRules := do_appliedRules d @ [ru_name r]\<rparr>)"
    using Cons.prems(1) by (simp add: apply_rule_def)
  have "map_of (do_agents ?d) a = layered a (cs @ ?c)"
    using Cons.prems unfolding r by (auto simp: fold_mergeAgent layered_def nullish_def split: option.splits)
  moreover have "do_version ?d = do_version d" "do_appliedRules ?d = do_appliedRules d @ [ru_name r]"
    unfolding r by (simp_all add: fold_mergeAgent_rest)
  ultimately show ?case
    using Cons.IH [of ?d "cs @ ?c"] Cons.prems(1) by (simp add: configs_of_def)
qed

lemma Compile_layers:
  assumes "wf_rules rs"
  shows "map_of (do_agents (Compile rs s)) a = layered a (configs_of a (applicable rs s))"
    and "do_appliedRules (Compile rs s) = map ru_name (applicable rs s)"
    and "do_version (Compile rs s) = rs_version rs"
proof -
  have "\<forall>r \<in> set (applicable rs s). Matches (ru_match r) s \<and> distinct (map fst (ru_agents r))"
    using assms by (auto simp: applicable_def wf_rules_def)
  from foldl_rules [OF this, of "doc_init (rs_version rs)" a "[]"]
  show "map_of (do_agents (Compile rs s)) a = layered a (configs_of a (applicable rs s))"
    "do_appliedRules (Compile rs s) = map ru_name (applicable rs s)"
    "do_version (Compile rs s) = rs_version rs"
    unfolding Compile_direct by (simp_all add: doc_init_def layered_def)
qed

section \<open>What a later rule cannot take away\<close>

lemma canonKey_union: "canonKey ` set (union_arrays out vs) = canonKey ` set out \<union> canonKey ` set vs"
  by (induction out vs rule: union_arrays.induct) auto

lemma canonKey_unionArrays: "canonKey ` set (unionArrays xs ys) = canonKey ` set xs \<union> canonKey ` set ys"
  by (simp add: unionArrays_def canonKey_union)

lemma map_of_merge_fields:
  "distinct (map fst os) \<Longrightarrow>
   map_of (merge_fields un path bs os) k =
     (case map_of os k of
        None \<Rightarrow> map_of bs k
      | Some v \<Rightarrow> Some (case map_of bs k of None \<Rightarrow> v | Some prev \<Rightarrow> merge_value un (childPath path k) prev v))"
proof (induction os arbitrary: bs)
  case (Cons x os)
  obtain j v where x: "x = (j, v)" by (cases x)
  have "map_of os j = None" using Cons.prems by (simp add: x map_of_eq_None_iff)
  with Cons show ?case by (auto simp: x map_of_put split: option.splits)
qed simp

lemma distinct_merge_fields: "distinct (map fst bs) \<Longrightarrow> distinct (map fst (merge_fields un path bs os))"
proof (induction os arbitrary: bs)
  case (Cons x os)
  then show ?case by (cases x) (simp add: distinct_put)
qed simp

text \<open>
  The deny list of an agent's settings, and settings in which it can be read: wherever the
  permissions or the list are given, they are an object and an array (or null).
\<close>

abbreviation permissions_key :: jstr where "permissions_key \<equiv> js ''permissions''"
abbreviation deny_key :: jstr where "deny_key \<equiv> js ''deny''"

definition deny_list :: "settings \<Rightarrow> json list" where
  "deny_list m =
     (case map_of (nullish m []) permissions_key of
        Some (JObj p) \<Rightarrow> (case map_of p deny_key of Some (JArr xs) \<Rightarrow> xs | _ \<Rightarrow> [])
      | _ \<Rightarrow> [])"

fun array_or_absent :: "json option \<Rightarrow> bool" where
  "array_or_absent None \<longleftrightarrow> True"
| "array_or_absent (Some JNull) \<longleftrightarrow> True"
| "array_or_absent (Some (JArr xs)) \<longleftrightarrow> True"
| "array_or_absent (Some v) \<longleftrightarrow> False"

fun wf_permissions :: "json option \<Rightarrow> bool" where
  "wf_permissions None \<longleftrightarrow> True"
| "wf_permissions (Some JNull) \<longleftrightarrow> True"
| "wf_permissions (Some (JObj p)) \<longleftrightarrow> distinct (map fst p) \<and> array_or_absent (map_of p deny_key)"
| "wf_permissions (Some v) \<longleftrightarrow> False"

definition wf_deny :: "settings \<Rightarrow> bool" where
  "wf_deny m \<longleftrightarrow> distinct (map fst (nullish m [])) \<and> wf_permissions (map_of (nullish m []) permissions_key)"

definition denied_names :: "settings \<Rightarrow> jstr set" where
  "denied_names m = canonKey ` set (deny_list m)"

abbreviation claude_unions :: "jstr list" where
  "claude_unions \<equiv> AgentMergeRules (js ''claude'')"

lemma deny_path: "childPath (childPath [] permissions_key) deny_key \<in> set claude_unions"
  by (simp add: childPath_def AgentMergeRules_def js_def)

text \<open>The permissions of a merge, from the permissions on either side.\<close>

definition merged_field :: "jstr list \<Rightarrow> jstr \<Rightarrow> json option \<Rightarrow> json option \<Rightarrow> json option" where
  "merged_field un path old new =
     (case new of None \<Rightarrow> old | Some v \<Rightarrow> Some (case old of None \<Rightarrow> v | Some prev \<Rightarrow> merge_value un path prev v))"

fun array_of :: "json option \<Rightarrow> json list" where
  "array_of (Some (JArr xs)) = xs"
| "array_of v = []"

lemma merged_array:
  assumes "array_or_absent old" "array_or_absent new" "path \<in> set un"
  shows "array_or_absent (merged_field un path old new)"
    "canonKey ` set (array_of (merged_field un path old new)) = canonKey ` set (array_of old) \<union> canonKey ` set (array_of new)"
  using assms
  by (cases old rule: array_or_absent.cases; cases new rule: array_or_absent.cases;
      simp add: merged_field_def canonKey_unionArrays)+

fun permissions_deny :: "json option \<Rightarrow> json list" where
  "permissions_deny (Some (JObj p)) = array_of (map_of p deny_key)"
| "permissions_deny v = []"

lemma deny_list_eq: "deny_list m = permissions_deny (map_of (nullish m []) permissions_key)"
  by (auto simp: deny_list_def split: option.splits json.splits)

lemma merged_permissions:
  assumes "wf_permissions old" "wf_permissions new"
  shows "wf_permissions (merged_field claude_unions (childPath [] permissions_key) old new) \<and>
    canonKey ` set (permissions_deny (merged_field claude_unions (childPath [] permissions_key) old new)) =
      canonKey ` set (permissions_deny old) \<union> canonKey ` set (permissions_deny new)"
proof (cases "\<exists>p q. old = Some (JObj p) \<and> new = Some (JObj q)")
  case True
  then obtain p q where pq: "old = Some (JObj p)" "new = Some (JObj q)" by blast
  let ?m = "merge_fields claude_unions (childPath [] permissions_key) p q"
  have "map_of ?m deny_key = merged_field claude_unions (childPath (childPath [] permissions_key) deny_key)
      (map_of p deny_key) (map_of q deny_key)"
    using assms(2) by (simp add: pq map_of_merge_fields merged_field_def)
  moreover have "merged_field claude_unions (childPath [] permissions_key) old new = Some (JObj ?m)"
    by (simp add: pq merged_field_def)
  ultimately show ?thesis
    using assms merged_array [OF _ _ deny_path, of "map_of p deny_key" "map_of q deny_key"] pq
    by (simp add: distinct_merge_fields)
next
  case False
  with assms show ?thesis
    by (cases old rule: wf_permissions.cases; cases new rule: wf_permissions.cases)
      (simp_all add: merged_field_def)
qed

lemma merge_settings_denied:
  assumes "wf_deny old" "wf_deny new"
  shows "wf_deny (merge_settings claude_unions old new)"
    "denied_names (merge_settings claude_unions old new) = denied_names old \<union> denied_names new"
proof -
  have "wf_deny (merge_settings claude_unions old new) \<and>
    denied_names (merge_settings claude_unions old new) = denied_names old \<union> denied_names new"
  proof (cases new)
    case None
    then show ?thesis using assms by (simp add: merge_settings_def denied_names_def deny_list_def)
  next
    case (Some kvs)
    let ?m = "merge_fields claude_unions [] (nullish old []) kvs"
    have m: "merge_settings claude_unions old new = Some ?m"
      by (simp add: Some merge_settings_def merge_JSON_def object_fields_def)
    have "map_of ?m permissions_key = merged_field claude_unions (childPath [] permissions_key)
        (map_of (nullish old []) permissions_key) (map_of kvs permissions_key)"
      using assms(2) by (simp add: Some wf_deny_def map_of_merge_fields merged_field_def)
    with merged_permissions [of "map_of (nullish old []) permissions_key" "map_of kvs permissions_key"] assms
    show ?thesis
      by (simp add: m [unfolded Some] Some wf_deny_def denied_names_def deny_list_eq distinct_merge_fields)
  qed
  then show "wf_deny (merge_settings claude_unions old new)"
    "denied_names (merge_settings claude_unions old new) = denied_names old \<union> denied_names new" by simp_all
qed

lemma foldl_layers_denied:
  assumes "\<forall>c \<in> set cs. wf_deny (ac_managed c)" "wf_deny (ac_managed c0)"
  shows "denied_names (ac_managed (foldl (layer_config (js ''claude'')) c0 cs)) =
      denied_names (ac_managed c0) \<union> (\<Union>c \<in> set cs. denied_names (ac_managed c))"
  using assms
proof (induction cs arbitrary: c0)
  case (Cons c cs)
  then show ?case by (simp add: layer_config_def merge_settings_denied Un_assoc)
qed simp

lemma foldl_layers_force: "ac_forceEnv (foldl (layer_config a) c0 cs) \<longleftrightarrow> ac_forceEnv c0 \<or> (\<exists>c \<in> set cs. ac_forceEnv c)"
  by (induction cs arbitrary: c0) (auto simp: layer_config_def)

lemma set_configs_of: "c \<in> set (configs_of a rules) \<longleftrightarrow> (\<exists>r \<in> set rules. map_of (ru_agents r) a = Some c)"
  by (force simp: configs_of_def split: option.splits)

section \<open>Properties\<close>

text \<open>C30. When a rule applies: some group of the subject is among the rule's, if it names any, and the
  repository is one its patterns mean, if it has any. The search that takes the first occurrence of
  each segment never misses a match.\<close>

theorem rule_matches_iff:
  "Matches m s \<longleftrightarrow>
     (mt_groups m = [] \<or> set (mt_groups m) \<inter> set (su_groups s) \<noteq> {}) \<and>
     (mt_repos m = [] \<or> su_repo s \<noteq> [] \<and> (\<exists>p \<in> set (mt_repos m). glob_means p (su_repo s)))"
proof -
  have "anyIn (mt_groups m) (su_groups s) \<longleftrightarrow> set (mt_groups m) \<inter> set (su_groups s) \<noteq> {}"
    by (auto simp: anyIn_def list_ex_iff)
  moreover have "MatchAny (mt_repos m) (su_repo s) \<noteq> None \<longleftrightarrow> (\<exists>p \<in> set (mt_repos m). glob_means p (su_repo s))"
    by (auto simp: MatchAny_def find_None_iff glob_match_correct)
  ultimately show ?thesis by (simp add: Matches_def)
qed

theorem rule_matches_iff_witness:
  "Matches \<lparr>mt_groups = [js ''eng''], mt_repos = [js ''org/*'']\<rparr> \<lparr>su_groups = [js ''ops'', js ''eng''], su_repo = js ''org/a''\<rparr>"
  unfolding rule_matches_iff by (simp add: js_def)

text \<open>Compiling for a subject takes exactly the rules that apply to it, in the order written: the
  document names them, and the configuration of each agent is theirs, layered from the first to the
  last; an agent no such rule names has none. Cutting the bundle by group first changes nothing.\<close>

theorem compile_layers_rules:
  assumes "wf_rules rs"
  shows "do_appliedRules (Compile rs s) = map ru_name (applicable rs s) \<and>
    map_of (do_agents (Compile rs s)) a = layered a (configs_of a (applicable rs s)) \<and>
    do_version (Compile rs s) = rs_version rs"
  using Compile_layers [OF assms] by simp

definition sample_config :: "jstr \<Rightarrow> bool \<Rightarrow> agent_config" where
  "sample_config e force =
     \<lparr>ac_managed = Some [(permissions_key, JObj [(deny_key, JArr [JStr e])])], ac_env = [],
      ac_forceEnv = force, ac_launch = None\<rparr>"

definition sample_rule :: "jstr \<Rightarrow> jstr list \<Rightarrow> agent_config \<Rightarrow> rule" where
  "sample_rule name groups c =
     \<lparr>ru_name = name, ru_match = \<lparr>mt_groups = groups, mt_repos = []\<rparr>, ru_agents = [(js ''claude'', c)]\<rparr>"

definition sample_rules :: rule_set where
  "sample_rules = \<lparr>rs_version = [49], rs_groups = [],
     rs_rules = [sample_rule [97] [] (sample_config [120] True), sample_rule [98] [[103]] (sample_config [121] False),
       sample_rule [99] [[104]] (sample_config [122] False)]\<rparr>"

abbreviation sample_subject :: subject where
  "sample_subject \<equiv> \<lparr>su_groups = [[103]], su_repo = []\<rparr>"

lemma sample_wf: "wf_rules sample_rules"
  by (simp add: wf_rules_def sample_rules_def sample_rule_def)

lemma sample_applicable:
  "applicable sample_rules sample_subject =
     [sample_rule [97] [] (sample_config [120] True), sample_rule [98] [[103]] (sample_config [121] False)]"
  by (simp add: applicable_def sample_rules_def sample_rule_def Matches_def anyIn_def)

theorem compile_layers_rules_witness:
  "do_appliedRules (Compile sample_rules sample_subject) = [[97], [98]]"
  using compile_layers_rules [OF sample_wf, of sample_subject] by (simp add: sample_applicable sample_rule_def)

text \<open>C10. A later rule cannot take back what an earlier one forbids: what Claude is denied for a subject is
  exactly what some rule that applies denies (up to the writing of a value), and its environment is
  forced as soon as one of them forces it.\<close>

theorem restrictions_stay:
  assumes "wf_rules rs"
    and "\<forall>c \<in> set (configs_of (js ''claude'') (applicable rs s)). wf_deny (ac_managed c)"
    and "r \<in> set (applicable rs s)" and "map_of (ru_agents r) (js ''claude'') = Some c"
  shows "\<exists>config. map_of (do_agents (Compile rs s)) (js ''claude'') = Some config \<and>
    denied_names (ac_managed c) \<subseteq> denied_names (ac_managed config) \<and>
    denied_names (ac_managed config) =
      (\<Union>c \<in> set (configs_of (js ''claude'') (applicable rs s)). denied_names (ac_managed c)) \<and>
    (ac_forceEnv config \<longleftrightarrow> (\<exists>c \<in> set (configs_of (js ''claude'') (applicable rs s)). ac_forceEnv c))"
proof -
  let ?cs = "configs_of (js ''claude'') (applicable rs s)"
  have mem: "c \<in> set ?cs" using assms(3,4) by (auto simp: set_configs_of)
  then have "map_of (do_agents (Compile rs s)) (js ''claude'') = Some (foldl (layer_config (js ''claude'')) empty_config ?cs)"
    using Compile_layers(1) [OF assms(1)] by (auto simp: layered_def)
  moreover have "wf_deny (ac_managed empty_config)" "denied_names (ac_managed empty_config) = {}" "\<not> ac_forceEnv empty_config"
    by (simp_all add: empty_config_def wf_deny_def denied_names_def deny_list_def)
  ultimately show ?thesis
    using mem assms(2) by (auto simp: foldl_layers_denied foldl_layers_force)
qed

theorem restrictions_stay_witness:
  "\<exists>config. map_of (do_agents (Compile sample_rules sample_subject)) (js ''claude'') = Some config \<and>
     canonKey (JStr [120]) \<in> denied_names (ac_managed config) \<and> ac_forceEnv config"
proof -
  let ?c = "sample_config [120] True"
  have cs: "configs_of (js ''claude'') (applicable sample_rules sample_subject) = [?c, sample_config [121] False]"
    by (simp add: sample_applicable configs_of_def sample_rule_def)
  have wf: "wf_deny (ac_managed (sample_config e f))" and d: "denied_names (ac_managed (sample_config e f)) = {canonKey (JStr e)}" for e f
    by (simp_all add: sample_config_def wf_deny_def denied_names_def deny_list_def)
  have "sample_rule [97] [] ?c \<in> set (applicable sample_rules sample_subject)" by (simp add: sample_applicable)
  from restrictions_stay [OF sample_wf _ this, of ?c] show ?thesis
    by (auto simp: cs wf d sample_rule_def) (auto simp: sample_config_def)
qed

end
