(* ===== verification/ControlStore.thy ===== *)
theory ControlStore
  imports Policy Transitions
begin

text \<open>
  The control plane's in-memory store: \<^verbatim>\<open>internal/store/memory.go\<close> and \<^verbatim>\<open>memory_console.go\<close> with the
  records of \<^verbatim>\<open>internal/model\<close>. Every method takes the lock for its whole run, so an operation is a
  function of the state; one that fails returns an error and leaves the state alone. Times are
  nanoseconds; sequence numbers and event ids are counted without bound (the source's \<open>int64\<close> would
  wrap after 2^63 writes). What the identity provider provisioned is only read here; the two reading
  methods of \<^verbatim>\<open>memory_scim.go\<close> that the console's requests use are the last section.
\<close>

section \<open>Records\<close>

type_synonym time = int

definition zero_time :: time where
  "zero_time = -62135596800000000000"

record go_revision =
  gr_seq :: int
  gr_version :: jstr
  gr_ruleSet :: rule_set
  gr_createdAt :: time
  gr_createdBy :: jstr

record go_token =
  gt_hash :: jstr
  gt_user :: jstr
  gt_expiresAt :: time
  gt_usedAt :: time

record go_machine =
  gm_id :: jstr
  gm_user :: jstr
  gm_name :: jstr
  gm_os :: jstr
  gm_credentialHash :: jstr
  gm_enrolledAt :: time
  gm_lastSeenAt :: time
  gm_lastBundleVersion :: jstr
  gm_lastKeyID :: jstr

record snapshot =
  sn_seq :: int
  sn_source :: jstr
  sn_appliedBy :: jstr
  sn_syncedAt :: time
  sn_members :: group_lists

record session =
  se_tokenHash :: jstr
  se_user :: jstr
  se_createdAt :: time
  se_lastSeenAt :: time

record go_event =
  ev_id :: int
  ev_at :: time
  ev_actor :: jstr
  ev_action :: jstr
  ev_target :: jstr
  ev_detail :: "json go_map"

record scim_user =
  su_userName :: jstr
  su_active :: bool
  su_created :: time

record scim_data =
  sd_users :: "scim_user go_map"
  sd_groups :: "jstr go_map"
  sd_members :: "jstr list go_map"

record memory =
  m_revisions :: "go_revision list"
  m_versions :: "jstr set"
  m_nextSeq :: int
  m_tokens :: "jstr \<rightharpoonup> go_token"
  m_machines :: "jstr \<rightharpoonup> go_machine"
  m_byHash :: "jstr \<rightharpoonup> jstr"
  m_order :: "jstr list"
  m_snapshots :: "snapshot list"
  m_sessions :: "jstr \<rightharpoonup> session"
  m_audit :: "go_event list"
  m_nextAudit :: int
  m_scim :: scim_data

definition NewMemory :: memory where
  "NewMemory =
     \<lparr>m_revisions = [], m_versions = {}, m_nextSeq = 0, m_tokens = Map.empty, m_machines = Map.empty,
      m_byHash = Map.empty, m_order = [], m_snapshots = [], m_sessions = Map.empty, m_audit = [],
      m_nextAudit = 0, m_scim = \<lparr>sd_users = [], sd_groups = [], sd_members = []\<rparr>\<rparr>"

section \<open>Errors\<close>

datatype store_error =
    NoVersion | VersionExists jstr | NoPolicy
  | TokenIncomplete | TokenExists | TokenUnknown | TokenUsed | TokenExpired
  | MachineIncomplete | MachineExists jstr | CredentialIssued | CredentialUnknown | MachineUnknown jstr
  | EmptyUser | EmptyGroup jstr | NoSnapshot
  | SessionIncomplete | SessionExists | SessionUnknown
  | NoActor | NoAction

datatype sentinel = ErrNotFound | ErrConflict | ErrBadInput

fun wraps :: "store_error \<Rightarrow> sentinel" where
  "wraps NoVersion = ErrBadInput" | "wraps (VersionExists v) = ErrConflict" | "wraps NoPolicy = ErrNotFound"
| "wraps TokenIncomplete = ErrBadInput" | "wraps TokenExists = ErrConflict" | "wraps TokenUnknown = ErrNotFound"
| "wraps TokenUsed = ErrConflict" | "wraps TokenExpired = ErrConflict"
| "wraps MachineIncomplete = ErrBadInput" | "wraps (MachineExists i) = ErrConflict"
| "wraps CredentialIssued = ErrConflict" | "wraps CredentialUnknown = ErrNotFound"
| "wraps (MachineUnknown i) = ErrNotFound"
| "wraps EmptyUser = ErrBadInput" | "wraps (EmptyGroup u) = ErrBadInput" | "wraps NoSnapshot = ErrNotFound"
| "wraps SessionIncomplete = ErrBadInput" | "wraps SessionExists = ErrConflict" | "wraps SessionUnknown = ErrNotFound"
| "wraps NoActor = ErrBadInput" | "wraps NoAction = ErrBadInput"

section \<open>The audit log\<close>

definition validate_event :: "go_event \<Rightarrow> store_error option" where
  "validate_event e =
     (if ev_actor e = [] then Some NoActor else if ev_action e = [] then Some NoAction else None)"

text \<open>
  The counters are Go's \<^verbatim>\<open>int64\<close>; here they do not wrap, which takes more entries than a memory holds.
\<close>

definition appendAudit :: "time \<Rightarrow> go_event \<Rightarrow> memory \<Rightarrow> memory" where
  "appendAudit clock e m =
     m\<lparr>m_nextAudit := m_nextAudit m + 1,
       m_audit := m_audit m @
         [e\<lparr>ev_id := m_nextAudit m + 1, ev_at := (if ev_at e = zero_time then clock else ev_at e)\<rparr>]\<rparr>"

definition RecordAudit :: "time \<Rightarrow> go_event \<Rightarrow> memory \<Rightarrow> store_error + memory" where
  "RecordAudit clock e m =
     (case validate_event e of Some x \<Rightarrow> Inl x | None \<Rightarrow> Inr (appendAudit clock e m))"

section \<open>Revisions\<close>

definition PutRuleSet :: "time \<Rightarrow> go_revision \<Rightarrow> go_event \<Rightarrow> memory \<Rightarrow> store_error + memory" where
  "PutRuleSet clock r audit m =
     (if gr_version r = [] then Inl NoVersion
      else (case validate_event audit of
        Some x \<Rightarrow> Inl x
      | None \<Rightarrow>
          (if gr_version r \<in> m_versions m then Inl (VersionExists (gr_version r))
           else Inr (appendAudit clock audit
             (m\<lparr>m_nextSeq := m_nextSeq m + 1, m_versions := insert (gr_version r) (m_versions m),
                m_revisions := m_revisions m @ [r\<lparr>gr_seq := m_nextSeq m + 1\<rparr>]\<rparr>)))))"

text \<open>Sorted by descending sequence number; a negative limit is no limit.\<close>

definition Revisions :: "int \<Rightarrow> memory \<Rightarrow> go_revision list" where
  "Revisions limit m =
     (let ordered = sort_key (\<lambda>r. - gr_seq r) (m_revisions m) in
      if limit \<ge> 0 \<and> limit < int (length ordered) then take (nat limit) ordered else ordered)"

definition CurrentRuleSet :: "memory \<Rightarrow> store_error + go_revision" where
  "CurrentRuleSet m = (case Revisions 1 m of [] \<Rightarrow> Inl NoPolicy | r # rs \<Rightarrow> Inr r)"

section \<open>Enrollment tokens\<close>

definition PutEnrollmentToken :: "time \<Rightarrow> go_token \<Rightarrow> go_event \<Rightarrow> memory \<Rightarrow> store_error + memory" where
  "PutEnrollmentToken clock t audit m =
     (if gt_hash t = [] \<or> gt_user t = [] then Inl TokenIncomplete
      else if m_tokens m (gt_hash t) \<noteq> None then Inl TokenExists
      else (case validate_event audit of
        Some x \<Rightarrow> Inl x
      | None \<Rightarrow> Inr (appendAudit clock audit (m\<lparr>m_tokens := (m_tokens m)(gt_hash t \<mapsto> t)\<rparr>))))"

definition ConsumeEnrollmentToken :: "jstr \<Rightarrow> time \<Rightarrow> memory \<Rightarrow> store_error + jstr \<times> memory" where
  "ConsumeEnrollmentToken hash now m =
     (case m_tokens m hash of
        None \<Rightarrow> Inl TokenUnknown
      | Some t \<Rightarrow>
          (if gt_usedAt t \<noteq> zero_time then Inl TokenUsed
           else if \<not> now < gt_expiresAt t then Inl TokenExpired
           else Inr (gt_user t, m\<lparr>m_tokens := (m_tokens m)(hash \<mapsto> t\<lparr>gt_usedAt := now\<rparr>)\<rparr>)))"

section \<open>Machines\<close>

definition PutMachine :: "go_machine \<Rightarrow> memory \<Rightarrow> store_error + memory" where
  "PutMachine mc m =
     (if gm_id mc = [] \<or> gm_credentialHash mc = [] then Inl MachineIncomplete
      else if m_machines m (gm_id mc) \<noteq> None then Inl (MachineExists (gm_id mc))
      else if m_byHash m (gm_credentialHash mc) \<noteq> None then Inl CredentialIssued
      else Inr (m\<lparr>m_machines := (m_machines m)(gm_id mc \<mapsto> mc),
                  m_byHash := (m_byHash m)(gm_credentialHash mc \<mapsto> gm_id mc),
                  m_order := m_order m @ [gm_id mc]\<rparr>))"

text \<open>A missing key of a Go map is the zero value.\<close>

definition zero_machine :: go_machine where
  "zero_machine =
     \<lparr>gm_id = [], gm_user = [], gm_name = [], gm_os = [], gm_credentialHash = [], gm_enrolledAt = zero_time,
      gm_lastSeenAt = zero_time, gm_lastBundleVersion = [], gm_lastKeyID = []\<rparr>"

definition MachineByCredential :: "jstr \<Rightarrow> memory \<Rightarrow> store_error + go_machine" where
  "MachineByCredential hash m =
     (case m_byHash m hash of None \<Rightarrow> Inl CredentialUnknown | Some mid \<Rightarrow> Inr (nullish (m_machines m mid) zero_machine))"

definition TouchMachine :: "jstr \<Rightarrow> time \<Rightarrow> jstr \<Rightarrow> jstr \<Rightarrow> memory \<Rightarrow> store_error + memory" where
  "TouchMachine mid seenAt bundleVersion keyID m =
     (case m_machines m mid of
        None \<Rightarrow> Inl (MachineUnknown mid)
      | Some mc \<Rightarrow> Inr (m\<lparr>m_machines := (m_machines m)(mid \<mapsto>
          mc\<lparr>gm_lastSeenAt := seenAt, gm_lastBundleVersion := bundleVersion, gm_lastKeyID := keyID\<rparr>)\<rparr>))"

definition ListMachines :: "memory \<Rightarrow> go_machine list" where
  "ListMachines m = map (\<lambda>mid. (nullish (m_machines m mid) zero_machine)\<lparr>gm_credentialHash := []\<rparr>) (m_order m)"

definition DeleteMachine :: "time \<Rightarrow> jstr \<Rightarrow> go_event \<Rightarrow> memory \<Rightarrow> store_error + memory" where
  "DeleteMachine clock mid audit m =
     (case m_machines m mid of
        None \<Rightarrow> Inl (MachineUnknown mid)
      | Some mc \<Rightarrow> (case validate_event audit of
          Some x \<Rightarrow> Inl x
        | None \<Rightarrow> Inr (appendAudit clock audit
            (m\<lparr>m_machines := (m_machines m)(mid := None),
               m_byHash := (m_byHash m)(gm_credentialHash mc := None),
               m_order := remove1 mid (m_order m)\<rparr>))))"

section \<open>Group snapshots\<close>

text \<open>The first entry without a user, or with an empty group.\<close>

fun validate_members :: "group_lists \<Rightarrow> store_error option" where
  "validate_members [] = None"
| "validate_members ((user, groups) # ms) =
     (if user = [] then Some EmptyUser
      else if [] \<in> set (nullish groups []) then Some (EmptyGroup user)
      else validate_members ms)"

definition PutGroupSnapshot :: "time \<Rightarrow> snapshot \<Rightarrow> go_event \<Rightarrow> memory \<Rightarrow> store_error + memory" where
  "PutGroupSnapshot clock s audit m =
     (case validate_members (sn_members s) of
        Some x \<Rightarrow> Inl x
      | None \<Rightarrow> (case validate_event audit of
          Some x \<Rightarrow> Inl x
        | None \<Rightarrow> Inr (appendAudit clock audit
            (m\<lparr>m_nextSeq := m_nextSeq m + 1,
               m_snapshots := m_snapshots m @
                 [s\<lparr>sn_seq := m_nextSeq m + 1,
                    sn_syncedAt := (if sn_syncedAt s = zero_time then clock else sn_syncedAt s)\<rparr>]\<rparr>))))"

definition CurrentGroupSnapshot :: "memory \<Rightarrow> store_error + snapshot" where
  "CurrentGroupSnapshot m = (if m_snapshots m = [] then Inl NoSnapshot else Inr (last (m_snapshots m)))"

section \<open>Sessions\<close>

definition CreateSession :: "session \<Rightarrow> memory \<Rightarrow> store_error + memory" where
  "CreateSession s m =
     (if se_tokenHash s = [] \<or> se_user s = [] then Inl SessionIncomplete
      else if m_sessions m (se_tokenHash s) \<noteq> None then Inl SessionExists
      else Inr (m\<lparr>m_sessions := (m_sessions m)(se_tokenHash s \<mapsto> s)\<rparr>))"

definition SessionByHash :: "jstr \<Rightarrow> memory \<Rightarrow> store_error + session" where
  "SessionByHash hash m = (case m_sessions m hash of None \<Rightarrow> Inl SessionUnknown | Some s \<Rightarrow> Inr s)"

definition TouchSession :: "jstr \<Rightarrow> time \<Rightarrow> memory \<Rightarrow> store_error + memory" where
  "TouchSession hash at m =
     (case m_sessions m hash of
        None \<Rightarrow> Inl SessionUnknown
      | Some s \<Rightarrow> Inr (m\<lparr>m_sessions := (m_sessions m)(hash \<mapsto> s\<lparr>se_lastSeenAt := at\<rparr>)\<rparr>))"

definition DeleteSession :: "jstr \<Rightarrow> memory \<Rightarrow> memory" where
  "DeleteSession hash m = m\<lparr>m_sessions := (m_sessions m)(hash := None)\<rparr>"

definition keep_sessions :: "(session \<Rightarrow> bool) \<Rightarrow> memory \<Rightarrow> memory" where
  "keep_sessions keep m =
     m\<lparr>m_sessions := (\<lambda>h. case m_sessions m h of None \<Rightarrow> None | Some s \<Rightarrow> if keep s then Some s else None)\<rparr>"

definition DeleteSessionsFor :: "jstr \<Rightarrow> memory \<Rightarrow> memory" where
  "DeleteSessionsFor user m = keep_sessions (\<lambda>s. se_user s \<noteq> user) m"

definition DeleteExpiredSessions :: "time \<Rightarrow> time \<Rightarrow> memory \<Rightarrow> memory" where
  "DeleteExpiredSessions createdBefore seenBefore m =
     keep_sessions (\<lambda>s. \<not> (se_createdAt s < createdBefore \<or> se_lastSeenAt s < seenBefore)) m"

section \<open>What SCIM provisioned\<close>

text \<open>The loops run over maps in any order; the result is sorted.\<close>

definition SCIMGroupsFor :: "jstr \<Rightarrow> memory \<Rightarrow> jstr list" where
  "SCIMGroupsFor userName m =
     sort (concat (map (\<lambda>(mid, u).
         if su_userName u \<noteq> userName \<or> \<not> su_active u then []
         else concat (map (\<lambda>(gid, members).
           if mid \<in> set members then [nullish (map_of (sd_groups (m_scim m)) gid) []] else []) (sd_members (m_scim m))))
       (sd_users (m_scim m))))"

text \<open>
  \<open>ListSCIMUsers\<close> for the first user whose name equals \<open>name\<close> ignoring case, in the order of creation;
  \<open>lower\<close> is \<^verbatim>\<open>strings.ToLower\<close>.
\<close>

definition first_scim_user :: "(jstr \<Rightarrow> jstr) \<Rightarrow> jstr \<Rightarrow> memory \<Rightarrow> scim_user option" where
  "first_scim_user lower name m =
     (case sort_key (\<lambda>(mid, u). su_created u) (sort_key fst
         (filter (\<lambda>(mid, u). lower (su_userName u) = lower name) (sd_users (m_scim m)))) of
        [] \<Rightarrow> None
      | (mid, u) # us \<Rightarrow> Some u)"

definition SCIMCounts :: "memory \<Rightarrow> nat \<times> nat \<times> nat" where
  "SCIMCounts m =
     (length (sd_users (m_scim m)), length (filter (\<lambda>(mid, u). su_active u) (sd_users (m_scim m))),
      length (sd_groups (m_scim m)))"

end
