(* ===== verification/StoreRuns.thy ===== *)
theory StoreRuns
  imports ControlStore
begin

text \<open>
  Runs of the store: its operations in any order. The invariant says that its indexes agree and its
  numbers are in order; \<open>machine_store\<close> is the part of the interface \<^verbatim>\<open>internal/store/store.go\<close> about
  machines, with the laws its comments state, and the store keeps it.
\<close>

section \<open>Operations\<close>

datatype store_op =
    is_revision: OpRevision time go_revision go_event
  | OpToken time go_token go_event
  | OpConsume jstr time
  | is_machine: OpMachine go_machine
  | is_touch: OpTouch jstr time jstr jstr
  | is_revoke: OpRevoke time jstr go_event
  | is_snapshot: OpSnapshot time snapshot go_event
  | OpSession session
  | OpSeen jstr time
  | OpDropSession jstr
  | OpDropUser jstr
  | OpSweep time time
  | OpRecord time go_event
  | OpProvision scim_data

fun run_op :: "store_op \<Rightarrow> memory \<Rightarrow> store_error + memory" where
  "run_op (OpRevision c r e) m = PutRuleSet c r e m"
| "run_op (OpToken c t e) m = PutEnrollmentToken c t e m"
| "run_op (OpConsume h now) m = map_sum (\<lambda>x. x) snd (ConsumeEnrollmentToken h now m)"
| "run_op (OpMachine mc) m = PutMachine mc m"
| "run_op (OpTouch i t v k) m = TouchMachine i t v k m"
| "run_op (OpRevoke c i e) m = DeleteMachine c i e m"
| "run_op (OpSnapshot c s e) m = PutGroupSnapshot c s e m"
| "run_op (OpSession s) m = CreateSession s m"
| "run_op (OpSeen h t) m = TouchSession h t m"
| "run_op (OpDropSession h) m = Inr (DeleteSession h m)"
| "run_op (OpDropUser u) m = Inr (DeleteSessionsFor u m)"
| "run_op (OpSweep c s) m = Inr (DeleteExpiredSessions c s m)"
| "run_op (OpRecord c e) m = RecordAudit c e m"
| "run_op (OpProvision d) m = Inr (m\<lparr>m_scim := d\<rparr>)"

text \<open>A step is an operation that succeeds; one that fails changes nothing.\<close>

definition store_step :: "memory \<Rightarrow> store_op \<Rightarrow> memory \<Rightarrow> bool" where
  "store_step m op m' \<longleftrightarrow> run_op op m = Inr m'"

text \<open>The event an operation is to leave in the log.\<close>

fun op_events :: "store_op \<Rightarrow> go_event list" where
  "op_events (OpRevision c r e) = [e]"
| "op_events (OpToken c t e) = [e]"
| "op_events (OpRevoke c i e) = [e]"
| "op_events (OpSnapshot c s e) = [e]"
| "op_events (OpRecord c e) = [e]"
| "op_events op = []"

lemmas store_defs = PutRuleSet_def PutEnrollmentToken_def ConsumeEnrollmentToken_def PutMachine_def
  TouchMachine_def DeleteMachine_def PutGroupSnapshot_def CreateSession_def TouchSession_def DeleteSession_def
  DeleteSessionsFor_def DeleteExpiredSessions_def keep_sessions_def RecordAudit_def

lemma appendAudit_fields [simp]:
  "m_revisions (appendAudit c e m) = m_revisions m" "m_versions (appendAudit c e m) = m_versions m"
  "m_nextSeq (appendAudit c e m) = m_nextSeq m" "m_tokens (appendAudit c e m) = m_tokens m"
  "m_machines (appendAudit c e m) = m_machines m" "m_byHash (appendAudit c e m) = m_byHash m"
  "m_order (appendAudit c e m) = m_order m" "m_snapshots (appendAudit c e m) = m_snapshots m"
  "m_sessions (appendAudit c e m) = m_sessions m" "m_scim (appendAudit c e m) = m_scim m"
  "m_nextAudit (appendAudit c e m) = m_nextAudit m + 1"
  by (simp_all add: appendAudit_def)

text \<open>When each operation succeeds, and the state it leaves.\<close>

lemma step_simps:
  "store_step m (OpRevision c r e) m' \<longleftrightarrow> gr_version r \<noteq> [] \<and> validate_event e = None \<and> gr_version r \<notin> m_versions m \<and>
     m' = appendAudit c e (m\<lparr>m_nextSeq := m_nextSeq m + 1, m_versions := insert (gr_version r) (m_versions m),
       m_revisions := m_revisions m @ [r\<lparr>gr_seq := m_nextSeq m + 1\<rparr>]\<rparr>)"
  "store_step m (OpToken c t e) m' \<longleftrightarrow> gt_hash t \<noteq> [] \<and> gt_user t \<noteq> [] \<and> m_tokens m (gt_hash t) = None \<and>
     validate_event e = None \<and> m' = appendAudit c e (m\<lparr>m_tokens := (m_tokens m)(gt_hash t \<mapsto> t)\<rparr>)"
  "store_step m (OpConsume h now) m' \<longleftrightarrow> (\<exists>t. m_tokens m h = Some t \<and> gt_usedAt t = zero_time \<and> now < gt_expiresAt t \<and>
     m' = m\<lparr>m_tokens := (m_tokens m)(h \<mapsto> t\<lparr>gt_usedAt := now\<rparr>)\<rparr>)"
  "store_step m (OpMachine mc) m' \<longleftrightarrow> gm_id mc \<noteq> [] \<and> gm_credentialHash mc \<noteq> [] \<and> m_machines m (gm_id mc) = None \<and>
     m_byHash m (gm_credentialHash mc) = None \<and>
     m' = m\<lparr>m_machines := (m_machines m)(gm_id mc \<mapsto> mc),
       m_byHash := (m_byHash m)(gm_credentialHash mc \<mapsto> gm_id mc), m_order := m_order m @ [gm_id mc]\<rparr>"
  "store_step m (OpTouch i seen v k) m' \<longleftrightarrow> (\<exists>mc. m_machines m i = Some mc \<and> m' = m\<lparr>m_machines := (m_machines m)(i \<mapsto>
     mc\<lparr>gm_lastSeenAt := seen, gm_lastBundleVersion := v, gm_lastKeyID := k\<rparr>)\<rparr>)"
  "store_step m (OpRevoke c i e) m' \<longleftrightarrow> (\<exists>mc. m_machines m i = Some mc \<and> validate_event e = None \<and>
     m' = appendAudit c e (m\<lparr>m_machines := (m_machines m)(i := None),
       m_byHash := (m_byHash m)(gm_credentialHash mc := None), m_order := remove1 i (m_order m)\<rparr>))"
  "store_step m (OpSnapshot c s e) m' \<longleftrightarrow> validate_members (sn_members s) = None \<and> validate_event e = None \<and>
     m' = appendAudit c e (m\<lparr>m_nextSeq := m_nextSeq m + 1, m_snapshots := m_snapshots m @
       [s\<lparr>sn_seq := m_nextSeq m + 1, sn_syncedAt := (if sn_syncedAt s = zero_time then c else sn_syncedAt s)\<rparr>]\<rparr>)"
  "store_step m (OpSession u) m' \<longleftrightarrow> se_tokenHash u \<noteq> [] \<and> se_user u \<noteq> [] \<and> m_sessions m (se_tokenHash u) = None \<and>
     m' = m\<lparr>m_sessions := (m_sessions m)(se_tokenHash u \<mapsto> u)\<rparr>"
  "store_step m (OpSeen h at) m' \<longleftrightarrow> (\<exists>u. m_sessions m h = Some u \<and>
     m' = m\<lparr>m_sessions := (m_sessions m)(h \<mapsto> u\<lparr>se_lastSeenAt := at\<rparr>)\<rparr>)"
  "store_step m (OpDropSession h) m' \<longleftrightarrow> m' = DeleteSession h m"
  "store_step m (OpDropUser user) m' \<longleftrightarrow> m' = DeleteSessionsFor user m"
  "store_step m (OpSweep x y) m' \<longleftrightarrow> m' = DeleteExpiredSessions x y m"
  "store_step m (OpRecord c e) m' \<longleftrightarrow> validate_event e = None \<and> m' = appendAudit c e m"
  "store_step m (OpProvision d) m' \<longleftrightarrow> m' = m\<lparr>m_scim := d\<rparr>"
  by (auto simp: store_step_def store_defs split: if_splits option.splits)

lemmas drop_defs = DeleteSession_def DeleteSessionsFor_def DeleteExpiredSessions_def keep_sessions_def

section \<open>The log\<close>

text \<open>An event without what the store fills in.\<close>

definition stripped :: "go_event \<Rightarrow> go_event" where
  "stripped e = e\<lparr>ev_id := 0, ev_at := 0\<rparr>"

definition logged :: "int \<Rightarrow> time \<Rightarrow> go_event \<Rightarrow> go_event" where
  "logged n c e = e\<lparr>ev_id := n, ev_at := (if ev_at e = zero_time then c else ev_at e)\<rparr>"

lemma appendAudit_audit [simp]: "m_audit (appendAudit c e m) = m_audit m @ [logged (m_nextAudit m + 1) c e]"
  by (simp add: appendAudit_def logged_def)

lemma logged_simps [simp]: "stripped (logged n c e) = stripped e" "ev_id (logged n c e) = n"
  by (simp_all add: stripped_def logged_def)

definition numbered :: "memory \<Rightarrow> bool" where
  "numbered m \<longleftrightarrow> m_nextAudit m = int (length (m_audit m)) \<and>
     map ev_id (m_audit m) = map (\<lambda>i. int i + 1) [0..<length (m_audit m)]"

lemma step_log:
  assumes "store_step m op m'"
  shows "(op_events op = [] \<and> m_audit m' = m_audit m \<and> m_nextAudit m' = m_nextAudit m) \<or>
    (\<exists>c e. op_events op = [e] \<and> validate_event e = None \<and> m_nextAudit m' = m_nextAudit m + 1 \<and>
       m_audit m' = m_audit m @ [logged (m_nextAudit m + 1) c e])"
  using assms by (cases op) (auto simp: step_simps drop_defs)

section \<open>The invariant\<close>

definition wf_revisions :: "memory \<Rightarrow> bool" where
  "wf_revisions m \<longleftrightarrow>
     m_versions m = gr_version ` set (m_revisions m) \<and> distinct (map gr_version (m_revisions m)) \<and>
     sorted_wrt (<) (map gr_seq (m_revisions m)) \<and> (\<forall>r \<in> set (m_revisions m). gr_seq r \<le> m_nextSeq m)"

definition wf_snapshots :: "memory \<Rightarrow> bool" where
  "wf_snapshots m \<longleftrightarrow> sorted_wrt (<) (map sn_seq (m_snapshots m)) \<and>
     (\<forall>s \<in> set (m_snapshots m). sn_seq s \<le> m_nextSeq m \<and> validate_members (sn_members s) = None)"

definition wf_machines :: "memory \<Rightarrow> bool" where
  "wf_machines m \<longleftrightarrow> distinct (m_order m) \<and> set (m_order m) = dom (m_machines m) \<and>
     (\<forall>i mc. m_machines m i = Some mc \<longrightarrow> gm_id mc = i) \<and> m_machines m [] = None \<and> m_byHash m [] = None \<and>
     (\<forall>h i. m_byHash m h = Some i \<longleftrightarrow> (\<exists>mc. m_machines m i = Some mc \<and> gm_credentialHash mc = h))"

definition wf_keys :: "memory \<Rightarrow> bool" where
  "wf_keys m \<longleftrightarrow> (\<forall>h t. m_tokens m h = Some t \<longrightarrow> gt_hash t = h \<and> gt_user t \<noteq> []) \<and> m_tokens m [] = None \<and>
     (\<forall>h s. m_sessions m h = Some s \<longrightarrow> se_tokenHash s = h \<and> se_user s \<noteq> []) \<and> m_sessions m [] = None"

definition wf_memory :: "memory \<Rightarrow> bool" where
  "wf_memory m \<longleftrightarrow> wf_revisions m \<and> wf_snapshots m \<and> wf_machines m \<and> wf_keys m \<and> numbered m"

lemma appendAudit_wf [simp]:
  "wf_revisions (appendAudit c e m) = wf_revisions m" "wf_snapshots (appendAudit c e m) = wf_snapshots m"
  "wf_machines (appendAudit c e m) = wf_machines m" "wf_keys (appendAudit c e m) = wf_keys m"
  by (simp_all add: wf_revisions_def wf_snapshots_def wf_machines_def wf_keys_def)

text \<open>Which parts an operation touches.\<close>

lemma step_numbered: "store_step m op m' \<Longrightarrow> numbered m \<Longrightarrow> numbered m'"
  by (drule step_log) (auto simp: numbered_def)

lemma step_frame:
  assumes "store_step m op m'"
  shows "\<not> is_revision op \<Longrightarrow> m_revisions m' = m_revisions m \<and> m_versions m' = m_versions m"
    "\<not> is_snapshot op \<Longrightarrow> m_snapshots m' = m_snapshots m"
    "m_nextSeq m \<le> m_nextSeq m'"
    "\<not> is_machine op \<Longrightarrow> \<not> is_touch op \<Longrightarrow> \<not> is_revoke op \<Longrightarrow>
       m_machines m' = m_machines m \<and> m_byHash m' = m_byHash m \<and> m_order m' = m_order m"
  using assms by (cases op; clarsimp simp: step_simps drop_defs)+

lemma step_revisions:
  assumes "store_step m op m'" "wf_revisions m"
  shows "wf_revisions m'"
proof (cases op)
  case (OpRevision c r e)
  with assms show ?thesis by (fastforce simp: wf_revisions_def sorted_wrt_append step_simps)
qed (use assms step_frame(1,3) [OF assms(1)] in \<open>fastforce simp: wf_revisions_def\<close>)+

lemma step_snapshots:
  assumes "store_step m op m'" "wf_snapshots m"
  shows "wf_snapshots m'"
proof (cases op)
  case (OpSnapshot c s e)
  with assms show ?thesis by (fastforce simp: wf_snapshots_def sorted_wrt_append step_simps)
qed (use assms step_frame(2,3) [OF assms(1)] in \<open>fastforce simp: wf_snapshots_def\<close>)+

lemma step_keys:
  assumes "store_step m op m'" "wf_keys m"
  shows "wf_keys m'"
  using assms by (cases op) (auto simp: step_simps drop_defs wf_keys_def split: option.splits if_splits)

lemma put_machines:
  assumes "PutMachine mc m = Inr m'" "wf_machines m"
  shows "wf_machines m'"
proof -
  from assms(1) have new: "gm_id mc \<noteq> []" "gm_credentialHash mc \<noteq> []" "m_machines m (gm_id mc) = None"
      "m_byHash m (gm_credentialHash mc) = None"
    and m': "m_machines m' = (m_machines m)(gm_id mc \<mapsto> mc)"
      "m_byHash m' = (m_byHash m)(gm_credentialHash mc \<mapsto> gm_id mc)" "m_order m' = m_order m @ [gm_id mc]"
    by (auto simp: PutMachine_def split: if_splits)
  have unused: "m_machines m i = Some mc' \<Longrightarrow> gm_credentialHash mc' \<noteq> gm_credentialHash mc" for i mc'
    using assms(2) new(4) unfolding wf_machines_def by (metis option.distinct(1))
  from assms(2) new unused show ?thesis
    by (auto simp: wf_machines_def m')
qed

lemma touch_machines:
  assumes "TouchMachine i t v k m = Inr m'" "wf_machines m"
  shows "wf_machines m'"
proof -
  from assms(1) obtain mc where mc: "m_machines m i = Some mc"
    and m': "m_machines m' = (m_machines m)(i \<mapsto> mc\<lparr>gm_lastSeenAt := t, gm_lastBundleVersion := v, gm_lastKeyID := k\<rparr>)"
      "m_byHash m' = m_byHash m" "m_order m' = m_order m"
    by (auto simp: TouchMachine_def split: option.splits)
  have "(\<exists>x. m_machines m' j = Some x \<and> gm_credentialHash x = h) \<longleftrightarrow>
      (\<exists>x. m_machines m j = Some x \<and> gm_credentialHash x = h)" for j h
    using mc by (simp add: m')
  with assms(2) mc show ?thesis
    by (auto simp: wf_machines_def m' split: if_splits)
qed

lemma delete_machines:
  assumes "DeleteMachine c i e m = Inr m'" "wf_machines m"
  shows "wf_machines m'"
proof -
  from assms(1) obtain mc where mc: "m_machines m i = Some mc"
    and m': "m_machines m' = (m_machines m)(i := None)"
      "m_byHash m' = (m_byHash m)(gm_credentialHash mc := None)" "m_order m' = remove1 i (m_order m)"
    by (auto simp: DeleteMachine_def split: option.splits)
  have only: "m_machines m j = Some x \<Longrightarrow> gm_credentialHash x = gm_credentialHash mc \<Longrightarrow> j = i" for j x
    using assms(2) mc unfolding wf_machines_def by (metis option.inject)
  have iff: "m_byHash m h = Some j \<longleftrightarrow> (\<exists>x. m_machines m j = Some x \<and> gm_credentialHash x = h)" for h j
    using assms(2) by (simp add: wf_machines_def)
  have "m_byHash m' h = Some j \<longleftrightarrow> (\<exists>x. m_machines m' j = Some x \<and> gm_credentialHash x = h)" for h j
  proof (cases "h = gm_credentialHash mc")
    case True
    then show ?thesis using only by (auto simp: m')
  next
    case False
    then show ?thesis using mc by (auto simp: m' iff)
  qed
  with assms(2) show ?thesis
    by (auto simp: wf_machines_def m' set_remove1_eq)
qed

lemma same_machines:
  "m_machines m' = m_machines m \<Longrightarrow> m_byHash m' = m_byHash m \<Longrightarrow> m_order m' = m_order m \<Longrightarrow>
     wf_machines m' = wf_machines m"
  by (simp add: wf_machines_def)

lemma step_machines:
  assumes "store_step m op m'" "wf_machines m"
  shows "wf_machines m'"
proof (cases "is_machine op \<or> is_touch op \<or> is_revoke op")
  case True
  then consider mc where "op = OpMachine mc" | i t v k where "op = OpTouch i t v k" | c i e where "op = OpRevoke c i e"
    by (cases op) auto
  then show ?thesis
    using assms put_machines touch_machines delete_machines unfolding store_step_def by cases (metis run_op.simps)+
next
  case False
  with step_frame(4) [OF assms(1)] have "wf_machines m' = wf_machines m" by (intro same_machines) auto
  with assms(2) show ?thesis by simp
qed

lemma wf_NewMemory: "wf_memory NewMemory"
  by (simp add: wf_memory_def wf_revisions_def wf_snapshots_def wf_machines_def wf_keys_def numbered_def NewMemory_def)

interpretation store: invariant_machine "\<lambda>m. m = NewMemory" store_step wf_memory
  by unfold_locales
    (use wf_NewMemory in \<open>auto simp: wf_memory_def intro: step_revisions step_snapshots step_machines step_keys step_numbered\<close>)

section \<open>Machines, as the interface promises\<close>

text \<open>
  A store of machines keeps a list of them in the order of enrollment. \<open>put\<close> appends, \<open>drop\<close>
  removes, \<open>lookup\<close> answers for a credential hash; whatever does not enroll, touch or revoke leaves
  the list alone.
\<close>

locale machine_store =
  fixes ok :: "'s \<Rightarrow> bool"
    and machines :: "'s \<Rightarrow> go_machine list"
    and put :: "go_machine \<Rightarrow> 's \<Rightarrow> store_error + 's"
    and drop :: "jstr \<Rightarrow> 's \<Rightarrow> store_error + 's"
    and lookup :: "jstr \<Rightarrow> 's \<Rightarrow> store_error + go_machine"
  assumes ids_distinct: "ok s \<Longrightarrow> distinct (map gm_id (machines s))"
    and hashes_distinct: "ok s \<Longrightarrow> distinct (map gm_credentialHash (machines s))"
    and put_machines: "ok s \<Longrightarrow> put mc s = Inr s' \<Longrightarrow> ok s' \<and> machines s' = machines s @ [mc]"
    and drop_machines: "ok s \<Longrightarrow> drop i s = Inr s' \<Longrightarrow>
      ok s' \<and> i \<in> gm_id ` set (machines s) \<and> machines s' = filter (\<lambda>mc. gm_id mc \<noteq> i) (machines s)"
    and lookup_found: "ok s \<Longrightarrow> lookup h s = Inr mc \<longleftrightarrow> mc \<in> set (machines s) \<and> gm_credentialHash mc = h"
begin

lemma enrolled_is_found:
  "ok s \<Longrightarrow> put mc s = Inr s' \<Longrightarrow> lookup (gm_credentialHash mc) s' = Inr mc"
  using put_machines [of s mc s'] by (simp add: lookup_found)

lemma revoked_is_unknown:
  assumes "ok s" "drop i s = Inr s'" "mc \<in> set (machines s)" "gm_id mc = i"
  shows "\<nexists>mc'. lookup (gm_credentialHash mc) s' = Inr mc'"
proof
  assume "\<exists>mc'. lookup (gm_credentialHash mc) s' = Inr mc'"
  then obtain mc' where "lookup (gm_credentialHash mc) s' = Inr mc'" ..
  with drop_machines [OF assms(1,2)]
  have "mc' \<in> set (machines s)" "gm_id mc' \<noteq> i" "gm_credentialHash mc' = gm_credentialHash mc"
    by (auto simp: lookup_found)
  with hashes_distinct [OF assms(1)] assms(3,4) show False by (auto simp: distinct_map inj_on_def)
qed

lemma others_stay:
  assumes "ok s" "drop i s = Inr s'" "mc \<in> set (machines s)" "gm_id mc \<noteq> i"
  shows "lookup (gm_credentialHash mc) s' = Inr mc"
  using drop_machines [OF assms(1,2)] assms(3,4) by (simp add: lookup_found)

end

definition registry :: "memory \<Rightarrow> go_machine list" where
  "registry m = map (\<lambda>i. the (m_machines m i)) (m_order m)"

lemma wf_machines_facts:
  assumes "wf_machines m"
  shows "distinct (m_order m)" "set (m_order m) = dom (m_machines m)"
    "m_machines m i = Some mc \<Longrightarrow> gm_id mc = i"
    "m_byHash m h = Some i \<longleftrightarrow> (\<exists>x. m_machines m i = Some x \<and> gm_credentialHash x = h)"
  using assms by (simp_all add: wf_machines_def)

lemma in_registry:
  assumes "wf_machines m"
  shows "mc \<in> set (registry m) \<longleftrightarrow> m_machines m (gm_id mc) = Some mc"
proof
  assume "mc \<in> set (registry m)"
  then obtain i where "i \<in> dom (m_machines m)" "mc = the (m_machines m i)"
    unfolding registry_def wf_machines_facts(2) [OF assms, symmetric] by auto
  with wf_machines_facts(3) [OF assms] show "m_machines m (gm_id mc) = Some mc" by fastforce
next
  assume some: "m_machines m (gm_id mc) = Some mc"
  then have "gm_id mc \<in> set (m_order m)" unfolding wf_machines_facts(2) [OF assms] by auto
  with some show "mc \<in> set (registry m)" unfolding registry_def by force
qed

lemma registry_ids:
  assumes "wf_machines m"
  shows "map gm_id (registry m) = m_order m"
proof -
  have "gm_id (the (m_machines m i)) = i" if "i \<in> set (m_order m)" for i
    using that wf_machines_facts(2,3) [OF assms] by auto
  then show ?thesis by (simp add: registry_def map_idI)
qed

lemma lookup_registry:
  assumes "wf_machines m"
  shows "MachineByCredential h m = Inr mc \<longleftrightarrow> mc \<in> set (registry m) \<and> gm_credentialHash mc = h"
proof -
  note iff = wf_machines_facts(4) [OF assms, of h]
  show ?thesis
  proof (cases "m_byHash m h")
    case None
    with iff [of "gm_id mc"] show ?thesis by (auto simp: MachineByCredential_def in_registry [OF assms])
  next
    case (Some i)
    with iff [of i] obtain x where x: "m_machines m i = Some x" "gm_credentialHash x = h" by blast
    then have found: "MachineByCredential h m = Inr x" "gm_id x = i"
      using Some wf_machines_facts(3) [OF assms] by (simp_all add: MachineByCredential_def)
    have "mc = x" if "m_machines m (gm_id mc) = Some mc" "gm_credentialHash mc = h"
      using that iff [of "gm_id mc"] Some x(1) by (metis option.inject)
    with found x show ?thesis by (auto simp: in_registry [OF assms])
  qed
qed

lemma registry_put:
  assumes "wf_machines m" "PutMachine mc m = Inr m'"
  shows "registry m' = registry m @ [mc]"
proof -
  from assms(2) have m': "m_machines m (gm_id mc) = None" "m_machines m' = (m_machines m)(gm_id mc \<mapsto> mc)"
      "m_order m' = m_order m @ [gm_id mc]"
    by (auto simp: PutMachine_def split: if_splits)
  with wf_machines_facts(2) [OF assms(1)] have "gm_id mc \<notin> set (m_order m)" by auto
  then show ?thesis by (auto simp: registry_def m')
qed

lemma remove1_filter: "distinct xs \<Longrightarrow> remove1 x xs = filter (\<lambda>y. y \<noteq> x) xs"
  by (induction xs) (auto intro: filter_True [symmetric])

lemma registry_drop:
  assumes "wf_machines m" "DeleteMachine c i e m = Inr m'"
  shows "i \<in> gm_id ` set (registry m)" "registry m' = filter (\<lambda>mc. gm_id mc \<noteq> i) (registry m)"
proof -
  from assms(2) obtain mc where mc: "m_machines m i = Some mc"
    and m': "m_machines m' = (m_machines m)(i := None)" "m_order m' = remove1 i (m_order m)"
    by (auto simp: DeleteMachine_def split: option.splits)
  note wf = wf_machines_facts [OF assms(1)]
  from mc wf(2) have "i \<in> set (m_order m)" by auto
  with registry_ids [OF assms(1)] show "i \<in> gm_id ` set (registry m)" by (metis image_set)
  have "filter (\<lambda>mc. gm_id mc \<noteq> i) (registry m) = map (\<lambda>j. the (m_machines m j)) (filter (\<lambda>j. j \<noteq> i) (m_order m))"
    unfolding registry_def filter_map using wf(2,3)
    by (intro arg_cong [where f = "map _"] filter_cong) auto
  also have "\<dots> = map (\<lambda>j. the (m_machines m' j)) (filter (\<lambda>j. j \<noteq> i) (m_order m))"
    by (simp add: m')
  also have "filter (\<lambda>j. j \<noteq> i) (m_order m) = m_order m'"
    using remove1_filter [OF wf(1)] by (simp add: m')
  finally show "registry m' = filter (\<lambda>mc. gm_id mc \<noteq> i) (registry m)"
    by (simp add: registry_def)
qed

lemma registry_hashes:
  assumes "wf_machines m"
  shows "distinct (map gm_credentialHash (registry m))"
proof -
  have "inj_on gm_credentialHash (set (registry m))"
    using lookup_registry [OF assms] by (metis inj_onI sum.inject(2))
  moreover have "distinct (registry m)"
    using registry_ids [OF assms] wf_machines_facts(1) [OF assms] by (metis distinct_map)
  ultimately show ?thesis by (simp add: distinct_map)
qed

interpretation machines: machine_store wf_machines registry PutMachine "\<lambda>i m. DeleteMachine c i e m" MachineByCredential
proof (unfold_locales, goal_cases)
  case (1 s)
  then show ?case by (simp add: registry_ids wf_machines_facts(1))
next
  case (2 s)
  then show ?case by (rule registry_hashes)
next
  case (3 s mc s')
  then show ?case using registry_put put_machines by blast
next
  case (4 s i s')
  then show ?case using registry_drop delete_machines by metis
next
  case (5 s h mc)
  then show ?case by (rule lookup_registry)
qed

section \<open>What a run leaves behind\<close>

lemma trace_log:
  "trace store_step m ops m' \<Longrightarrow>
     map stripped (m_audit m') = map stripped (m_audit m) @ map stripped (concat (map op_events ops))"
proof (induction rule: trace.induct)
  case (trace_Cons s e t es u)
  from step_log [OF trace_Cons(1)] have "map stripped (m_audit t) = map stripped (m_audit s) @ map stripped (op_events e)"
    by auto
  with trace_Cons show ?case by simp
qed simp

text \<open>C12. 
  Every write an operator is answerable for is in the log once, in the order it happened, with the
  event the handler gave it, and the ids count from 1 without a gap.
\<close>

theorem audit_log_complete:
  assumes "trace store_step NewMemory ops m"
  shows "map stripped (m_audit m) = map stripped (concat (map op_events ops)) \<and>
    map ev_id (m_audit m) = map (\<lambda>i. int i + 1) [0..<length (m_audit m)]"
proof
  show "map stripped (m_audit m) = map stripped (concat (map op_events ops))"
    using trace_log [OF assms] by (simp add: NewMemory_def)
  show "map ev_id (m_audit m) = map (\<lambda>i. int i + 1) [0..<length (m_audit m)]"
    using store.reachable_inv [OF refl assms] by (simp add: wf_memory_def numbered_def)
qed

theorem audit_log_complete_witness:
  "\<exists>m. trace store_step NewMemory
       [OpToken 5 \<lparr>gt_hash = js ''h'', gt_user = js ''u'', gt_expiresAt = 9, gt_usedAt = zero_time\<rparr>
          \<lparr>ev_id = 0, ev_at = 5, ev_actor = js ''a'', ev_action = js ''enrollment-token.create'', ev_target = js ''u'',
           ev_detail = []\<rparr>,
        OpConsume (js ''h'') 6] m \<and>
     map ev_action (m_audit m) = [js ''enrollment-token.create''] \<and> map ev_id (m_audit m) = [1]"
proof -
  let ?e = "\<lparr>ev_id = 0, ev_at = 5, ev_actor = js ''a'', ev_action = js ''enrollment-token.create'', ev_target = js ''u'',
     ev_detail = []\<rparr> :: go_event"
  let ?ops = "[OpToken 5 \<lparr>gt_hash = js ''h'', gt_user = js ''u'', gt_expiresAt = 9, gt_usedAt = zero_time\<rparr> ?e,
    OpConsume (js ''h'') 6]"
  have "\<exists>m. trace store_step NewMemory ?ops m"
    by (simp add: trace_Cons_iff step_simps validate_event_def NewMemory_def)
  then obtain m where run: "trace store_step NewMemory ?ops m" by blast
  from audit_log_complete [OF this] have log: "map stripped (m_audit m) = [stripped ?e]"
      "map ev_id (m_audit m) = map (\<lambda>i. int i + 1) [0..<length (m_audit m)]"
    by simp_all
  then obtain x where x: "m_audit m = [x]" "stripped x = stripped ?e" by auto
  then have "ev_action x = js ''enrollment-token.create''" by (cases x) (simp add: stripped_def)
  with run log x show ?thesis by (intro exI [of _ m]) simp
qed

text \<open>A token that was used stays used: nothing removes it or issues it again.\<close>

definition spent :: "jstr \<Rightarrow> memory \<Rightarrow> bool" where
  "spent h m \<longleftrightarrow> (\<exists>t. m_tokens m h = Some t \<and> gt_usedAt t \<noteq> zero_time)"

lemma spent_step: "store_step m op m' \<Longrightarrow> spent h m \<Longrightarrow> spent h m' \<and> (\<forall>now. op \<noteq> OpConsume h now)"
  by (cases op) (auto simp: step_simps drop_defs spent_def)

lemma spent_trace:
  "trace store_step m ops m' \<Longrightarrow> spent h m \<Longrightarrow> \<forall>now. OpConsume h now \<notin> set ops"
  by (induction rule: trace.induct) (use spent_step in \<open>fastforce+\<close>)

text \<open>C18. A token enrolls at most one machine: once it was consumed no later consumption succeeds, and it was
  consumed before it expired, after it had been issued under that hash.\<close>

theorem enrollment_token_once:
  assumes "trace store_step NewMemory (before @ OpConsume h now # after) m" "now \<noteq> zero_time"
  shows "(\<forall>later. OpConsume h later \<notin> set after) \<and>
    (\<exists>c t e. OpToken c t e \<in> set before \<and> gt_hash t = h \<and> now < gt_expiresAt t)"
proof -
  obtain m1 m2 where run: "trace store_step NewMemory before m1" "store_step m1 (OpConsume h now) m2"
      "trace store_step m2 after m"
    using assms(1) by (auto simp: trace_append trace_Cons_iff)
  have issued: "trace store_step m0 ops m' \<Longrightarrow> m_tokens m' h = Some t \<Longrightarrow>
      (\<exists>t0. m_tokens m0 h = Some t0 \<and> gt_expiresAt t0 = gt_expiresAt t) \<or>
      (\<exists>c t0 e. OpToken c t0 e \<in> set ops \<and> gt_hash t0 = h \<and> gt_expiresAt t0 = gt_expiresAt t)" for m0 ops m' t
  proof (induction rule: trace.induct)
    case (trace_Cons s op s1 ops s2)
    have "(\<exists>t0. m_tokens s h = Some t0 \<and> gt_expiresAt t0 = gt_expiresAt t1) \<or>
        (\<exists>c t0 e. op = OpToken c t0 e \<and> gt_hash t0 = h \<and> gt_expiresAt t0 = gt_expiresAt t1)"
      if "m_tokens s1 h = Some t1" for t1
      using trace_Cons(1) that by (cases op) (auto simp: step_simps drop_defs split: if_splits)
    with trace_Cons show ?case by (metis list.set_intros)
  qed auto
  from run(2) obtain t where t: "m_tokens m1 h = Some t" "now < gt_expiresAt t" by (auto simp: step_simps)
  from run(2) assms(2) have "spent h m2" by (auto simp: step_simps spent_def)
  then have once: "\<forall>later. OpConsume h later \<notin> set after" by (rule spent_trace [OF run(3)])
  from issued [OF run(1) t(1)] obtain c t0 e where "OpToken c t0 e \<in> set before" "gt_hash t0 = h"
      "gt_expiresAt t0 = gt_expiresAt t"
    by (auto simp: NewMemory_def)
  with t(2) once show ?thesis by metis
qed

theorem enrollment_token_once_witness:
  "(6::time) \<noteq> zero_time \<and>
   (\<exists>c t e. OpToken c t e \<in> {OpToken 5 \<lparr>gt_hash = js ''h'', gt_user = js ''u'', gt_expiresAt = 9, gt_usedAt = zero_time\<rparr>
       \<lparr>ev_id = 0, ev_at = 5, ev_actor = js ''a'', ev_action = js ''x'', ev_target = [], ev_detail = []\<rparr>} \<and>
     gt_hash t = js ''h'' \<and> 6 < gt_expiresAt t)"
proof -
  let ?op = "OpToken 5 \<lparr>gt_hash = js ''h'', gt_user = js ''u'', gt_expiresAt = 9, gt_usedAt = zero_time\<rparr>
    \<lparr>ev_id = 0, ev_at = 5, ev_actor = js ''a'', ev_action = js ''x'', ev_target = [], ev_detail = []\<rparr>"
  have "\<exists>m. trace store_step NewMemory ([?op] @ OpConsume (js ''h'') 6 # []) m"
    by (simp add: trace_Cons_iff step_simps validate_event_def NewMemory_def)
  moreover have now: "(6::time) \<noteq> zero_time" by (simp add: zero_time_def)
  ultimately show ?thesis
    using enrollment_token_once [of "[?op]" "js ''h''" 6 "[]"] by (auto simp del: insert_iff)
qed

section \<open>The registry of machines\<close>

text \<open>
  The three indexes are one list: enrolling appends to it, revoking filters it, the listing is that
  list without the hashes, and a credential finds the machine that holds it.
\<close>

lemma listing_registry: "wf_machines m \<Longrightarrow> ListMachines m = map (\<lambda>mc. mc\<lparr>gm_credentialHash := []\<rparr>) (registry m)"
proof -
  assume wf: "wf_machines m"
  have "nullish (m_machines m i) zero_machine = the (m_machines m i)" if "i \<in> set (m_order m)" for i
    using that wf_machines_facts(2) [OF wf] by auto
  then show ?thesis by (simp add: ListMachines_def registry_def)
qed

lemma lookup_find:
  assumes wf: "wf_machines m"
  shows "MachineByCredential h m =
    (case find (\<lambda>mc. gm_credentialHash mc = h) (registry m) of None \<Rightarrow> Inl CredentialUnknown | Some mc \<Rightarrow> Inr mc)"
proof (cases "find (\<lambda>mc. gm_credentialHash mc = h) (registry m)")
  case None
  then have "\<forall>mc. MachineByCredential h m \<noteq> Inr mc" by (simp add: lookup_registry [OF wf] find_None_ball)
  with None show ?thesis by (cases "m_byHash m h") (auto simp: MachineByCredential_def)
next
  case (Some mc)
  then have "MachineByCredential h m = Inr mc" using find_Some_mem [OF Some] by (simp add: lookup_registry [OF wf])
  with Some show ?thesis by simp
qed

text \<open>C16. The three indexes of the store (by id, by credential hash, in order of enrollment) behave as one list
  of machines with distinct ids and credentials: listing reads it, a credential finds its element,
  enrolling appends and revoking filters.\<close>

theorem registry_refines_list:
  assumes "trace store_step NewMemory ops m"
  shows "distinct (map gm_id (registry m)) \<and> distinct (map gm_credentialHash (registry m)) \<and>
    ListMachines m = map (\<lambda>mc. mc\<lparr>gm_credentialHash := []\<rparr>) (registry m) \<and>
    (\<forall>h. MachineByCredential h m =
       (case find (\<lambda>mc. gm_credentialHash mc = h) (registry m) of None \<Rightarrow> Inl CredentialUnknown | Some mc \<Rightarrow> Inr mc)) \<and>
    (\<forall>mc m'. PutMachine mc m = Inr m' \<longrightarrow> registry m' = registry m @ [mc]) \<and>
    (\<forall>c i e m'. DeleteMachine c i e m = Inr m' \<longrightarrow> registry m' = filter (\<lambda>mc. gm_id mc \<noteq> i) (registry m))"
proof -
  have wf: "wf_machines m"
    using store.reachable_inv [OF refl assms] by (simp add: wf_memory_def)
  show ?thesis
    using machines.ids_distinct [OF wf] machines.hashes_distinct [OF wf] listing_registry [OF wf] lookup_find [OF wf]
      machines.put_machines [OF wf] machines.drop_machines [OF wf] by blast
qed

definition one_machine :: go_machine where
  "one_machine = zero_machine\<lparr>gm_id := js ''m1'', gm_user := js ''u'', gm_credentialHash := js ''h''\<rparr>"

theorem registry_refines_list_witness:
  "\<exists>m. trace store_step NewMemory [OpMachine one_machine] m \<and>
     MachineByCredential (js ''h'') m = Inr one_machine"
proof -
  obtain m where run: "trace store_step NewMemory [OpMachine one_machine] m"
    by (simp add: trace_Cons_iff step_simps NewMemory_def one_machine_def)
  have "m_order m = [js ''m1'']" "m_machines m (js ''m1'') = Some one_machine"
    using run by (auto simp: trace_Cons_iff step_simps NewMemory_def one_machine_def)
  then have "registry m = [one_machine]" by (simp add: registry_def)
  with registry_refines_list [OF run] have "MachineByCredential (js ''h'') m = Inr one_machine"
    by (simp add: one_machine_def)
  with run show ?thesis by blast
qed

lemma byHash_stays:
  "store_step m op m' \<Longrightarrow> m_byHash m h = None \<Longrightarrow> \<nexists>mc. op = OpMachine mc \<and> gm_credentialHash mc = h \<Longrightarrow>
     m_byHash m' h = None"
  by (cases op) (auto simp: step_simps drop_defs)

lemma byHash_trace:
  "trace store_step m ops m' \<Longrightarrow> m_byHash m h = None \<Longrightarrow>
     \<forall>mc. OpMachine mc \<in> set ops \<longrightarrow> gm_credentialHash mc \<noteq> h \<Longrightarrow> m_byHash m' h = None"
  by (induction rule: trace.induct) (use byHash_stays in \<open>fastforce+\<close>)

text \<open>A revoked machine's credential opens nothing from then on; every other machine's still does.\<close>

theorem revoked_stays_out:
  assumes "trace store_step NewMemory ops m" "m_machines m i = Some mc"
    and "store_step m (OpRevoke c i e) m1" "trace store_step m1 later m2"
    and "\<forall>mc'. OpMachine mc' \<in> set later \<longrightarrow> gm_credentialHash mc' \<noteq> gm_credentialHash mc"
  shows "MachineByCredential (gm_credentialHash mc) m2 = Inl CredentialUnknown \<and>
    (\<forall>other. MachineByCredential h m = Inr other \<and> gm_id other \<noteq> i \<longrightarrow> MachineByCredential h m1 = Inr other)"
proof -
  have wf: "wf_machines m"
    using store.reachable_inv [OF refl assms(1)] by (simp add: wf_memory_def)
  have del: "DeleteMachine c i e m = Inr m1" using assms(3) by (simp add: store_step_def)
  have mc: "gm_id mc = i" "mc \<in> set (registry m)"
    using wf_machines_facts(3) [OF wf assms(2)] assms(2) by (simp_all add: in_registry [OF wf])
  have "m_byHash m1 (gm_credentialHash mc) = None"
    using machines.revoked_is_unknown [OF wf del mc(2) mc(1)]
    by (cases "m_byHash m1 (gm_credentialHash mc)") (auto simp: MachineByCredential_def)
  from byHash_trace [OF assms(4) this assms(5)] have "MachineByCredential (gm_credentialHash mc) m2 = Inl CredentialUnknown"
    by (simp add: MachineByCredential_def)
  moreover have "MachineByCredential h m1 = Inr other" if "MachineByCredential h m = Inr other" "gm_id other \<noteq> i" for other
    using that machines.others_stay [OF wf del, of other] by (simp add: lookup_registry [OF wf])
  ultimately show ?thesis by blast
qed

theorem revoked_stays_out_witness:
  "\<exists>m1. trace store_step NewMemory ([OpMachine one_machine] @
       [OpRevoke 5 (js ''m1'') \<lparr>ev_id = 0, ev_at = 5, ev_actor = js ''a'', ev_action = js ''x'', ev_target = js ''m1'', ev_detail = []\<rparr>]) m1 \<and>
     MachineByCredential (js ''h'') m1 = Inl CredentialUnknown"
proof -
  let ?e = "\<lparr>ev_id = 0, ev_at = 5, ev_actor = js ''a'', ev_action = js ''x'', ev_target = js ''m1'', ev_detail = []\<rparr>"
  obtain m where m: "trace store_step NewMemory [OpMachine one_machine] m"
    by (simp add: trace_Cons_iff step_simps NewMemory_def one_machine_def)
  then have has: "m_machines m (js ''m1'') = Some one_machine"
    by (auto simp: trace_Cons_iff step_simps NewMemory_def one_machine_def)
  then obtain m1 where m1: "store_step m (OpRevoke 5 (js ''m1'') ?e) m1"
    by (simp add: step_simps validate_event_def)
  from revoked_stays_out [OF m has m1, of "[]" m1 "js ''h''"]
  have "MachineByCredential (js ''h'') m1 = Inl CredentialUnknown" by (simp add: one_machine_def)
  with m m1 show ?thesis by (metis trace_snoc)
qed

end
