(* ===== verification/ControlAuth.thy ===== *)
theory ControlAuth
  imports StoreRuns
begin

text \<open>
  Who may do what on the control plane: \<^verbatim>\<open>internal/console/session\<close> (console sessions),
  \<^verbatim>\<open>internal/console/authz\<close> (who is a console admin) and the guards of \<^verbatim>\<open>internal/handler/auth.go\<close> and
  \<^verbatim>\<open>console.go\<close>. A guard gets the rest of the request as a function of the actor and the store, and
  answers itself when it refuses. \<open>sv_hash\<close> is SHA-256 in hexadecimal, the hash of both
  \<^verbatim>\<open>credential.Hash\<close> and \<^verbatim>\<open>session.Hash\<close>; nothing here depends on what it is.
\<close>

section \<open>Configuration, requests, answers\<close>

record console_config =
  cc_origin :: jstr
  cc_group :: jstr
  cc_absolute :: time
  cc_idle :: time

record server =
  sv_hash :: "jstr \<Rightarrow> jstr"
  sv_quote :: "jstr \<Rightarrow> jstr"
  sv_time :: "time \<Rightarrow> jstr"
  sv_rfc3339 :: "time \<Rightarrow> jstr"
  sv_adminTokens :: "jstr go_map"
  sv_scimToken :: jstr
  sv_keyId :: "jstr option"
  sv_console :: "console_config option"

text \<open>A request as a guard sees it: an absent header is empty, a cookie may be absent.\<close>

record go_request =
  rq_method :: jstr
  rq_authorization :: jstr
  rq_origin :: jstr
  rq_cookie :: "jstr option"
  rq_attempt :: "jstr option"

datatype go_body = Empty_body | Json_body json | Error_page jstr

text \<open>The cookies an answer sets; \<^term>\<open>None\<close> clears one.\<close>

record go_response =
  rs_status :: nat
  rs_body :: go_body
  rs_cookies :: "(jstr \<times> jstr option) list"
  rs_location :: "jstr option"

definition sessionCookie :: jstr where
  "sessionCookie = js ''aw_session''"

definition loginCookie :: jstr where
  "loginCookie = js ''aw_login''"

definition writeJSON :: "nat \<Rightarrow> json \<Rightarrow> go_response" where
  "writeJSON status v = \<lparr>rs_status = status, rs_body = Json_body v, rs_cookies = [], rs_location = None\<rparr>"

definition noContent :: go_response where
  "noContent = \<lparr>rs_status = 204, rs_body = Empty_body, rs_cookies = [], rs_location = None\<rparr>"

definition clearCookie :: "jstr \<Rightarrow> go_response \<Rightarrow> go_response" where
  "clearCookie name res = res\<lparr>rs_cookies := (name, None) # rs_cookies res\<rparr>"

definition writeError :: "nat \<Rightarrow> jstr \<Rightarrow> go_response" where
  "writeError status message = writeJSON status (JObj [(js ''error'', JStr message)])"

lemma status_simps [simp]:
  "rs_status (writeJSON n v) = n" "rs_status (writeError n e) = n" "rs_status (clearCookie k res) = rs_status res"
  by (simp_all add: writeJSON_def writeError_def clearCookie_def)

text \<open>What the store's errors say; a name in one is quoted as \<open>%q\<close> quotes it (\<open>sv_quote\<close>).\<close>

fun error_text :: "(jstr \<Rightarrow> jstr) \<Rightarrow> store_error \<Rightarrow> jstr" where
  "error_text q NoVersion = js ''store: revision has no version: bad input''"
| "error_text q (VersionExists v) = js ''store: revision '' @ q v @ js '' already exists: conflict''"
| "error_text q NoPolicy = js ''store: no policy has been applied: not found''"
| "error_text q TokenIncomplete = js ''store: enrollment token needs a hash and a user: bad input''"
| "error_text q TokenExists = js ''store: enrollment token already exists: conflict''"
| "error_text q TokenUnknown = js ''store: unknown enrollment token: not found''"
| "error_text q TokenUsed = js ''store: enrollment token already used: conflict''"
| "error_text q TokenExpired = js ''store: enrollment token expired: conflict''"
| "error_text q MachineIncomplete = js ''store: machine needs an id and a credential hash: bad input''"
| "error_text q (MachineExists i) = js ''store: machine '' @ q i @ js '' already exists: conflict''"
| "error_text q CredentialIssued = js ''store: credential already issued: conflict''"
| "error_text q CredentialUnknown = js ''store: no machine holds this credential: not found''"
| "error_text q (MachineUnknown i) = js ''store: machine '' @ q i @ js '' not found: not found''"
| "error_text q EmptyUser = js ''store: group snapshot has a member with an empty user: bad input''"
| "error_text q (EmptyGroup u) = js ''store: group snapshot: user '' @ q u @ js '' has an empty group name: bad input''"
| "error_text q NoSnapshot = js ''store: no group snapshot has been posted: not found''"
| "error_text q SessionIncomplete = js ''store: session needs a token hash and a user: bad input''"
| "error_text q SessionExists = js ''store: session exists: conflict''"
| "error_text q SessionUnknown = js ''store: session not found: not found''"
| "error_text q NoActor = js ''store: audit event has no actor: bad input''"
| "error_text q NoAction = js ''store: audit event has no action: bad input''"

text \<open>\<open>Handler.fail\<close> on the errors a store returns.\<close>

definition fail :: "server \<Rightarrow> store_error \<Rightarrow> go_response" where
  "fail sv e =
     (case wraps e of
        ErrNotFound \<Rightarrow> writeError 404 (js ''not found'')
      | ErrConflict \<Rightarrow> writeError 409 (error_text (sv_quote sv) e)
      | ErrBadInput \<Rightarrow> writeError 422 (error_text (sv_quote sv) e))"

section \<open>Sessions\<close>

definition minute :: time where
  "minute = 60000000000"

definition hour :: time where
  "hour = 3600000000000"

definition ExpiresAt :: "console_config \<Rightarrow> session \<Rightarrow> time" where
  "ExpiresAt c s =
     (let expiry = se_createdAt s + cc_absolute c; idle = se_lastSeenAt s + cc_idle c in
      if idle < expiry then idle else expiry)"

datatype session_error = ErrNoSession | ErrExpired

definition Lookup :: "server \<Rightarrow> console_config \<Rightarrow> time \<Rightarrow> jstr \<Rightarrow> memory \<Rightarrow> (session_error + session) \<times> memory" where
  "Lookup sv c now token m =
     (let h = sv_hash sv token in
      (case SessionByHash h m of
         Inl e \<Rightarrow> (Inl ErrNoSession, m)
       | Inr s \<Rightarrow>
           (if now > ExpiresAt c s then (Inl ErrExpired, DeleteSession h m)
            else if now - se_lastSeenAt s \<ge> minute
            then (Inr (s\<lparr>se_lastSeenAt := now\<rparr>), (case TouchSession h now m of Inl e \<Rightarrow> m | Inr m' \<Rightarrow> m'))
            else (Inr s, m))))"

text \<open>\<open>token\<close> is what \<open>rand\<close> yields, encoded.\<close>

definition Create :: "server \<Rightarrow> time \<Rightarrow> jstr \<Rightarrow> jstr \<Rightarrow> memory \<Rightarrow> store_error + memory" where
  "Create sv now token user m =
     CreateSession \<lparr>se_tokenHash = sv_hash sv token, se_user = user, se_createdAt = now, se_lastSeenAt = now\<rparr> m"

definition Sweep :: "console_config \<Rightarrow> time \<Rightarrow> memory \<Rightarrow> memory" where
  "Sweep c now m = DeleteExpiredSessions (now - cc_absolute c) (now - cc_idle c) m"

section \<open>Admins\<close>

datatype admin_answer = Admin_is bool | ErrNoGroupData

definition Admin :: "console_config \<Rightarrow> jstr \<Rightarrow> memory \<Rightarrow> admin_answer" where
  "Admin c user m =
     (let snapshot = CurrentGroupSnapshot m; (_, _, groups) = SCIMCounts m;
          synced = (case snapshot of Inl e \<Rightarrow> [] | Inr s \<Rightarrow> groups_at (sn_members s) user) in
      if (\<exists>e. snapshot = Inl e) \<and> groups = 0 then ErrNoGroupData
      else if cc_group c \<in> set synced then Admin_is True
      else Admin_is (cc_group c \<in> set (SCIMGroupsFor user m)))"

section \<open>Guards\<close>

text \<open>The white space \<open>strings.TrimSpace\<close> removes.\<close>

definition go_space :: "nat \<Rightarrow> bool" where
  "go_space c \<longleftrightarrow> (9 \<le> c \<and> c \<le> 13) \<or> c = 32 \<or> c = 133 \<or> c = 160 \<or> c = 5760 \<or> (8192 \<le> c \<and> c \<le> 8202)
     \<or> c = 8232 \<or> c = 8233 \<or> c = 8239 \<or> c = 8287 \<or> c = 12288"

definition TrimSpace :: "jstr \<Rightarrow> jstr" where
  "TrimSpace s = rev (dropWhile go_space (rev (dropWhile go_space s)))"

definition ascii_lower :: "nat \<Rightarrow> nat" where
  "ascii_lower c = (if 65 \<le> c \<and> c \<le> 90 then c + 32 else c)"

definition bearer :: "jstr \<Rightarrow> jstr" where
  "bearer header =
     (if map ascii_lower (take 7 header) \<noteq> js ''bearer '' then [] else TrimSpace (drop 7 header))"

type_synonym handler = "jstr \<Rightarrow> memory \<Rightarrow> go_response \<times> memory"

definition matched_name :: "jstr \<Rightarrow> jstr go_map \<Rightarrow> jstr" where
  "matched_name presented admins = foldl (\<lambda>matched (name, h). if presented = h then name else matched) [] admins"

definition tokenAdmin :: "server \<Rightarrow> handler \<Rightarrow> go_request \<Rightarrow> memory \<Rightarrow> go_response \<times> memory" where
  "tokenAdmin sv next r m =
     (if sv_adminTokens sv = [] then (writeError 503 (js ''admin token not configured''), m)
      else
        (let token = bearer (rq_authorization r) in
         if token = [] then (writeError 401 (js ''unauthorized''), m)
         else
           (let matched = matched_name (sv_hash sv token) (sv_adminTokens sv) in
            if matched = [] then (writeError 401 (js ''unauthorized''), m)
            else next (js ''token:'' @ matched) m)))"

text \<open>The session of a console request, or the answer that refuses it.\<close>

definition consoleUser :: "server \<Rightarrow> console_config \<Rightarrow> time \<Rightarrow> go_request \<Rightarrow> memory \<Rightarrow> (go_response + session) \<times> memory" where
  "consoleUser sv c now r m =
     (let cookie = nullish (rq_cookie r) [] in
      if cookie = []
      then (Inl (writeError 401 (js ''sign in to the console or present the admin token'')), m)
      else
        (case Lookup sv c now cookie m of
           (Inl e, m1) \<Rightarrow> (Inl (clearCookie sessionCookie (writeError 401 (js ''sign in''))), m1)
         | (Inr s, m1) \<Rightarrow>
             (case Admin c (se_user s) m1 of
                ErrNoGroupData \<Rightarrow>
                  (Inl (writeError 503 (js ''console needs group data (SCIM or awd groups apply)'')), m1)
              | Admin_is admin \<Rightarrow>
                  (if admin then (Inr s, m1)
                   else (Inl (clearCookie sessionCookie (writeError 403 (js ''not a console admin''))),
                         DeleteSessionsFor (se_user s) m1)))))"

definition sameOrigin :: "console_config \<Rightarrow> go_request \<Rightarrow> bool" where
  "sameOrigin c r \<longleftrightarrow> rq_method r = js ''GET'' \<or> rq_method r = js ''HEAD'' \<or> rq_origin r = cc_origin c"

definition cross_origin :: go_response where
  "cross_origin = writeError 403 (js ''cross-origin request refused'')"

definition consoleAdmin :: "server \<Rightarrow> console_config \<Rightarrow> time \<Rightarrow> handler \<Rightarrow> go_request \<Rightarrow> memory \<Rightarrow> go_response \<times> memory" where
  "consoleAdmin sv c now next r m =
     (if \<not> sameOrigin c r then (cross_origin, m)
      else (case consoleUser sv c now r m of (Inl refusal, m1) \<Rightarrow> (refusal, m1) | (Inr s, m1) \<Rightarrow> next (se_user s) m1))"

definition requireAdmin :: "server \<Rightarrow> time \<Rightarrow> handler \<Rightarrow> go_request \<Rightarrow> memory \<Rightarrow> go_response \<times> memory" where
  "requireAdmin sv now next r m =
     (case sv_console sv of
        None \<Rightarrow> tokenAdmin sv next r m
      | Some c \<Rightarrow> (if rq_authorization r \<noteq> [] then tokenAdmin sv next r m else consoleAdmin sv c now next r m))"

definition requireMachine :: "server \<Rightarrow> (go_machine \<Rightarrow> memory \<Rightarrow> go_response \<times> memory) \<Rightarrow> go_request \<Rightarrow> memory \<Rightarrow>
    go_response \<times> memory" where
  "requireMachine sv next r m =
     (let presented = bearer (rq_authorization r) in
      if presented = [] then (writeError 401 (js ''unauthorized''), m)
      else
        (case MachineByCredential (sv_hash sv presented) m of
           Inl e \<Rightarrow> (if wraps e = ErrNotFound then (writeError 401 (js ''unauthorized''), m) else (fail sv e, m))
         | Inr machine \<Rightarrow> next machine m))"

section \<open>The console's own endpoints\<close>

definition consoleMe :: "server \<Rightarrow> console_config \<Rightarrow> time \<Rightarrow> go_request \<Rightarrow> memory \<Rightarrow> go_response \<times> memory" where
  "consoleMe sv c now r m =
     (case consoleUser sv c now r m of
        (Inl refusal, m1) \<Rightarrow> (refusal, m1)
      | (Inr s, m1) \<Rightarrow>
          (writeJSON 200 (JObj
             ([(js ''expiresAt'', JStr (sv_rfc3339 sv (ExpiresAt c s)))] @
              (case sv_keyId sv of None \<Rightarrow> [] | Some k \<Rightarrow> [(js ''signingKeyId'', JStr k)]) @
              [(js ''user'', JStr (se_user s))])), m1))"

definition go_event_of :: "time \<Rightarrow> jstr \<Rightarrow> string \<Rightarrow> jstr \<Rightarrow> json go_map \<Rightarrow> go_event" where
  "go_event_of now actor action target detail =
     \<lparr>ev_id = 0, ev_at = now, ev_actor = actor, ev_action = js action, ev_target = target, ev_detail = detail\<rparr>"

text \<open>A failing audit write is only logged.\<close>

definition consoleLogout :: "server \<Rightarrow> console_config \<Rightarrow> time \<Rightarrow> go_request \<Rightarrow> memory \<Rightarrow> go_response \<times> memory" where
  "consoleLogout sv c now r m =
     (if \<not> sameOrigin c r then (cross_origin, m)
      else
        (let cookie = nullish (rq_cookie r) [];
             m2 = (if cookie = [] then m
               else (case Lookup sv c now cookie m of (found, m1) \<Rightarrow>
                 DeleteSession (sv_hash sv cookie)
                   (case found of
                      Inl e \<Rightarrow> m1
                    | Inr s \<Rightarrow> (case RecordAudit now (go_event_of now (se_user s) ''console.logout'' [] []) m1 of
                        Inl e \<Rightarrow> m1 | Inr m' \<Rightarrow> m')))) in
         (clearCookie sessionCookie noContent, m2)))"

section \<open>Signing in\<close>

text \<open>
  \<open>sso.Client.Finish\<close> talks to the identity provider through two third-party packages; what it
  returns is a parameter. An error's text goes into the log.
\<close>

datatype sso_error =
    ErrUnavailable | ErrExchange | ErrInvalidToken jstr | ErrUnverified jstr | ErrNoUser jstr

record attempt =
  at_state :: jstr
  at_nonce :: jstr
  at_verifier :: jstr

definition DecodeAttempt :: "jstr \<Rightarrow> attempt option" where
  "DecodeAttempt s =
     (case split_char 46 s of
        [a, b, c] \<Rightarrow> (if a = [] \<or> b = [] \<or> c = [] then None else Some \<lparr>at_state = a, at_nonce = b, at_verifier = c\<rparr>)
      | _ \<Rightarrow> None)"

definition loginError :: "nat \<Rightarrow> string \<Rightarrow> go_response" where
  "loginError status message =
     \<lparr>rs_status = status, rs_body = Error_page (js message), rs_cookies = [], rs_location = None\<rparr>"

definition redirect_home :: go_response where
  "redirect_home = \<lparr>rs_status = 302, rs_body = Empty_body, rs_cookies = [], rs_location = Some (js ''/console/'')\<rparr>"

fun sanitize_loop :: "nat \<Rightarrow> jstr \<Rightarrow> jstr" where
  "sanitize_loop n [] = []"
| "sanitize_loop 0 (c # cs) = []"
| "sanitize_loop (Suc n) (c # cs) =
     (if (32 \<le> c \<and> c \<le> 33) \<or> (35 \<le> c \<and> c \<le> 91) \<or> (93 \<le> c \<and> c \<le> 126)
      then c # sanitize_loop n cs else sanitize_loop (Suc n) cs)"

text \<open>A byte outside the range is dropped, so dropping code units instead gives the same text.\<close>

definition sanitizeIdPError :: "jstr \<Rightarrow> jstr" where
  "sanitizeIdPError raw = sanitize_loop 64 raw"

definition denied :: "time \<Rightarrow> jstr \<Rightarrow> jstr \<Rightarrow> memory \<Rightarrow> memory" where
  "denied now actor reason m =
     (case RecordAudit now (go_event_of now actor ''console.login_denied'' [] [(js ''reason'', JStr reason)]) m of
        Inl e \<Rightarrow> m | Inr m' \<Rightarrow> m')"

definition callback_query :: "(jstr \<times> jstr) list \<Rightarrow> string \<Rightarrow> jstr" where
  "callback_query q k = nullish (map_of q (js k)) []"

text \<open>What remains once the identity provider named the user: \<open>token\<close> is the new session's.\<close>

definition sign_in :: "server \<Rightarrow> console_config \<Rightarrow> time \<Rightarrow> jstr \<Rightarrow> jstr \<Rightarrow> memory \<Rightarrow> go_response \<times> memory" where
  "sign_in sv c now token user m =
     (case Admin c user m of
        ErrNoGroupData \<Rightarrow> (loginError 503 ''The console needs group data (SCIM or awd groups apply).'', m)
      | Admin_is admin \<Rightarrow>
          (if \<not> admin then
             (loginError 403 ''You are not a console admin.'', denied now user (js ''not in '' @ cc_group c) m)
           else
             (case Create sv now token user m of
                Inl e \<Rightarrow> (loginError 503 ''Sign-in is unavailable. Try again shortly.'', m)
              | Inr m1 \<Rightarrow>
                  (case RecordAudit now (go_event_of now user ''console.login'' [] []) m1 of
                     Inl e \<Rightarrow> (loginError 500 ''Sign-in could not be recorded.'', DeleteSession (sv_hash sv token) m1)
                   | Inr m2 \<Rightarrow> (redirect_home\<lparr>rs_cookies := [(sessionCookie, Some token)]\<rparr>, m2)))))"

text \<open>The message has an apostrophe, code unit 39.\<close>

definition unverifiable :: string where
  "unverifiable = ''The identity provider'' @ [CHR 0x27] @ ''s answer could not be verified.''"

definition finish_login :: "server \<Rightarrow> console_config \<Rightarrow> time \<Rightarrow> jstr \<Rightarrow> (sso_error + jstr) \<Rightarrow> memory \<Rightarrow> go_response \<times> memory" where
  "finish_login sv c now token finish m =
     (case finish of
        Inl ErrUnavailable \<Rightarrow> (loginError 503 ''The identity provider is unavailable. Try again shortly.'', m)
      | Inl ErrExchange \<Rightarrow> (loginError 502 ''The identity provider did not complete the sign-in.'', m)
      | Inl (ErrInvalidToken e) \<Rightarrow>
          (loginError 401 unverifiable, denied now (js ''anonymous'') e m)
      | Inl (ErrUnverified e) \<Rightarrow>
          (loginError 403 ''Your account has no verified identity awd can use.'', denied now (js ''anonymous'') e m)
      | Inl (ErrNoUser e) \<Rightarrow>
          (loginError 403 ''Your account has no verified identity awd can use.'', denied now (js ''anonymous'') e m)
      | Inr user \<Rightarrow> sign_in sv c now token user m)"

text \<open>The back button onto a used link: a user who is signed in goes home.\<close>

definition stale_link :: "server \<Rightarrow> console_config \<Rightarrow> time \<Rightarrow> go_request \<Rightarrow> memory \<Rightarrow> go_response \<times> memory" where
  "stale_link sv c now r m =
     (let stale = loginError 400 ''This sign-in link is stale. Start again from the console.'' in
      (case rq_cookie r of
         None \<Rightarrow> (stale, m)
       | Some cookie \<Rightarrow>
           (case Lookup sv c now cookie m of (Inl e, m1) \<Rightarrow> (stale, m1) | (Inr s, m1) \<Rightarrow> (redirect_home, m1))))"

definition answer_callback :: "server \<Rightarrow> console_config \<Rightarrow> time \<Rightarrow> jstr \<Rightarrow> (attempt \<Rightarrow> jstr \<Rightarrow> sso_error + jstr) \<Rightarrow>
    (jstr \<times> jstr) list \<Rightarrow> go_request \<Rightarrow> memory \<Rightarrow> go_response \<times> memory" where
  "answer_callback sv c now token finish q r m =
     (case Option.bind (rq_attempt r) DecodeAttempt of
        Some a \<Rightarrow>
          (if callback_query q ''state'' \<noteq> at_state a then stale_link sv c now r m
           else if callback_query q ''error'' \<noteq> [] then
             (loginError 401 ''The identity provider refused the sign-in.'',
              denied now (js ''anonymous'') (js ''idp: '' @ sanitizeIdPError (callback_query q ''error'')) m)
           else finish_login sv c now token (finish a (callback_query q ''code'')) m)
      | None \<Rightarrow> stale_link sv c now r m)"

text \<open>The cookie of the attempt is cleared first, whatever the answer.\<close>

definition consoleCallback :: "server \<Rightarrow> console_config \<Rightarrow> time \<Rightarrow> jstr \<Rightarrow> (attempt \<Rightarrow> jstr \<Rightarrow> sso_error + jstr) \<Rightarrow>
    (jstr \<times> jstr) list \<Rightarrow> go_request \<Rightarrow> memory \<Rightarrow> go_response \<times> memory" where
  "consoleCallback sv c now token finish q r m =
     apfst (clearCookie loginCookie) (answer_callback sv c now token finish q r m)"

end
