(* ===== verification/ControlAdmission.thy ===== *)
theory ControlAdmission
  imports ControlAuth
begin

text \<open>
  What the guards of \<open>ControlAuth\<close> guarantee: which requests reach an administrative handler, how long a
  console session answers, what becomes of a removed admin, and who is given a session.
\<close>

section \<open>Lemmas on the guards\<close>

text \<open>What a refused request may have changed: sessions were dropped, or one was seen again.\<close>

definition sessions_only :: "memory \<Rightarrow> memory \<Rightarrow> bool" where
  "sessions_only m m' \<longleftrightarrow> (\<exists>ss. m' = m\<lparr>m_sessions := ss\<rparr> \<and>
     (\<forall>h s'. ss h = Some s' \<longrightarrow> (\<exists>s at. m_sessions m h = Some s \<and> s' = s\<lparr>se_lastSeenAt := at\<rparr>)))"

lemma sessions_onlyI:
  "m' = m\<lparr>m_sessions := ss\<rparr> \<Longrightarrow>
     (\<And>h s'. ss h = Some s' \<Longrightarrow> \<exists>s at. m_sessions m h = Some s \<and> s' = s\<lparr>se_lastSeenAt := at\<rparr>) \<Longrightarrow> sessions_only m m'"
  unfolding sessions_only_def by blast

lemma seen_same: "\<exists>at. s = s\<lparr>se_lastSeenAt := at\<rparr>"
  by (rule exI [of _ "se_lastSeenAt s"]) simp

lemma sessions_only_refl [simp]: "sessions_only m m"
  using seen_same by (intro sessions_onlyI [where ss = "m_sessions m"]) auto

lemma sessions_only_trans:
  assumes "sessions_only a b" "sessions_only b c"
  shows "sessions_only a c"
proof -
  obtain ss where b: "b = a\<lparr>m_sessions := ss\<rparr>"
      "\<And>h s'. ss h = Some s' \<Longrightarrow> \<exists>s at. m_sessions a h = Some s \<and> s' = s\<lparr>se_lastSeenAt := at\<rparr>"
    using assms(1) unfolding sessions_only_def by blast
  obtain tt where c: "c = b\<lparr>m_sessions := tt\<rparr>"
      "\<And>h s'. tt h = Some s' \<Longrightarrow> \<exists>s at. m_sessions b h = Some s \<and> s' = s\<lparr>se_lastSeenAt := at\<rparr>"
    using assms(2) unfolding sessions_only_def by blast
  show ?thesis
  proof (rule sessions_onlyI)
    show "c = a\<lparr>m_sessions := tt\<rparr>" by (simp add: b(1) c(1))
    fix h s'
    assume "tt h = Some s'"
    then obtain s at where "ss h = Some s" "s' = s\<lparr>se_lastSeenAt := at\<rparr>" using c(2) b(1) by fastforce
    with b(2) [of h s] show "\<exists>s at. m_sessions a h = Some s \<and> s' = s\<lparr>se_lastSeenAt := at\<rparr>" by force
  qed
qed

lemma sessions_only_drop: "sessions_only m (DeleteSession h m)" "sessions_only m (DeleteSessionsFor u m)"
  by (rule sessions_onlyI, simp add: drop_defs, use seen_same in \<open>force split: option.splits if_splits\<close>)+

lemma sessions_only_touch:
  assumes "TouchSession h at m = Inr m'"
  shows "sessions_only m m'"
proof -
  from assms obtain u where u: "m_sessions m h = Some u" "m' = m\<lparr>m_sessions := (m_sessions m)(h \<mapsto> u\<lparr>se_lastSeenAt := at\<rparr>)\<rparr>"
    by (auto simp: TouchSession_def split: option.splits)
  show ?thesis by (rule sessions_onlyI [OF u(2)]) (use u(1) seen_same in \<open>force split: if_splits\<close>)
qed

definition live :: "console_config \<Rightarrow> time \<Rightarrow> session \<Rightarrow> bool" where
  "live c now s \<longleftrightarrow> now \<le> se_createdAt s + cc_absolute c \<and> now \<le> se_lastSeenAt s + cc_idle c"

lemma live_iff: "live c now s \<longleftrightarrow> now \<le> ExpiresAt c s"
  by (auto simp: live_def ExpiresAt_def Let_def)

lemma Lookup_store: "Lookup sv c now token m = (r, m') \<Longrightarrow> sessions_only m m'"
  by (auto simp: Lookup_def Let_def sessions_only_drop split: sum.splits if_splits intro: sessions_only_touch)

lemma Lookup_found:
  assumes "Lookup sv c now token m = (Inr s, m')"
  shows "\<exists>s0. m_sessions m (sv_hash sv token) = Some s0 \<and> live c now s0 \<and> se_user s = se_user s0 \<and>
    se_createdAt s = se_createdAt s0"
  using assms
  by (auto simp: Lookup_def Let_def SessionByHash_def live_iff split: sum.splits if_splits option.splits)

lemma Admin_store: "sessions_only m m' \<Longrightarrow> Admin c u m' = Admin c u m"
  unfolding sessions_only_def
  by (elim exE conjE) (simp add: Admin_def CurrentGroupSnapshot_def SCIMCounts_def SCIMGroupsFor_def)

section \<open>Who is admitted\<close>

text \<open>A console admin is in the configured group, in the snapshot or as an active provisioned user.\<close>

definition console_admin :: "console_config \<Rightarrow> jstr \<Rightarrow> memory \<Rightarrow> bool" where
  "console_admin c user m \<longleftrightarrow>
     (\<exists>s groups. CurrentGroupSnapshot m = Inr s \<and> map_of (sn_members s) user = Some (Some groups) \<and> cc_group c \<in> set groups) \<or>
     ((m_snapshots m \<noteq> [] \<or> sd_groups (m_scim m) \<noteq> []) \<and>
      (\<exists>mid u gid members. (mid, u) \<in> set (sd_users (m_scim m)) \<and> su_userName u = user \<and> su_active u \<and>
         (gid, members) \<in> set (sd_members (m_scim m)) \<and> mid \<in> set members \<and>
         nullish (map_of (sd_groups (m_scim m)) gid) [] = cc_group c))"

lemma SCIMGroupsFor_iff:
  "g \<in> set (SCIMGroupsFor user m) \<longleftrightarrow>
     (\<exists>mid u gid members. (mid, u) \<in> set (sd_users (m_scim m)) \<and> su_userName u = user \<and> su_active u \<and>
        (gid, members) \<in> set (sd_members (m_scim m)) \<and> mid \<in> set members \<and>
        nullish (map_of (sd_groups (m_scim m)) gid) [] = g)" (is "_ \<longleftrightarrow> ?R")
proof
  assume "g \<in> set (SCIMGroupsFor user m)"
  then show ?R by (auto simp: SCIMGroupsFor_def split: if_splits)
next
  assume ?R
  then obtain mid u gid members where w: "(mid, u) \<in> set (sd_users (m_scim m))" "su_userName u = user" "su_active u"
      "(gid, members) \<in> set (sd_members (m_scim m))" "mid \<in> set members" "nullish (map_of (sd_groups (m_scim m)) gid) [] = g"
    by blast
  show "g \<in> set (SCIMGroupsFor user m)"
    unfolding SCIMGroupsFor_def set_sort set_concat set_map
    by (rule UN_I [OF imageI [OF w(1)]]) (use w in \<open>auto intro!: bexI [OF _ w(4)]\<close>)
qed

lemma Admin_iff:
  assumes "cc_group c \<noteq> []"
  shows "Admin c user m = Admin_is True \<longleftrightarrow> console_admin c user m"
proof -
  have nil: "cc_group c \<in> set (groups_at ms user) \<longleftrightarrow> (\<exists>groups. map_of ms user = Some (Some groups) \<and> cc_group c \<in> set groups)"
    for ms by (cases "map_of ms user"; cases "the (map_of ms user)") (auto simp: groups_at_def)
  show ?thesis
    unfolding Admin_def console_admin_def SCIMGroupsFor_iff [symmetric]
    by (auto simp: Let_def SCIMCounts_def CurrentGroupSnapshot_def nil split: sum.splits)
qed

definition credentials :: "server \<Rightarrow> time \<Rightarrow> go_request \<Rightarrow> memory \<Rightarrow> jstr \<Rightarrow> bool" where
  "credentials sv now r m actor \<longleftrightarrow>
     (\<exists>name. bearer (rq_authorization r) \<noteq> [] \<and> actor = js ''token:'' @ name \<and>
        (name, sv_hash sv (bearer (rq_authorization r))) \<in> set (sv_adminTokens sv)) \<or>
     (\<exists>c cookie s. sv_console sv = Some c \<and> rq_authorization r = [] \<and> sameOrigin c r \<and> rq_cookie r = Some cookie \<and>
        cookie \<noteq> [] \<and> m_sessions m (sv_hash sv cookie) = Some s \<and> live c now s \<and> actor = se_user s \<and>
        console_admin c actor m)"

definition well_configured :: "server \<Rightarrow> bool" where
  "well_configured sv \<longleftrightarrow> [] \<notin> fst ` set (sv_adminTokens sv) \<and>
     (case sv_console sv of None \<Rightarrow> True | Some c \<Rightarrow> cc_group c \<noteq> [])"

lemma matched_name_eq:
  "matched_name p admins = [] \<or> (matched_name p admins, p) \<in> set admins"
  "[] \<notin> fst ` set admins \<Longrightarrow> matched_name p admins = [] \<longleftrightarrow> p \<notin> snd ` set admins"
  unfolding matched_name_def by (induction admins rule: rev_induct) (auto split: if_splits)

lemma consoleUser_cases:
  assumes "cc_group c \<noteq> []"
  shows "(\<exists>s m1. consoleUser sv c now r m = (Inr s, m1) \<and> sessions_only m m1 \<and> (\<exists>cookie s0. rq_cookie r = Some cookie \<and>
       cookie \<noteq> [] \<and> m_sessions m (sv_hash sv cookie) = Some s0 \<and> live c now s0 \<and> se_user s = se_user s0 \<and>
       console_admin c (se_user s0) m)) \<or>
    (\<exists>res m1. consoleUser sv c now r m = (Inl res, m1) \<and> sessions_only m m1 \<and> rs_status res \<in> {401, 403, 503} \<and>
       (\<nexists>cookie s0. rq_cookie r = Some cookie \<and> cookie \<noteq> [] \<and> m_sessions m (sv_hash sv cookie) = Some s0 \<and>
          live c now s0 \<and> console_admin c (se_user s0) m))"
proof (cases "nullish (rq_cookie r) [] = []")
  case True
  then show ?thesis
    by (intro disjI2) (auto simp: consoleUser_def Let_def)
next
  case False
  then obtain cookie where cookie: "rq_cookie r = Some cookie" "cookie \<noteq> []" by (cases "rq_cookie r") auto
  obtain found m1 where look: "Lookup sv c now cookie m = (found, m1)" by fastforce
  from Lookup_store [OF this] have only: "sessions_only m m1" .
  show ?thesis
  proof (cases found)
    case (Inl e)
    then have none: "\<nexists>s0. m_sessions m (sv_hash sv cookie) = Some s0 \<and> live c now s0"
      using look by (auto simp: Lookup_def Let_def SessionByHash_def live_iff split: if_splits option.splits)
    with Inl look cookie only show ?thesis
      by (intro disjI2) (auto simp: consoleUser_def Let_def)
  next
    case (Inr s)
    with look obtain s0 where s0: "m_sessions m (sv_hash sv cookie) = Some s0" "live c now s0" "se_user s = se_user s0"
      using Lookup_found by blast
    have admin: "Admin c (se_user s) m1 = Admin_is True \<longleftrightarrow> console_admin c (se_user s0) m"
      using Admin_store [OF only] Admin_iff [OF assms] s0(3) by simp
    show ?thesis
    proof (cases "Admin c (se_user s) m1 = Admin_is True")
      case True
      with admin Inr look cookie s0 only show ?thesis by (intro disjI1) (auto simp: consoleUser_def Let_def)
    next
      case False
      with admin Inr look cookie s0 sessions_only_trans [OF only sessions_only_drop(2)] only show ?thesis
        by (intro disjI2)
          (auto simp: consoleUser_def Let_def split: admin_answer.splits)
    qed
  qed
qed

lemma bearer_Nil: "bearer [] = []"
  by (simp add: bearer_def js_def)

lemma tokenAdmin_cases:
  assumes "[] \<notin> fst ` set (sv_adminTokens sv)"
  shows "(\<exists>name. bearer (rq_authorization r) \<noteq> [] \<and> (name, sv_hash sv (bearer (rq_authorization r))) \<in> set (sv_adminTokens sv) \<and>
       (\<forall>next. tokenAdmin sv next r m = next (js ''token:'' @ name) m)) \<or>
    (\<exists>res. rs_status res \<in> {401, 403, 503} \<and> (\<forall>next. tokenAdmin sv next r m = (res, m)) \<and>
       (bearer (rq_authorization r) = [] \<or> sv_hash sv (bearer (rq_authorization r)) \<notin> snd ` set (sv_adminTokens sv)))"
proof -
  let ?p = "sv_hash sv (bearer (rq_authorization r))"
  show ?thesis
  proof (cases "sv_adminTokens sv = [] \<or> bearer (rq_authorization r) = [] \<or> matched_name ?p (sv_adminTokens sv) = []")
    case True
    then have "\<exists>res. rs_status res \<in> {401, 403, 503} \<and> (\<forall>next. tokenAdmin sv next r m = (res, m))"
      by (intro exI [of _ "if sv_adminTokens sv = [] then writeError 503 (js ''admin token not configured'')
          else writeError 401 (js ''unauthorized'')"]) (auto simp: tokenAdmin_def Let_def)
    moreover have "bearer (rq_authorization r) = [] \<or> ?p \<notin> snd ` set (sv_adminTokens sv)"
      using True matched_name_eq(2) [OF assms, of ?p] by auto
    ultimately show ?thesis by blast
  next
    case False
    with matched_name_eq(1) [of ?p "sv_adminTokens sv"] show ?thesis
      by (intro disjI1 exI [of _ "matched_name ?p (sv_adminTokens sv)"]) (auto simp: tokenAdmin_def Let_def)
  qed
qed

text \<open>The guard hands over to the handler, or answers itself, whatever the handler is.\<close>

definition admits :: "server \<Rightarrow> time \<Rightarrow> go_request \<Rightarrow> memory \<Rightarrow> jstr \<Rightarrow> memory \<Rightarrow> bool" where
  "admits sv now r m actor m1 \<longleftrightarrow> (\<forall>handler. requireAdmin sv now handler r m = handler actor m1)"

definition refuses :: "server \<Rightarrow> time \<Rightarrow> go_request \<Rightarrow> memory \<Rightarrow> go_response \<Rightarrow> memory \<Rightarrow> bool" where
  "refuses sv now r m res m1 \<longleftrightarrow> (\<forall>handler. requireAdmin sv now handler r m = (res, m1))"

definition decides :: "server \<Rightarrow> time \<Rightarrow> go_request \<Rightarrow> memory \<Rightarrow> bool" where
  "decides sv now r m \<longleftrightarrow>
     (if \<exists>actor. credentials sv now r m actor
      then \<exists>actor m1. credentials sv now r m actor \<and> sessions_only m m1 \<and> admits sv now r m actor m1
      else \<exists>res m1. rs_status res \<in> {401, 403, 503} \<and> sessions_only m m1 \<and> refuses sv now r m res m1)"

lemma decides_admit:
  "credentials sv now r m actor \<Longrightarrow> sessions_only m m' \<Longrightarrow> admits sv now r m actor m' \<Longrightarrow> decides sv now r m"
  unfolding decides_def by (subst if_P) blast+

lemma decides_refuse:
  "\<nexists>actor. credentials sv now r m actor \<Longrightarrow> rs_status res \<in> {401, 403, 503} \<Longrightarrow> sessions_only m m' \<Longrightarrow>
     refuses sv now r m res m' \<Longrightarrow> decides sv now r m"
  unfolding decides_def by (subst if_not_P) blast+

lemma token_decides:
  assumes names: "[] \<notin> fst ` set (sv_adminTokens sv)" and path: "rq_authorization r \<noteq> [] \<or> sv_console sv = None"
  shows "decides sv now r m"
proof -
  from path have tok: "requireAdmin sv now handler r m = tokenAdmin sv handler r m" for handler
    by (auto simp: requireAdmin_def split: option.splits)
  let ?t = "bearer (rq_authorization r)"
  from tokenAdmin_cases [OF names, of r m] consider
    name where "?t \<noteq> []" "(name, sv_hash sv ?t) \<in> set (sv_adminTokens sv)"
      "\<forall>handler. tokenAdmin sv handler r m = handler (js ''token:'' @ name) m"
    | res where "rs_status res \<in> {401, 403, 503}" "\<forall>handler. tokenAdmin sv handler r m = (res, m)"
      "?t = [] \<or> sv_hash sv ?t \<notin> snd ` set (sv_adminTokens sv)"
    by blast
  then show ?thesis
  proof cases
    case (1 name)
    then have "credentials sv now r m (js ''token:'' @ name)" "admits sv now r m (js ''token:'' @ name) m"
      by (auto simp: credentials_def admits_def tok)
    then show ?thesis by (rule decides_admit [OF _ sessions_only_refl])
  next
    case (2 res)
    then have "\<nexists>actor. credentials sv now r m actor" using path bearer_Nil by (force simp: credentials_def)
    then show ?thesis using 2(1)
      by (rule decides_refuse [OF _ _ sessions_only_refl]) (use 2(2) in \<open>simp add: refuses_def tok\<close>)
  qed
qed

lemma console_decides:
  assumes grp: "cc_group c \<noteq> []" and c: "rq_authorization r = []" "sv_console sv = Some c"
  shows "decides sv now r m"
proof -
  from c have con: "requireAdmin sv now handler r m = consoleAdmin sv c now handler r m" for handler
    by (simp add: requireAdmin_def)
  have creds: "credentials sv now r m actor \<longleftrightarrow> sameOrigin c r \<and> (\<exists>cookie s. rq_cookie r = Some cookie \<and>
      cookie \<noteq> [] \<and> m_sessions m (sv_hash sv cookie) = Some s \<and> live c now s \<and> actor = se_user s \<and> console_admin c actor m)"
    for actor
    using c bearer_Nil by (auto simp: credentials_def)
  show ?thesis
  proof (cases "sameOrigin c r")
    case False
    with creds have "\<nexists>actor. credentials sv now r m actor" by blast
    then show ?thesis
      by (rule decides_refuse [where res = cross_origin and m' = m])
        (use False in \<open>simp_all add: refuses_def con consoleAdmin_def cross_origin_def\<close>)
  next
    case True
    from consoleUser_cases [OF grp, of sv now r m] show ?thesis
    proof (elim disjE exE conjE)
      fix s m1 cookie s0
      assume ok: "consoleUser sv c now r m = (Inr s, m1)" "sessions_only m m1" "rq_cookie r = Some cookie" "cookie \<noteq> []"
        "m_sessions m (sv_hash sv cookie) = Some s0" "live c now s0" "se_user s = se_user s0" "console_admin c (se_user s0) m"
      then show ?thesis
        using True by (intro decides_admit [of _ _ _ _ "se_user s"]) (auto simp: creds admits_def con consoleAdmin_def)
    next
      fix res m1
      assume no: "consoleUser sv c now r m = (Inl res, m1)" "sessions_only m m1" "rs_status res \<in> {401, 403, 503}"
        "\<nexists>cookie s0. rq_cookie r = Some cookie \<and> cookie \<noteq> [] \<and> m_sessions m (sv_hash sv cookie) = Some s0 \<and>
          live c now s0 \<and> console_admin c (se_user s0) m"
      then have "\<nexists>actor. credentials sv now r m actor" by (auto simp: creds)
      then show ?thesis using no(3,2)
        by (rule decides_refuse) (use True no(1) in \<open>simp add: refuses_def con consoleAdmin_def\<close>)
    qed
  qed
qed

lemma admin_decides:
  assumes "well_configured sv"
  shows "decides sv now r m"
proof (cases "rq_authorization r \<noteq> [] \<or> sv_console sv = None")
  case True
  then show ?thesis using assms by (intro token_decides) (auto simp: well_configured_def)
next
  case False
  then obtain c where "rq_authorization r = []" "sv_console sv = Some c" by auto
  then show ?thesis using assms by (intro console_decides [of c]) (auto simp: well_configured_def)
qed

text \<open>C2. A request reaches an administrative handler exactly when it carries the credentials of an actor,
  and then runs in that actor's name: a configured token, or a live console session of a current
  console admin sent from the console's own origin. Every other request is answered 401, 403 or 503
  and changes nothing but sessions; one with an Authorization header never uses a session.\<close>

theorem admin_admission:
  assumes "well_configured sv"
  shows "if \<exists>actor. credentials sv now r m actor
    then \<exists>actor m1. credentials sv now r m actor \<and> sessions_only m m1 \<and> admits sv now r m actor m1
    else \<exists>res m1. rs_status res \<in> {401, 403, 503} \<and> sessions_only m m1 \<and> refuses sv now r m res m1"
  using admin_decides [OF assms] unfolding decides_def .

definition sample_console :: console_config where
  "sample_console = \<lparr>cc_origin = js ''https://awd'', cc_group = js ''admins'', cc_absolute = 8 * hour, cc_idle = hour\<rparr>"

definition sample_server :: server where
  "sample_server =
     \<lparr>sv_hash = (\<lambda>s. 104 # s), sv_quote = (\<lambda>s. 34 # s @ [34]), sv_time = (\<lambda>t. show_int t), sv_rfc3339 = (\<lambda>t. show_int t), sv_adminTokens = [(js ''ops'', js ''hkey'')],
      sv_scimToken = [], sv_keyId = None, sv_console = Some sample_console\<rparr>"

definition token_request :: go_request where
  "token_request =
     \<lparr>rq_method = js ''POST'', rq_authorization = js ''Bearer key'', rq_origin = [], rq_cookie = None, rq_attempt = None\<rparr>"

lemma sample_bearer: "bearer (js ''Bearer key'') = js ''key''"
  by (simp add: bearer_def js_def ascii_lower_def TrimSpace_def go_space_def)

lemma sample_hash: "sv_hash sample_server (js ''key'') = js ''hkey''"
  by (simp add: sample_server_def js_def)

lemma sample_tokens: "sv_adminTokens sample_server = [(js ''ops'', js ''hkey'')]"
  by (simp add: sample_server_def)

theorem admin_admission_witness:
  "\<exists>m1. admits sample_server 0 token_request NewMemory (js ''token:ops'') m1"
proof -
  have cfg: "well_configured sample_server"
    by (simp add: well_configured_def sample_server_def sample_console_def)
  have iff: "credentials sample_server 0 token_request NewMemory actor \<longleftrightarrow> actor = js ''token:ops''" for actor
    by (simp add: credentials_def token_request_def sample_bearer sample_hash sample_tokens js_append [symmetric])
  from admin_admission [OF cfg, of 0 token_request NewMemory] show ?thesis
    unfolding iff by auto
qed

section \<open>Sessions over time\<close>

lemma session_step:
  assumes "store_step m op m'" "m_sessions m' h = Some s"
    and new: "\<not> (op = OpSession s \<and> se_tokenHash s = h)"
  shows "\<exists>s1. m_sessions m h = Some s1 \<and> se_user s1 = se_user s \<and> se_createdAt s1 = se_createdAt s \<and>
       op \<noteq> OpDropSession h \<and> op \<noteq> OpDropUser (se_user s) \<and>
       (se_lastSeenAt s = se_lastSeenAt s1 \<or> op = OpSeen h (se_lastSeenAt s))"
proof (cases op)
  case (OpSeen h' at)
  with assms show ?thesis by (cases "h' = h") (auto simp: step_simps)
next
  case (OpSession u)
  with assms show ?thesis by (cases "se_tokenHash u = h") (auto simp: step_simps)
next
  case (OpDropSession h')
  with assms show ?thesis by (cases "h' = h") (auto simp: step_simps drop_defs)
next
  case (OpDropUser u)
  with assms show ?thesis by (cases "m_sessions m h") (auto simp: step_simps drop_defs split: if_splits)
next
  case (OpSweep a b)
  with assms show ?thesis by (cases "m_sessions m h") (auto simp: step_simps drop_defs split: if_splits)
qed (use assms in \<open>auto simp: step_simps\<close>)

lemma session_history:
  "trace store_step NewMemory ops m \<Longrightarrow> m_sessions m h = Some s \<Longrightarrow>
     \<exists>before s0 after. ops = before @ OpSession s0 # after \<and> se_tokenHash s0 = h \<and> se_user s0 = se_user s \<and>
       se_createdAt s0 = se_createdAt s \<and> OpDropSession h \<notin> set after \<and> OpDropUser (se_user s) \<notin> set after \<and>
       (se_lastSeenAt s = se_lastSeenAt s0 \<or> OpSeen h (se_lastSeenAt s) \<in> set after)"
proof (induction ops arbitrary: m s rule: rev_induct)
  case Nil
  then show ?case by (simp add: NewMemory_def)
next
  case (snoc op ops)
  from snoc.prems(1) obtain m0 where run: "trace store_step NewMemory ops m0" "store_step m0 op m"
    by (auto simp: trace_snoc)
  show ?case
  proof (cases "op = OpSession s \<and> se_tokenHash s = h")
    case True
    then show ?thesis by (intro exI [of _ ops] exI [of _ s] exI [of _ "[]"]) simp
  next
    case False
    from session_step [OF run(2) snoc.prems(2) this] obtain s1 where s1: "m_sessions m0 h = Some s1" "se_user s1 = se_user s" "se_createdAt s1 = se_createdAt s"
        "op \<noteq> OpDropSession h" "op \<noteq> OpDropUser (se_user s)"
        "se_lastSeenAt s = se_lastSeenAt s1 \<or> op = OpSeen h (se_lastSeenAt s)"
      by (elim exE conjE) (rule that)
    from snoc.IH [OF run(1) s1(1)] obtain before s0 after where
      "ops = before @ OpSession s0 # after" "se_tokenHash s0 = h" "se_user s0 = se_user s1"
      "se_createdAt s0 = se_createdAt s1" "OpDropSession h \<notin> set after" "OpDropUser (se_user s1) \<notin> set after"
      "se_lastSeenAt s1 = se_lastSeenAt s0 \<or> OpSeen h (se_lastSeenAt s1) \<in> set after"
      by blast
    with s1 show ?thesis
      by (intro exI [of _ before] exI [of _ s0] exI [of _ "after @ [op]"]) auto
  qed
qed

text \<open>C25. A session answers only for the user it was created for, not after the
  absolute lifetime nor after the idle bound without a request, and never again once it was ended or its user's sessions were.\<close>

theorem session_lifetime:
  assumes "trace store_step NewMemory ops m" and "Lookup sv c now token m = (Inr s, m')"
  shows "\<exists>before s0 after. ops = before @ OpSession s0 # after \<and> se_tokenHash s0 = sv_hash sv token \<and>
    se_user s0 = se_user s \<and> now \<le> se_createdAt s0 + cc_absolute c \<and>
    (now \<le> se_lastSeenAt s0 + cc_idle c \<or> (\<exists>seen. OpSeen (sv_hash sv token) seen \<in> set after \<and> now \<le> seen + cc_idle c)) \<and>
    OpDropSession (sv_hash sv token) \<notin> set after \<and> OpDropUser (se_user s) \<notin> set after"
proof -
  from Lookup_found [OF assms(2)] obtain s1 where s1: "m_sessions m (sv_hash sv token) = Some s1" "live c now s1"
      "se_user s = se_user s1" "se_createdAt s = se_createdAt s1" by blast
  from session_history [OF assms(1) s1(1)] s1(2-4) show ?thesis
    unfolding live_def by metis
qed

text \<open>C26. An admin who was removed from the group, with a session that is live and group data to tell from,
  is refused at the next request, and every session of that user ends with it; nobody else's does.\<close>

theorem removed_admin_signed_out:
  assumes "rq_cookie r = Some cookie" "cookie \<noteq> []" "m_sessions m (sv_hash sv cookie) = Some s" "live c now s"
    and "cc_group c \<noteq> []" "\<not> console_admin c (se_user s) m" "m_snapshots m \<noteq> [] \<or> sd_groups (m_scim m) \<noteq> []"
    and "consoleUser sv c now r m = (answer, m')"
  shows "(\<exists>res. answer = Inl res \<and> rs_status res = 403 \<and> (sessionCookie, None) \<in> set (rs_cookies res)) \<and>
    (\<forall>h s'. m_sessions m' h = Some s' \<longrightarrow> se_user s' \<noteq> se_user s) \<and>
    (\<forall>h s'. m_sessions m h = Some s' \<and> se_user s' \<noteq> se_user s \<longrightarrow> m_sessions m' h = Some s')"
proof -
  let ?h = "sv_hash sv cookie"
  obtain s1 m1 where look: "Lookup sv c now cookie m = (Inr s1, m1)" and s1: "se_user s1 = se_user s"
    and keep: "\<And>h'. h' \<noteq> ?h \<Longrightarrow> m_sessions m1 h' = m_sessions m h'"
  proof (cases "now - se_lastSeenAt s \<ge> minute")
    case True
    then show ?thesis
      using that [of "s\<lparr>se_lastSeenAt := now\<rparr>" "m\<lparr>m_sessions := (m_sessions m)(?h \<mapsto> s\<lparr>se_lastSeenAt := now\<rparr>)\<rparr>"] assms(3,4)
      by (simp add: Lookup_def Let_def SessionByHash_def TouchSession_def live_iff)
  next
    case False
    then show ?thesis
      using that [of s m] assms(3,4) by (simp add: Lookup_def Let_def SessionByHash_def live_iff)
  qed
  have only: "sessions_only m m1" using Lookup_store [OF look] .
  have "Admin c (se_user s1) m1 \<noteq> Admin_is True"
    using Admin_store [OF only] Admin_iff [OF assms(5)] assms(6) s1 by simp
  moreover have "Admin c (se_user s1) m1 \<noteq> ErrNoGroupData"
    using assms(7) Admin_store [OF only, of c "se_user s1"]
    by (auto simp: Admin_def Let_def SCIMCounts_def CurrentGroupSnapshot_def split: if_splits)
  ultimately have "Admin c (se_user s1) m1 = Admin_is False" by (cases "Admin c (se_user s1) m1") auto
  with assms(8) look assms(1,2)
  have ans: "answer = Inl (clearCookie sessionCookie (writeError 403 (js ''not a console admin'')))"
    and m': "m' = DeleteSessionsFor (se_user s) m1"
    by (auto simp: consoleUser_def Let_def s1)
  have "m_sessions m' h = Some s' \<Longrightarrow> se_user s' \<noteq> se_user s" for h s'
    by (auto simp: m' drop_defs split: option.splits if_splits)
  moreover have "m_sessions m' h = Some s'" if "m_sessions m h = Some s'" "se_user s' \<noteq> se_user s" for h s'
    using that keep [of h] assms(3) by (cases "h = ?h") (auto simp: m' drop_defs)
  ultimately show ?thesis by (auto simp: ans clearCookie_def)
qed

definition admin_snapshot :: snapshot where
  "admin_snapshot =
     \<lparr>sn_seq = 0, sn_source = js ''idp'', sn_appliedBy = js ''token:ops'', sn_syncedAt = 1, sn_members = [(js ''ann'', Some [js ''admins''])]\<rparr>"

definition ann_session :: session where
  "ann_session = \<lparr>se_tokenHash = js ''hcookie'', se_user = js ''ann'', se_createdAt = 2, se_lastSeenAt = 2\<rparr>"

lemma sample_cookie: "sv_hash sample_server (js ''cookie'') = js ''hcookie''"
  by (simp add: sample_server_def js_def)

theorem session_lifetime_witness:
  "\<exists>m m' s. trace store_step NewMemory [OpSession ann_session] m \<and>
     Lookup sample_server sample_console 3 (js ''cookie'') m = (Inr s, m') \<and> (3::time) \<le> 2 + 8 * hour"
proof -
  obtain m where run: "trace store_step NewMemory [OpSession ann_session] m"
    by (simp add: trace_Cons_iff step_simps NewMemory_def ann_session_def)
  then have has: "m_sessions m (js ''hcookie'') = Some ann_session"
    by (auto simp: trace_Cons_iff step_simps NewMemory_def ann_session_def)
  then have look: "Lookup sample_server sample_console 3 (js ''cookie'') m = (Inr ann_session, m)"
    by (simp add: Lookup_def sample_cookie SessionByHash_def ExpiresAt_def ann_session_def sample_console_def hour_def minute_def)
  from session_lifetime [OF run look] obtain before s0 after where
    "[OpSession ann_session] = before @ OpSession s0 # after" "3 \<le> se_createdAt s0 + cc_absolute sample_console" by blast
  then have "(3::time) \<le> 2 + 8 * hour"
    by (auto simp: Cons_eq_append_conv ann_session_def sample_console_def)
  with run look show ?thesis by blast
qed

theorem removed_admin_signed_out_witness:
  "\<not> (\<exists>h s'. m_sessions (snd (consoleUser sample_server sample_console 3 (token_request\<lparr>rq_cookie := Some (js ''cookie'')\<rparr>)
       (NewMemory\<lparr>m_snapshots := [admin_snapshot\<lparr>sn_members := []\<rparr>], m_sessions := [js ''hcookie'' \<mapsto> ann_session]\<rparr>))) h = Some s' \<and>
     se_user s' = js ''ann'')"
proof -
  let ?m = "NewMemory\<lparr>m_snapshots := [admin_snapshot\<lparr>sn_members := []\<rparr>], m_sessions := [js ''hcookie'' \<mapsto> ann_session]\<rparr>"
  let ?r = "token_request\<lparr>rq_cookie := Some (js ''cookie'')\<rparr>"
  obtain answer m' where run: "consoleUser sample_server sample_console 3 ?r ?m = (answer, m')" by fastforce
  have "\<forall>h s'. m_sessions m' h = Some s' \<longrightarrow> se_user s' \<noteq> se_user ann_session"
  proof (rule removed_admin_signed_out [THEN conjunct2, THEN conjunct1])
    show "rq_cookie ?r = Some (js ''cookie'')" "js ''cookie'' \<noteq> []" "cc_group sample_console \<noteq> []"
      by (simp_all add: sample_console_def)
    show "m_sessions ?m (sv_hash sample_server (js ''cookie'')) = Some ann_session" by (simp add: sample_cookie)
    show "live sample_console 3 ann_session" by (simp add: live_def ann_session_def hour_def sample_console_def)
    show "\<not> console_admin sample_console (se_user ann_session) ?m"
      by (simp add: console_admin_def CurrentGroupSnapshot_def admin_snapshot_def NewMemory_def)
    show "m_snapshots ?m \<noteq> [] \<or> sd_groups (m_scim ?m) \<noteq> []" by simp
  qed (rule run)
  then show ?thesis unfolding run by (simp add: ann_session_def)
qed

section \<open>Signing in\<close>

lemma status_cookies [simp]: "rs_cookies (loginError n e) = []" "rs_cookies redirect_home = []"
  by (simp_all add: loginError_def redirect_home_def)

lemma denied_sessions [simp]: "m_sessions (denied now actor reason m) = m_sessions m"
  by (simp add: denied_def RecordAudit_def split: option.splits)

text \<open>What must hold when the callback hands out a session.\<close>

definition granted :: "server \<Rightarrow> console_config \<Rightarrow> time \<Rightarrow> jstr \<Rightarrow> (attempt \<Rightarrow> jstr \<Rightarrow> sso_error + jstr) \<Rightarrow>
    (jstr \<times> jstr) list \<Rightarrow> go_request \<Rightarrow> memory \<Rightarrow> memory \<Rightarrow> bool" where
  "granted sv c now token finish q r m m' \<longleftrightarrow>
     (\<exists>a user. Option.bind (rq_attempt r) DecodeAttempt = Some a \<and> callback_query q ''state'' = at_state a \<and>
        finish a (callback_query q ''code'') = Inr user \<and> console_admin c user m \<and>
        m_sessions m' = (m_sessions m)(sv_hash sv token \<mapsto>
          \<lparr>se_tokenHash = sv_hash sv token, se_user = user, se_createdAt = now, se_lastSeenAt = now\<rparr>) \<and>
        map stripped (m_audit m') = map stripped (m_audit m) @ [stripped (go_event_of now user ''console.login'' [] [])])"

definition no_new_session :: "memory \<Rightarrow> memory \<Rightarrow> bool" where
  "no_new_session m m' \<longleftrightarrow>
     (\<forall>h s'. m_sessions m' h = Some s' \<longrightarrow> (\<exists>s at. m_sessions m h = Some s \<and> s' = s\<lparr>se_lastSeenAt := at\<rparr>))"

lemma no_new_sessionI: "sessions_only m m' \<Longrightarrow> no_new_session m m'" "m_sessions m' = m_sessions m \<Longrightarrow> no_new_session m m'"
  using seen_same by (auto simp: sessions_only_def no_new_session_def)

lemma sign_in_cases:
  assumes "cc_group c \<noteq> []" "sign_in sv c now token user m = (res, m')"
  shows "(rs_cookies res = [(sessionCookie, Some token)] \<and> console_admin c user m \<and>
      m_sessions m' = (m_sessions m)(sv_hash sv token \<mapsto>
          \<lparr>se_tokenHash = sv_hash sv token, se_user = user, se_createdAt = now, se_lastSeenAt = now\<rparr>) \<and>
      map stripped (m_audit m') = map stripped (m_audit m) @ [stripped (go_event_of now user ''console.login'' [] [])]) \<or>
    (rs_cookies res = [] \<and> m_sessions m' = m_sessions m)"
proof (cases "Admin c user m = Admin_is True \<and> user \<noteq> [] \<and> sv_hash sv token \<noteq> [] \<and> m_sessions m (sv_hash sv token) = None")
  case True
  with Admin_iff [OF assms(1), of user m] assms(2) show ?thesis
    by (intro disjI1) (auto simp: sign_in_def Create_def CreateSession_def RecordAudit_def validate_event_def go_event_of_def)
next
  case False
  with assms(2) show ?thesis
    by (intro disjI2) (auto simp: sign_in_def Create_def CreateSession_def split: admin_answer.splits if_splits)
qed

lemma stale_link_sessions:
  "stale_link sv c now r m = (res, m') \<Longrightarrow> rs_cookies res = [] \<and> no_new_session m m'"
  by (auto simp: stale_link_def Let_def intro: no_new_sessionI Lookup_store split: option.splits prod.splits sum.splits)

lemma finish_login_cases:
  assumes "finish_login sv c now token f m = (res, m')"
  obtains user where "f = Inr user" "sign_in sv c now token user m = (res, m')"
    | "rs_cookies res = []" "m_sessions m' = m_sessions m"
  using assms by (auto simp: finish_login_def split: sum.splits sso_error.splits)

lemma answer_callback_cases:
  assumes "cc_group c \<noteq> []" "answer_callback sv c now token finish q r m = (res, m')"
  shows "(rs_cookies res = [(sessionCookie, Some token)] \<and> granted sv c now token finish q r m m') \<or>
    (rs_cookies res = [] \<and> no_new_session m m')"
proof (cases "\<exists>a. Option.bind (rq_attempt r) DecodeAttempt = Some a \<and> callback_query q ''state'' = at_state a \<and>
    callback_query q ''error'' = []")
  case True
  then obtain a where a: "Option.bind (rq_attempt r) DecodeAttempt = Some a" "callback_query q ''state'' = at_state a"
      "callback_query q ''error'' = []" by blast
  with assms(2) have "finish_login sv c now token (finish a (callback_query q ''code'')) m = (res, m')"
    by (simp add: answer_callback_def)
  then show ?thesis
  proof (cases rule: finish_login_cases)
    case (1 user)
    with sign_in_cases [OF assms(1) 1(2)] a show ?thesis
      unfolding granted_def using no_new_sessionI(2) by blast
  next
    case 2
    then show ?thesis using no_new_sessionI(2) by blast
  qed
next
  case False
  with assms(2) show ?thesis
    by (intro disjI2)
      (auto simp: answer_callback_def dest: stale_link_sessions intro: no_new_sessionI split: option.splits if_splits)
qed

text \<open>C27. A session is handed out only for a user the identity provider named, in answer to this browser's
  own attempt, who is a console admin; the login is then the last event of the log. Whatever else
  happens at the callback creates no session.\<close>

theorem session_granted_to_admins:
  assumes "cc_group c \<noteq> []" "consoleCallback sv c now token finish q r m = (res, m')"
  shows "if \<exists>t. (sessionCookie, Some t) \<in> set (rs_cookies res)
    then (\<forall>t. (sessionCookie, Some t) \<in> set (rs_cookies res) \<longleftrightarrow> t = token) \<and> granted sv c now token finish q r m m'
    else no_new_session m m'"
proof -
  obtain res1 where res: "answer_callback sv c now token finish q r m = (res1, m')" "res = clearCookie loginCookie res1"
    using assms(2) by (cases "answer_callback sv c now token finish q r m") (auto simp: consoleCallback_def)
  have cookies: "(sessionCookie, Some t) \<in> set (rs_cookies res) \<longleftrightarrow> (sessionCookie, Some t) \<in> set (rs_cookies res1)" for t
    by (simp add: res(2) clearCookie_def)
  from answer_callback_cases [OF assms(1) res(1)] show ?thesis
    unfolding cookies by auto
qed

definition sample_login :: go_request where
  "sample_login = token_request\<lparr>rq_method := js ''GET'', rq_authorization := [], rq_attempt := Some (js ''s.n.v'')\<rparr>"

lemma sample_attempt: "DecodeAttempt (js ''s.n.v'') = Some \<lparr>at_state = js ''s'', at_nonce = js ''n'', at_verifier = js ''v''\<rparr>"
  by (simp add: DecodeAttempt_def js_def)

theorem session_granted_to_admins_witness:
  "\<exists>res m'. consoleCallback sample_server sample_console 2 (js ''cookie'') (\<lambda>a code. Inr (js ''ann''))
       [(js ''state'', js ''s''), (js ''code'', js ''x'')] sample_login (NewMemory\<lparr>m_snapshots := [admin_snapshot]\<rparr>) = (res, m') \<and>
     granted sample_server sample_console 2 (js ''cookie'') (\<lambda>a code. Inr (js ''ann''))
       [(js ''state'', js ''s''), (js ''code'', js ''x'')] sample_login (NewMemory\<lparr>m_snapshots := [admin_snapshot]\<rparr>) m'"
proof -
  let ?m = "NewMemory\<lparr>m_snapshots := [admin_snapshot]\<rparr>" and ?q = "[(js ''state'', js ''s''), (js ''code'', js ''x'')]"
  let ?f = "\<lambda>a code. Inr (js ''ann'') :: sso_error + jstr"
  obtain res m' where run: "consoleCallback sample_server sample_console 2 (js ''cookie'') ?f ?q sample_login ?m = (res, m')"
    by fastforce
  have q: "callback_query ?q ''state'' = js ''s''" "callback_query ?q ''error'' = []" "callback_query ?q ''code'' = js ''x''"
    by (simp_all add: callback_query_def)
  have admin: "Admin sample_console (js ''ann'') ?m = Admin_is True"
    by (simp add: Admin_def CurrentGroupSnapshot_def SCIMCounts_def admin_snapshot_def sample_console_def groups_at_def)
  have none: "m_sessions NewMemory = Map.empty" by (simp add: NewMemory_def)
  have "Option.bind (rq_attempt sample_login) DecodeAttempt = Some \<lparr>at_state = js ''s'', at_nonce = js ''n'', at_verifier = js ''v''\<rparr>"
    by (simp add: sample_login_def sample_attempt)
  then have "rs_cookies res = [(loginCookie, None), (sessionCookie, Some (js ''cookie''))]"
    using run by (auto simp: consoleCallback_def answer_callback_def q finish_login_def sign_in_def admin Create_def sample_cookie
        CreateSession_def RecordAudit_def validate_event_def go_event_of_def clearCookie_def none)
  then have "\<exists>t. (sessionCookie, Some t) \<in> set (rs_cookies res)" by auto
  with session_granted_to_admins [OF _ run] have "granted sample_server sample_console 2 (js ''cookie'') ?f ?q sample_login ?m m'"
    by (simp add: sample_console_def)
  with run show ?thesis by blast
qed

end
