(* ===== verification/PolicyCheck.thy ===== *)
theory PolicyCheck
  imports Policy
begin

text \<open>
  How a rule set enters the control plane: \<^verbatim>\<open>encoding/json\<close> reading and writing the types of
  \<^verbatim>\<open>internal/policy\<close>, and \<^verbatim>\<open>RuleSet.Validate\<close> with \<^verbatim>\<open>internal/policy/nulls.go\<close> and \<^verbatim>\<open>removed.go\<close>.
  A decoder with unknown fields disallowed gives an error (\<^term>\<open>None\<close>) or the value; a member of
  an object is assigned in the order of the text, and \<open>null\<close> assigns nothing to a string, a flag
  or a struct.
\<close>

section \<open>Reading JSON into Go values\<close>

text \<open>
  \<open>encoding/json\<close> finds a field by its name, ignoring case; of the letters outside ASCII only the
  long s and the Kelvin sign fold to a letter of a field name.
\<close>

definition fold_rune :: "nat \<Rightarrow> nat" where
  "fold_rune c = (if 65 \<le> c \<and> c \<le> 90 then c + 32 else if c = 383 then 115 else if c = 8490 then 107 else c)"

definition fold_name :: "jstr \<Rightarrow> jstr" where
  "fold_name s = map fold_rune s"

type_synonym 'a field_reader = "json \<Rightarrow> 'a \<Rightarrow> 'a option"

fun read_fields :: "(string \<times> 'a field_reader) list \<Rightarrow> (jstr \<times> json) list \<Rightarrow> 'a \<Rightarrow> 'a option" where
  "read_fields fs [] a = Some a"
| "read_fields fs ((k, v) # kvs) a =
     (case find (\<lambda>(name, f). fold_name (js name) = fold_name k) fs of
        None \<Rightarrow> None
      | Some (name, f) \<Rightarrow> Option.bind (f v a) (read_fields fs kvs))"

definition read_struct :: "(string \<times> 'a field_reader) list \<Rightarrow> 'a field_reader" where
  "read_struct fs d a =
     (case d of JObj kvs \<Rightarrow> read_fields fs kvs a | JNull \<Rightarrow> Some a | _ \<Rightarrow> None)"

definition read_go_string :: "jstr field_reader" where
  "read_go_string d s = (case d of JStr t \<Rightarrow> Some t | JNull \<Rightarrow> Some s | _ \<Rightarrow> None)"

definition read_go_bool :: "bool field_reader" where
  "read_go_bool d b = (case d of JBool c \<Rightarrow> Some c | JNull \<Rightarrow> Some b | _ \<Rightarrow> None)"

fun read_all :: "(json \<Rightarrow> 'v option) \<Rightarrow> json list \<Rightarrow> 'v list option" where
  "read_all f [] = Some []"
| "read_all f (x # xs) = (case (f x, read_all f xs) of (Some y, Some ys) \<Rightarrow> Some (y # ys) | _ \<Rightarrow> None)"

text \<open>
  A slice is read afresh: a body that names the same field twice, where Go would reuse the elements of the
  first array, is outside the model. Where a nil slice and an empty one are told apart, the reader is \<open>read_groups\<close>.
  A map keeps what it holds.
\<close>

definition read_slice :: "(json \<Rightarrow> 'v option) \<Rightarrow> 'v list field_reader" where
  "read_slice f d old = (case d of JArr xs \<Rightarrow> read_all f xs | JNull \<Rightarrow> Some [] | _ \<Rightarrow> None)"

fun read_entries :: "(json \<Rightarrow> 'v option) \<Rightarrow> (jstr \<times> json) list \<Rightarrow> 'v go_map \<Rightarrow> 'v go_map option" where
  "read_entries f [] m = Some m"
| "read_entries f ((k, v) # kvs) m = Option.bind (f v) (\<lambda>x. read_entries f kvs (put k x m))"

definition read_map :: "(json \<Rightarrow> 'v option) \<Rightarrow> 'v go_map field_reader" where
  "read_map f d m = (case d of JObj kvs \<Rightarrow> read_entries f kvs m | JNull \<Rightarrow> Some [] | _ \<Rightarrow> None)"

text \<open>A map of settings may be nil, and holds any JSON value.\<close>

definition read_settings :: "settings field_reader" where
  "read_settings d s =
     (case d of JObj kvs \<Rightarrow> map_option Some (read_entries Some kvs (nullish s [])) | JNull \<Rightarrow> Some None | _ \<Rightarrow> None)"

definition strings :: "jstr list field_reader" where
  "strings d old = read_slice (\<lambda>x. read_go_string x []) d old"

definition read_groups :: "json \<Rightarrow> jstr list option option" where
  "read_groups d = (if d = JNull then Some None else map_option Some (strings d []))"

definition read_config :: "json \<Rightarrow> agent_config option" where
  "read_config d = read_struct
     [(''managed'', \<lambda>v c. map_option (\<lambda>x. c\<lparr>ac_managed := x\<rparr>) (read_settings v (ac_managed c))),
      (''env'', \<lambda>v c. map_option (\<lambda>x. c\<lparr>ac_env := x\<rparr>) (read_map (\<lambda>j. read_go_string j []) v (ac_env c))),
      (''forceEnv'', \<lambda>v c. map_option (\<lambda>x. c\<lparr>ac_forceEnv := x\<rparr>) (read_go_bool v (ac_forceEnv c))),
      (''launch'', \<lambda>v c. map_option (\<lambda>x. c\<lparr>ac_launch := x\<rparr>) (read_settings v (ac_launch c)))]
     d empty_config"

definition read_match :: "match_spec field_reader" where
  "read_match = read_struct
     [(''groups'', \<lambda>v m. map_option (\<lambda>x. m\<lparr>mt_groups := x\<rparr>) (strings v (mt_groups m))),
      (''repos'', \<lambda>v m. map_option (\<lambda>x. m\<lparr>mt_repos := x\<rparr>) (strings v (mt_repos m)))]"

definition empty_rule :: rule where
  "empty_rule = \<lparr>ru_name = [], ru_match = \<lparr>mt_groups = [], mt_repos = []\<rparr>, ru_agents = []\<rparr>"

definition read_rule :: "json \<Rightarrow> rule option" where
  "read_rule d = read_struct
     [(''name'', \<lambda>v r. map_option (\<lambda>x. r\<lparr>ru_name := x\<rparr>) (read_go_string v (ru_name r))),
      (''match'', \<lambda>v r. map_option (\<lambda>x. r\<lparr>ru_match := x\<rparr>) (read_match v (ru_match r))),
      (''agents'', \<lambda>v r. map_option (\<lambda>x. r\<lparr>ru_agents := x\<rparr>) (read_map read_config v (ru_agents r)))]
     d empty_rule"

definition read_rule_set :: "json \<Rightarrow> rule_set option" where
  "read_rule_set d = read_struct
     [(''version'', \<lambda>v s. map_option (\<lambda>x. s\<lparr>rs_version := x\<rparr>) (read_go_string v (rs_version s))),
      (''groups'', \<lambda>v s. map_option (\<lambda>x. s\<lparr>rs_groups := x\<rparr>) (read_map read_groups v (rs_groups s))),
      (''rules'', \<lambda>v s. map_option (\<lambda>x. s\<lparr>rs_rules := x\<rparr>) (read_slice read_rule v (rs_rules s)))]
     d zero_rule_set"

section \<open>Writing Go values as JSON\<close>

text \<open>A map is written with its keys in order; \<open>omitempty\<close> leaves an empty value out.\<close>

definition object_of :: "('v \<Rightarrow> json) \<Rightarrow> 'v go_map \<Rightarrow> json" where
  "object_of f m = JObj (map (\<lambda>(k, v). (k, f v)) (sort_key fst m))"

definition strings_json :: "jstr list \<Rightarrow> json" where
  "strings_json xs = JArr (map JStr xs)"

definition groups_json :: "jstr list option \<Rightarrow> json" where
  "groups_json g = (case g of None \<Rightarrow> JNull | Some gs \<Rightarrow> strings_json gs)"

definition omit_if :: "bool \<Rightarrow> string \<Rightarrow> json \<Rightarrow> (jstr \<times> json) list" where
  "omit_if skip k v = (if skip then [] else [(js k, v)])"

definition settings_json :: "settings \<Rightarrow> json" where
  "settings_json s = canon (JObj (nullish s []))"

definition config_json :: "agent_config \<Rightarrow> json" where
  "config_json c = JObj
     (omit_if (nullish (ac_managed c) [] = []) ''managed'' (settings_json (ac_managed c)) @
      omit_if (ac_env c = []) ''env'' (object_of JStr (ac_env c)) @
      omit_if (\<not> ac_forceEnv c) ''forceEnv'' (JBool (ac_forceEnv c)) @
      omit_if (nullish (ac_launch c) [] = []) ''launch'' (settings_json (ac_launch c)))"

definition match_json :: "match_spec \<Rightarrow> json" where
  "match_json m = JObj
     (omit_if (mt_groups m = []) ''groups'' (strings_json (mt_groups m)) @
      omit_if (mt_repos m = []) ''repos'' (strings_json (mt_repos m)))"

definition rule_json :: "rule \<Rightarrow> json" where
  "rule_json r = JObj
     ([(js ''name'', JStr (ru_name r)), (js ''match'', match_json (ru_match r))] @
      omit_if (ru_agents r = []) ''agents'' (object_of config_json (ru_agents r)))"

definition rule_set_json :: "rule_set \<Rightarrow> json" where
  "rule_set_json rs = JObj
     (omit_if (rs_version rs = []) ''version'' (JStr (rs_version rs)) @
      omit_if (rs_groups rs = []) ''groups'' (object_of groups_json (rs_groups rs)) @
      omit_if (rs_rules rs = []) ''rules'' (JArr (map rule_json (rs_rules rs))))"

section \<open>Checking a rule set\<close>

text \<open>Both walkers go through an object in the order of its keys.\<close>

definition index_path :: "jstr \<Rightarrow> nat \<Rightarrow> jstr" where
  "index_path path i = path @ 91 # show_nat i @ [93]"

text \<open>The walker on a value whose objects are already in order.\<close>

fun null_walk :: "json \<Rightarrow> jstr \<Rightarrow> jstr option"
  and null_fields :: "(jstr \<times> json) list \<Rightarrow> jstr \<Rightarrow> jstr option"
  and null_elems :: "json list \<Rightarrow> nat \<Rightarrow> jstr \<Rightarrow> jstr option" where
  "null_walk JNull path = (if path = [] then None else Some path)"
| "null_walk (JObj kvs) path = null_fields kvs path"
| "null_walk (JArr xs) path = null_elems xs 0 path"
| "null_walk (JBool b) path = None"
| "null_walk (JNum l) path = None"
| "null_walk (JStr t) path = None"
| "null_fields [] path = None"
| "null_fields ((k, v) # kvs) path =
     (case null_walk v (childPath path k) of Some p \<Rightarrow> Some p | None \<Rightarrow> null_fields kvs path)"
| "null_elems [] i path = None"
| "null_elems (x # xs) i path =
     (case null_walk x (index_path path i) of Some p \<Rightarrow> Some p | None \<Rightarrow> null_elems xs (Suc i) path)"

definition FirstNull :: "settings \<Rightarrow> jstr \<Rightarrow> jstr option" where
  "FirstNull s path = null_walk (settings_json s) path"

definition IsBareKey :: "jstr \<Rightarrow> bool" where
  "IsBareKey s \<longleftrightarrow> s \<noteq> [] \<and> list_all (\<lambda>c. is_word c \<or> c = 45) s"

fun bad_walk :: "json \<Rightarrow> jstr \<Rightarrow> (jstr \<times> jstr) option"
  and bad_fields :: "(jstr \<times> json) list \<Rightarrow> jstr \<Rightarrow> (jstr \<times> jstr) option"
  and bad_elems :: "json list \<Rightarrow> nat \<Rightarrow> jstr \<Rightarrow> (jstr \<times> jstr) option" where
  "bad_walk (JObj kvs) path = bad_fields kvs path"
| "bad_walk (JArr xs) path = bad_elems xs 0 path"
| "bad_walk JNull path = None"
| "bad_walk (JBool b) path = None"
| "bad_walk (JNum l) path = None"
| "bad_walk (JStr t) path = None"
| "bad_fields [] path = None"
| "bad_fields ((k, v) # kvs) path =
     (if \<not> IsBareKey k then (if childPath path k = [] then None else Some (childPath path k, k))
      else (case bad_walk v (childPath path k) of Some p \<Rightarrow> Some p | None \<Rightarrow> bad_fields kvs path))"
| "bad_elems [] i path = None"
| "bad_elems (x # xs) i path =
     (case bad_walk x (index_path path i) of Some p \<Rightarrow> Some p | None \<Rightarrow> bad_elems xs (Suc i) path)"

definition FirstBadKey :: "settings \<Rightarrow> jstr \<Rightarrow> (jstr \<times> jstr) option" where
  "FirstBadKey s path = bad_walk (settings_json s) path"

definition removedAgents :: "jstr go_map" where
  "removedAgents = [(js ''gemini'', js ''Gemini CLI is no longer supported by agent-wrapper; use agy (Antigravity CLI)'')]"

definition RemovedHint :: "jstr \<Rightarrow> jstr option" where
  "RemovedHint name = map_of removedAgents name"

datatype policy_error =
    NoRuleVersion | NoGroupUser | NoRuleName nat | RuleTwice jstr | NoAgentName jstr
  | AgentRemoved jstr jstr jstr | LaunchUnsupported jstr jstr | LaunchNull jstr jstr jstr
  | LaunchKey jstr jstr jstr jstr | ManagedInvalid jstr jstr jstr

text \<open>
  \<open>check\<close> is the validator a caller supplies: what it has against an agent's managed settings. The
  agents of a rule are visited in the order of a Go map, so which of several errors is reported is
  open; that there is one is not.
\<close>

definition check_agent :: "(jstr \<Rightarrow> settings \<Rightarrow> jstr option) \<Rightarrow> jstr \<Rightarrow> jstr \<times> agent_config \<Rightarrow> policy_error option" where
  "check_agent check ruleName ac =
     (let (agentName, config) = ac in
      if agentName = [] then Some (NoAgentName ruleName)
      else (case RemovedHint agentName of
        Some hint \<Rightarrow> Some (AgentRemoved ruleName agentName hint)
      | None \<Rightarrow>
          (if ac_launch config \<noteq> None \<and> agentName \<noteq> js ''codex'' then Some (LaunchUnsupported ruleName agentName)
           else (case (if ac_launch config = None then None else FirstNull (ac_launch config) (js ''launch'')) of
             Some p \<Rightarrow> Some (LaunchNull ruleName agentName p)
           | None \<Rightarrow>
               (case (if ac_launch config = None then None else FirstBadKey (ac_launch config) (js ''launch'')) of
                  Some (p, key) \<Rightarrow> Some (LaunchKey ruleName agentName p key)
                | None \<Rightarrow>
                    (case check agentName (ac_managed config) of
                       Some e \<Rightarrow> Some (ManagedInvalid ruleName agentName e) | None \<Rightarrow> None))))))"

fun first_error :: "('a \<Rightarrow> 'e option) \<Rightarrow> 'a list \<Rightarrow> 'e option" where
  "first_error f [] = None"
| "first_error f (x # xs) = (case f x of Some e \<Rightarrow> Some e | None \<Rightarrow> first_error f xs)"

fun check_rules :: "(jstr \<Rightarrow> settings \<Rightarrow> jstr option) \<Rightarrow> nat \<Rightarrow> jstr set \<Rightarrow> rule list \<Rightarrow> policy_error option" where
  "check_rules check i seen [] = None"
| "check_rules check i seen (r # rs) =
     (if ru_name r = [] then Some (NoRuleName i)
      else if ru_name r \<in> seen then Some (RuleTwice (ru_name r))
      else (case first_error (check_agent check (ru_name r)) (ru_agents r) of
        Some e \<Rightarrow> Some e
      | None \<Rightarrow> check_rules check (Suc i) (insert (ru_name r) seen) rs))"

definition Validate :: "(jstr \<Rightarrow> settings \<Rightarrow> jstr option) \<Rightarrow> rule_set \<Rightarrow> policy_error option" where
  "Validate check rs =
     (if rs_version rs = [] then Some NoRuleVersion
      else if [] \<in> fst ` set (rs_groups rs) then Some NoGroupUser
      else check_rules check 0 {} (rs_rules rs))"

section \<open>What the check accepts\<close>

fun has_null :: "json \<Rightarrow> bool" where
  "has_null JNull \<longleftrightarrow> True"
| "has_null (JArr xs) \<longleftrightarrow> (\<exists>x \<in> set xs. has_null x)"
| "has_null (JObj kvs) \<longleftrightarrow> (\<exists>kv \<in> set kvs. has_null (snd kv))"
| "has_null _ \<longleftrightarrow> False"

fun bare_keys :: "json \<Rightarrow> bool" where
  "bare_keys (JArr xs) \<longleftrightarrow> (\<forall>x \<in> set xs. bare_keys x)"
| "bare_keys (JObj kvs) \<longleftrightarrow> (\<forall>kv \<in> set kvs. IsBareKey (fst kv) \<and> bare_keys (snd kv))"
| "bare_keys _ \<longleftrightarrow> True"

lemma paths_neq_Nil [simp]: "path \<noteq> [] \<Longrightarrow> childPath path k \<noteq> []" "index_path path i \<noteq> []"
  by (simp_all add: childPath_def index_path_def)

lemma null_walk_None:
  "path \<noteq> [] \<Longrightarrow> null_walk v path = None \<longleftrightarrow> \<not> has_null v"
  "path \<noteq> [] \<Longrightarrow> null_fields kvs path = None \<longleftrightarrow> (\<forall>kv \<in> set kvs. \<not> has_null (snd kv))"
  "path \<noteq> [] \<Longrightarrow> null_elems xs i path = None \<longleftrightarrow> (\<forall>x \<in> set xs. \<not> has_null x)"
  by (induction v path and kvs path and xs i path rule: null_walk_null_fields_null_elems.induct)
    (auto split: option.splits)

lemma bad_walk_None:
  "path \<noteq> [] \<Longrightarrow> bad_walk v path = None \<longleftrightarrow> bare_keys v"
  "path \<noteq> [] \<Longrightarrow> bad_fields kvs path = None \<longleftrightarrow> (\<forall>kv \<in> set kvs. IsBareKey (fst kv) \<and> bare_keys (snd kv))"
  "path \<noteq> [] \<Longrightarrow> bad_elems xs i path = None \<longleftrightarrow> (\<forall>x \<in> set xs. bare_keys x)"
  by (induction v path and kvs path and xs i path rule: bad_walk_bad_fields_bad_elems.induct)
    (auto split: option.splits)

lemma canon_null: "has_null (canon v) \<longleftrightarrow> has_null v"
  by (induction v rule: canon.induct) auto

lemma canon_bare: "bare_keys (canon v) \<longleftrightarrow> bare_keys v"
  by (induction v rule: canon.induct) auto

definition agent_ok :: "(jstr \<Rightarrow> settings \<Rightarrow> jstr option) \<Rightarrow> jstr \<times> agent_config \<Rightarrow> bool" where
  "agent_ok check ac \<longleftrightarrow> fst ac \<noteq> [] \<and> fst ac \<notin> fst ` set removedAgents \<and> check (fst ac) (ac_managed (snd ac)) = None \<and>
     (case ac_launch (snd ac) of None \<Rightarrow> True
      | Some kvs \<Rightarrow> fst ac = js ''codex'' \<and> \<not> has_null (JObj kvs) \<and> bare_keys (JObj kvs))"

definition valid_policy :: "(jstr \<Rightarrow> settings \<Rightarrow> jstr option) \<Rightarrow> rule_set \<Rightarrow> bool" where
  "valid_policy check rs \<longleftrightarrow> rs_version rs \<noteq> [] \<and> [] \<notin> fst ` set (rs_groups rs) \<and>
     distinct (map ru_name (rs_rules rs)) \<and>
     (\<forall>r \<in> set (rs_rules rs). ru_name r \<noteq> [] \<and> (\<forall>ac \<in> set (ru_agents r). agent_ok check ac))"

lemma launch_walkers:
  "FirstNull (Some kvs) (js ''launch'') = None \<longleftrightarrow> \<not> has_null (JObj kvs)"
  "FirstBadKey (Some kvs) (js ''launch'') = None \<longleftrightarrow> bare_keys (JObj kvs)"
proof -
  have "js ''launch'' \<noteq> []" by simp
  then show "FirstNull (Some kvs) (js ''launch'') = None \<longleftrightarrow> \<not> has_null (JObj kvs)"
    "FirstBadKey (Some kvs) (js ''launch'') = None \<longleftrightarrow> bare_keys (JObj kvs)"
    unfolding FirstNull_def FirstBadKey_def settings_json_def nullish_simps
    by (simp_all only: null_walk_None bad_walk_None canon_null canon_bare simp_thms not_not)
qed

lemma Some_or_None: "(case x of None \<Rightarrow> y | Some e \<Rightarrow> Some (g e)) = None \<longleftrightarrow> x = None \<and> y = None"
  by (cases x) auto

lemma check_agent_None: "check_agent check n ac = None \<longleftrightarrow> agent_ok check ac"
proof -
  have hint: "RemovedHint a = None \<longleftrightarrow> a \<notin> fst ` set removedAgents" for a
    by (simp add: RemovedHint_def map_of_eq_None_iff)
  have pair: "(case x of None \<Rightarrow> y | Some (p, k) \<Rightarrow> Some (LaunchKey a b p k)) = None \<longleftrightarrow> x = None \<and> y = None"
    for x :: "(jstr \<times> jstr) option" and y a b
    by (cases x) auto
  show ?thesis
    by (cases ac; cases "ac_launch (snd ac)")
      (simp_all add: check_agent_def agent_ok_def Let_def Some_or_None pair hint launch_walkers del: has_null.simps bare_keys.simps,
       blast+)
qed

lemma first_error_None: "first_error f xs = None \<longleftrightarrow> (\<forall>x \<in> set xs. f x = None)"
  by (induction xs) (auto split: option.splits)

lemma check_rules_None:
  "check_rules check i seen rs = None \<longleftrightarrow> distinct (map ru_name rs) \<and> ru_name ` set rs \<inter> seen = {} \<and>
     (\<forall>r \<in> set rs. ru_name r \<noteq> [] \<and> (\<forall>ac \<in> set (ru_agents r). agent_ok check ac))"
proof (induction rs arbitrary: i seen)
  case (Cons r rs)
  have "first_error (check_agent check (ru_name r)) (ru_agents r) = None \<longleftrightarrow> (\<forall>ac \<in> set (ru_agents r). agent_ok check ac)"
    by (simp add: first_error_None check_agent_None)
  with Cons.IH show ?case by (simp add: Some_or_None) blast
qed simp

lemma validate_accepts: "Validate check rs = None \<longleftrightarrow> valid_policy check rs"
  by (auto simp: Validate_def valid_policy_def check_rules_None)

text \<open>C28. A rule set is accepted exactly when it is well formed: it has a version, every user and rule is
  named, rule names are unique, and every agent of a rule is named, still supported and configured
  with settings its validator takes; a launch document is for Codex only, holds no null at any depth
  and only keys that TOML writes bare.\<close>

theorem validate_accepts_iff: "Validate check rs = None \<longleftrightarrow> valid_policy check rs"
  by (rule validate_accepts)

section \<open>Reading what was written\<close>

lemma read_all_map: "(\<And>x. x \<in> set xs \<Longrightarrow> f (g x) = Some x) \<Longrightarrow> read_all f (map g xs) = Some xs"
  by (induction xs) auto

lemma put_new: "k \<notin> fst ` set m \<Longrightarrow> put k v m = m @ [(k, v)]"
  by (induction m) auto

lemma read_entries_map:
  "distinct (map fst (m0 @ m)) \<Longrightarrow> (\<And>kv. kv \<in> set m \<Longrightarrow> f (g (snd kv)) = Some (snd kv)) \<Longrightarrow>
     read_entries f (map (\<lambda>(k, v). (k, g v)) m) m0 = Some (m0 @ m)"
proof (induction m arbitrary: m0)
  case (Cons kv m)
  obtain k v where kv: "kv = (k, v)" by fastforce
  from Cons.prems(2) [of kv] have "f (g v) = Some v" by (simp add: kv)
  with Cons show ?case by (simp add: kv put_new)
qed simp

lemma read_strings [simp]: "strings (strings_json xs) old = Some xs"
  by (simp add: strings_def read_slice_def strings_json_def read_all_map read_go_string_def)

lemma read_groups_json [simp]: "read_groups (groups_json g) = Some g"
  by (cases g) (simp_all add: read_groups_def groups_json_def, simp add: strings_json_def)

lemma read_string [simp]: "read_go_string (JStr s) old = Some s" "read_go_bool (JBool b) old' = Some b"
  by (simp_all add: read_go_string_def read_go_bool_def)

definition normal_map :: "'v go_map \<Rightarrow> bool" where
  "normal_map m \<longleftrightarrow> sorted (map fst m) \<and> distinct (map fst m)"

lemma read_map_object:
  assumes "normal_map m" "\<And>kv. kv \<in> set m \<Longrightarrow> f (g (snd kv)) = Some (snd kv)"
  shows "read_map f (object_of g m) [] = Some m"
proof -
  have "sort_key fst m = m" using assms(1) by (simp add: normal_map_def sorted_sort_id sort_key_id_if_sorted)
  then show ?thesis
    using read_entries_map [of "[]" m f g] assms by (simp add: object_of_def read_map_def normal_map_def)
qed

definition normal_settings :: "settings \<Rightarrow> bool" where
  "normal_settings s \<longleftrightarrow> (case s of None \<Rightarrow> True
     | Some kvs \<Rightarrow> kvs \<noteq> [] \<and> distinct (map fst kvs) \<and> canon (JObj kvs) = JObj kvs)"

lemma read_settings_json:
  assumes "normal_settings s" "s \<noteq> None"
  shows "read_settings (settings_json s) None = Some s"
proof -
  from assms obtain kvs where s: "s = Some kvs" "distinct (map fst kvs)" "canon (JObj kvs) = JObj kvs"
    by (auto simp: normal_settings_def)
  have "read_entries Some (map (\<lambda>(k, v). (k, v)) kvs) [] = Some ([] @ kvs)"
    using s(2) by (intro read_entries_map [where g = "\<lambda>x. x"]) auto
  with s show ?thesis by (simp add: settings_json_def read_settings_def)
qed

lemma fold_names:
  "fold_name (js ''managed'') \<noteq> fold_name (js ''env'')" "fold_name (js ''managed'') \<noteq> fold_name (js ''forceEnv'')"
  "fold_name (js ''managed'') \<noteq> fold_name (js ''launch'')" "fold_name (js ''env'') \<noteq> fold_name (js ''forceEnv'')"
  "fold_name (js ''env'') \<noteq> fold_name (js ''launch'')" "fold_name (js ''forceEnv'') \<noteq> fold_name (js ''launch'')"
  "fold_name (js ''groups'') \<noteq> fold_name (js ''repos'')" "fold_name (js ''name'') \<noteq> fold_name (js ''match'')"
  "fold_name (js ''name'') \<noteq> fold_name (js ''agents'')" "fold_name (js ''match'') \<noteq> fold_name (js ''agents'')"
  "fold_name (js ''version'') \<noteq> fold_name (js ''groups'')" "fold_name (js ''version'') \<noteq> fold_name (js ''rules'')"
  "fold_name (js ''groups'') \<noteq> fold_name (js ''rules'')"
  by (simp_all add: fold_name_def fold_rune_def js_def)

lemmas read_defs = read_struct_def omit_if_def fold_names fold_names [symmetric]

definition normal_config :: "agent_config \<Rightarrow> bool" where
  "normal_config c \<longleftrightarrow> normal_settings (ac_managed c) \<and> normal_map (ac_env c) \<and> normal_settings (ac_launch c)"

lemma normal_settings_Nil: "normal_settings s \<Longrightarrow> nullish s [] = [] \<longleftrightarrow> s = None"
  by (cases s) (auto simp: normal_settings_def)

lemma read_config_json: "normal_config c \<Longrightarrow> read_config (config_json c) = Some c"
proof -
  assume n: "normal_config c"
  have env: "read_map (\<lambda>j. read_go_string j []) (object_of JStr (ac_env c)) [] = Some (ac_env c)"
    using n by (intro read_map_object) (auto simp: normal_config_def)
  have nil: "nullish (ac_managed c) [] = [] \<longleftrightarrow> ac_managed c = None" "nullish (ac_launch c) [] = [] \<longleftrightarrow> ac_launch c = None"
    using n by (simp_all add: normal_config_def normal_settings_Nil)
  have settings: "ac_managed c \<noteq> None \<Longrightarrow> read_settings (settings_json (ac_managed c)) None = Some (ac_managed c)"
    "ac_launch c \<noteq> None \<Longrightarrow> read_settings (settings_json (ac_launch c)) None = Some (ac_launch c)"
    using n by (auto intro!: read_settings_json simp: normal_config_def)
  show ?thesis
    unfolding read_config_def config_json_def nil
    using env settings
    by (cases "ac_managed c = None"; cases "ac_env c = []"; cases "ac_forceEnv c"; cases "ac_launch c = None")
      (simp_all add: read_defs empty_config_def)
qed

lemma read_match_json: "read_match (match_json m) \<lparr>mt_groups = [], mt_repos = []\<rparr> = Some m"
  by (cases "mt_groups m = []"; cases "mt_repos m = []") (simp_all add: read_match_def match_json_def read_defs)

definition normal_rule :: "rule \<Rightarrow> bool" where
  "normal_rule r \<longleftrightarrow> normal_map (ru_agents r) \<and> (\<forall>ac \<in> set (ru_agents r). normal_config (snd ac))"

lemma read_rule_json: "normal_rule r \<Longrightarrow> read_rule (rule_json r) = Some r"
proof -
  assume n: "normal_rule r"
  have "read_map read_config (object_of config_json (ru_agents r)) [] = Some (ru_agents r)"
    using n by (intro read_map_object) (auto simp: normal_rule_def read_config_json)
  with read_match_json [of "ru_match r"] show ?thesis
    by (cases "ru_agents r = []") (simp_all add: read_rule_def rule_json_def read_defs empty_rule_def)
qed

text \<open>A rule set as a Go program holds it: maps in the order of their keys, no empty document.\<close>

definition normal_rules :: "rule_set \<Rightarrow> bool" where
  "normal_rules rs \<longleftrightarrow> normal_map (rs_groups rs) \<and> (\<forall>r \<in> set (rs_rules rs). normal_rule r)"

lemma read_rule_set_json:
  assumes "normal_rules rs"
  shows "read_rule_set (rule_set_json rs) = Some rs"
proof -
  have groups: "read_map read_groups (object_of groups_json (rs_groups rs)) [] = Some (rs_groups rs)"
    using assms by (intro read_map_object) (auto simp: normal_rules_def)
  have rules: "read_slice read_rule (JArr (map rule_json (rs_rules rs))) [] = Some (rs_rules rs)"
    using assms by (simp add: read_slice_def normal_rules_def read_all_map read_rule_json)
  show ?thesis
    using groups rules
    by (cases "rs_version rs = []"; cases "rs_groups rs = []"; cases "rs_rules rs = []")
      (simp_all add: read_rule_set_def rule_set_json_def read_defs zero_rule_set_def)
qed

text \<open>C29. A rule set written as JSON, as the control plane lists it, is read back as the same rule set, when
  it has no empty document of settings (\<open>omitempty\<close> leaves one out, and it comes back as none) and its
  maps are in the order of their keys, which is how a Go map is written.\<close>

theorem rule_set_roundtrip:
  assumes "normal_rules rs"
  shows "read_rule_set (rule_set_json rs) = Some rs"
  by (rule read_rule_set_json [OF assms])

definition codex_rules :: rule_set where
  "codex_rules =
     \<lparr>rs_version = js ''v1'', rs_groups = [(js ''ann'', Some [js ''eng''])],
      rs_rules = [\<lparr>ru_name = js ''r'', ru_match = \<lparr>mt_groups = [js ''eng''], mt_repos = []\<rparr>,
        ru_agents = [(js ''codex'', \<lparr>ac_managed = None, ac_env = [(js ''A'', js ''1'')], ac_forceEnv = True,
          ac_launch = Some [(js ''model'', JStr (js ''o3''))]\<rparr>)]\<rparr>]\<rparr>"

lemma codex_normal: "normal_rules codex_rules"
  by (simp add: normal_rules_def codex_rules_def normal_rule_def normal_config_def normal_map_def normal_settings_def)

theorem rule_set_roundtrip_witness: "read_rule_set (rule_set_json codex_rules) = Some codex_rules"
  by (rule rule_set_roundtrip [OF codex_normal])

section \<open>What reading guarantees\<close>

lemma read_fields_inv:
  "read_fields fs kvs a = Some a' \<Longrightarrow> P a \<Longrightarrow>
     (\<And>name f v b b'. (name, f) \<in> set fs \<Longrightarrow> P b \<Longrightarrow> f v b = Some b' \<Longrightarrow> P b') \<Longrightarrow> P a'"
proof (induction kvs arbitrary: a)
  case (Cons kv kvs)
  obtain k v where kv: "kv = (k, v)" by fastforce
  with Cons.prems(1) obtain name f b where f: "find (\<lambda>(name, f). fold_name (js name) = fold_name k) fs = Some (name, f)"
      "f v a = Some b" "read_fields fs kvs b = Some a'"
    by (auto split: option.splits simp: bind_eq_Some_conv)
  then have "(name, f) \<in> set fs" using find_Some_mem by fastforce
  with f(2) Cons.prems(2,3) have "P b" by blast
  with Cons.IH [OF f(3)] Cons.prems(3) show ?case by blast
qed simp

lemma read_struct_inv:
  "read_struct fs d a = Some a' \<Longrightarrow> P a \<Longrightarrow>
     (\<And>name f v b b'. (name, f) \<in> set fs \<Longrightarrow> P b \<Longrightarrow> f v b = Some b' \<Longrightarrow> P b') \<Longrightarrow> P a'"
  by (auto simp: read_struct_def split: json.splits intro: read_fields_inv)

lemma read_entries_distinct: "read_entries f kvs m = Some m' \<Longrightarrow> distinct (map fst m) \<Longrightarrow> distinct (map fst m')"
  by (induction f kvs m rule: read_entries.induct) (auto simp: bind_eq_Some_conv distinct_put)

lemma read_map_distinct: "read_map f d m = Some m' \<Longrightarrow> distinct (map fst m) \<Longrightarrow> distinct (map fst m')"
  by (auto simp: read_map_def read_entries_distinct split: json.splits)

lemma read_all_set: "read_all f xs = Some ys \<Longrightarrow> y \<in> set ys \<Longrightarrow> \<exists>x. f x = Some y"
  by (induction xs arbitrary: ys) (auto split: option.splits)

lemma read_rule_distinct: "read_rule d = Some r \<Longrightarrow> distinct (map fst (ru_agents r))"
  unfolding read_rule_def
  by (rule read_struct_inv [where P = "\<lambda>r. distinct (map fst (ru_agents r))"], assumption)
    (auto simp: empty_rule_def dest: read_map_distinct)

lemma read_rules_distinct: "read_all read_rule xs = Some rs \<Longrightarrow> r \<in> set rs \<Longrightarrow> distinct (map fst (ru_agents r))"
  using read_all_set [of read_rule xs rs r] read_rule_distinct by blast

lemma read_rule_set_wf: "read_rule_set d = Some rs \<Longrightarrow> wf_rules rs"
  unfolding read_rule_set_def
  by (rule read_struct_inv [where P = wf_rules], assumption)
    (auto simp: zero_rule_set_def wf_rules_def read_slice_def intro: read_rules_distinct split: json.splits)

end
