(* ===== verification/ControlHandlers.thy ===== *)
theory ControlHandlers
  imports ControlAuth PolicyCheck AuditScreen
begin

text \<open>
  The handlers behind the guards: \<^verbatim>\<open>internal/handler/handler.go\<close>, \<^verbatim>\<open>enroll.go\<close>, \<^verbatim>\<open>groups.go\<close> and
  \<^verbatim>\<open>resolve.go\<close>, with the JSON of the types in \<^verbatim>\<open>internal/model\<close>. An administrative handler gets the
  actor the guard established; random values (a credential, an id) and the current time are arguments.
\<close>

section \<open>JSON of the model\<close>

definition num :: "int \<Rightarrow> json" where
  "num i = JNum (show_int i)"

definition omit_empty :: "string \<Rightarrow> jstr \<Rightarrow> (jstr \<times> json) list" where
  "omit_empty k s = omit_if (s = []) k (JStr s)"

definition revision_json :: "server \<Rightarrow> go_revision \<Rightarrow> json" where
  "revision_json sv r = JObj
     ([(js ''seq'', num (gr_seq r)), (js ''version'', JStr (gr_version r)), (js ''ruleSet'', rule_set_json (gr_ruleSet r)),
       (js ''createdAt'', JStr (sv_time sv (gr_createdAt r)))] @ omit_empty ''createdBy'' (gr_createdBy r))"

definition machine_json :: "server \<Rightarrow> go_machine \<Rightarrow> json" where
  "machine_json sv mc = JObj
     ([(js ''id'', JStr (gm_id mc)), (js ''user'', JStr (gm_user mc))] @
      omit_empty ''name'' (gm_name mc) @ omit_empty ''os'' (gm_os mc) @
      [(js ''enrolledAt'', JStr (sv_time sv (gm_enrolledAt mc))), (js ''lastSeenAt'', JStr (sv_time sv (gm_lastSeenAt mc)))] @
      omit_empty ''lastBundleVersion'' (gm_lastBundleVersion mc) @ omit_empty ''lastKeyId'' (gm_lastKeyID mc))"

section \<open>Request bodies\<close>

text \<open>
  A body is not JSON (with the decoder's message), or longer than its limit, or a value, together
  with what the decoder says when the value does not fit the type it is read into.
\<close>

datatype go_input = Malformed jstr | Too_large jstr | Parsed json jstr

definition decode :: "(json \<Rightarrow> 'a option) \<Rightarrow> go_input \<Rightarrow> jstr + 'a" where
  "decode reader body =
     (case body of
        Malformed e \<Rightarrow> Inl e
      | Too_large e \<Rightarrow> Inl e
      | Parsed d e \<Rightarrow> (case reader d of None \<Rightarrow> Inl e | Some x \<Rightarrow> Inr x))"

section \<open>Revisions\<close>

text \<open>\<open>validator\<close> is the managed validator, absent when none is configured; \<open>say\<close> words its errors.\<close>

definition postRevision :: "server \<Rightarrow> (jstr \<Rightarrow> settings \<Rightarrow> jstr option) option \<Rightarrow> (policy_error \<Rightarrow> jstr) \<Rightarrow> time \<Rightarrow> go_input \<Rightarrow> handler" where
  "postRevision sv validator say now body actor m =
     (case decode read_rule_set body of
        Inl e \<Rightarrow> (writeError 400 (js ''the request body is not a valid rule set: '' @ e), m)
      | Inr rs \<Rightarrow>
          (case (case validator of None \<Rightarrow> None | Some check \<Rightarrow> Validate check rs) of
             Some e \<Rightarrow> (writeError 422 (say e), m)
           | None \<Rightarrow>
               (let r = \<lparr>gr_seq = 0, gr_version = rs_version rs, gr_ruleSet = rs, gr_createdAt = now, gr_createdBy = actor\<rparr> in
                (case PutRuleSet now r (go_event_of now actor ''policy.revision.create'' (rs_version rs) []) m of
                   Inl e \<Rightarrow> (fail sv e, m)
                 | Inr m1 \<Rightarrow> (writeJSON 201 (revision_json sv r), m1)))))"

definition getRevisions :: "server \<Rightarrow> handler" where
  "getRevisions sv actor m = (writeJSON 200 (JArr (map (revision_json sv) (Revisions 50 m))), m)"

text \<open>The rule set in force, empty when no policy was applied.\<close>

definition current_rules :: "memory \<Rightarrow> rule_set" where
  "current_rules m = (case CurrentRuleSet m of Inl e \<Rightarrow> zero_rule_set | Inr r \<Rightarrow> gr_ruleSet r)"

definition document_json :: "policy_document \<Rightarrow> json" where
  "document_json d = JObj
     (omit_if (do_version d = []) ''version'' (JStr (do_version d)) @
      omit_if (do_agents d = []) ''agents'' (object_of config_json (do_agents d)) @
      omit_if (do_appliedRules d = []) ''appliedRules'' (strings_json (do_appliedRules d)))"

text \<open>\<open>getPolicy\<close> without its caching headers: \<open>groups\<close> are the \<open>group\<close> parameters, \<open>repo\<close> the first of its name.\<close>

definition getPolicy :: "jstr list \<Rightarrow> jstr \<Rightarrow> handler" where
  "getPolicy groups repo actor m =
     (writeJSON 200 (document_json (Compile (current_rules m) \<lparr>su_groups = groups, su_repo = repo\<rparr>)), m)"

section \<open>Durations\<close>

definition duration_unit :: "jstr \<Rightarrow> nat option" where
  "duration_unit u = map_of
     [(js ''ns'', 1), (js ''us'', 10 ^ 3), ([181, 115], 10 ^ 3), ([956, 115], 10 ^ 3), (js ''ms'', 10 ^ 6),
      (js ''s'', 10 ^ 9), (js ''m'', 60 * 10 ^ 9), (js ''h'', 3600 * 10 ^ 9)] u"

fun leading_int :: "nat \<Rightarrow> jstr \<Rightarrow> (nat \<times> jstr) option" where
  "leading_int x [] = Some (x, [])"
| "leading_int x (c # cs) =
     (if \<not> is_digit c then Some (x, c # cs)
      else if x > 2 ^ 63 div 10 then None
      else (let y = 10 * x + (c - 48) in if y > 2 ^ 63 then None else leading_int y cs))"

text \<open>A fraction whose digits no longer fit keeps the ones that do.\<close>

fun leading_fraction :: "nat \<Rightarrow> nat \<Rightarrow> bool \<Rightarrow> jstr \<Rightarrow> nat \<times> nat \<times> jstr" where
  "leading_fraction x scale overflow [] = (x, scale, [])"
| "leading_fraction x scale overflow (c # cs) =
     (if \<not> is_digit c then (x, scale, c # cs)
      else if overflow \<or> x > (2 ^ 63 - 1) div 10 then leading_fraction x scale True cs
      else (let y = 10 * x + (c - 48) in
        if y > 2 ^ 63 then leading_fraction x scale True cs else leading_fraction y (10 * scale) False cs))"

text \<open>
  One number with its unit. \<open>fl f unit scale\<close> is \<open>f * (unit / scale)\<close> in floating point, cut to a
  whole number of nanoseconds.
\<close>

definition read_quantity :: "(nat \<Rightarrow> nat \<Rightarrow> nat \<Rightarrow> nat) \<Rightarrow> jstr \<Rightarrow> (nat \<times> jstr) option" where
  "read_quantity fl s =
     (if s = [] \<or> \<not> (hd s = 46 \<or> is_digit (hd s)) then None
      else (case leading_int 0 s of
        None \<Rightarrow> None
      | Some (v, s1) \<Rightarrow>
          (let pre = length s1 \<noteq> length s; dot = s1 \<noteq> [] \<and> hd s1 = 46;
               (f, scale, s2) = (if dot then leading_fraction 0 1 False (tl s1) else (0, 1, s1));
               post = dot \<and> length s2 \<noteq> length (tl s1);
               u = takeWhile (\<lambda>c. \<not> (c = 46 \<or> is_digit c)) s2 in
           if \<not> pre \<and> \<not> post then None
           else if u = [] then None
           else (case duration_unit u of
             None \<Rightarrow> None
           | Some unit \<Rightarrow>
               (let v' = v * unit; w = (if f > 0 then v' + fl f unit scale else v') in
                if v > 2 ^ 63 div unit \<or> w > 2 ^ 63 then None
                else Some (w, drop (length u) s2))))))"

lemma leading_int_length: "leading_int x s = Some (v, r) \<Longrightarrow> length r \<le> length s"
  by (induction x s rule: leading_int.induct) (auto simp: Let_def split: if_splits)

lemma leading_fraction_length: "leading_fraction x sc ov s = (f, sc', r) \<Longrightarrow> length r \<le> length s"
  by (induction s arbitrary: x sc ov) (auto simp: Let_def split: if_splits intro: le_SucI)

lemma read_quantity_shorter: "read_quantity fl s = Some (v, r) \<Longrightarrow> length r < length s"
proof -
  assume some: "read_quantity fl s = Some (v, r)"
  then obtain x s1 where s1: "leading_int 0 s = Some (x, s1)" "s \<noteq> []"
    by (auto simp: read_quantity_def split: if_splits option.splits)
  obtain f sc s2 where s2: "(if s1 \<noteq> [] \<and> hd s1 = 46 then leading_fraction 0 1 False (tl s1) else (0, 1, s1)) = (f, sc, s2)"
    by (metis prod_cases3)
  let ?u = "takeWhile (\<lambda>c. \<not> (c = 46 \<or> is_digit c)) s2"
  from some s1 s2 have "?u \<noteq> []" "r = drop (length ?u) s2"
    by (auto simp: read_quantity_def Let_def split: if_splits option.splits)
  moreover have "length ?u \<le> length s2" by (rule length_takeWhile_le)
  ultimately have "length r < length s2" by (cases s2) (auto split: if_splits)
  moreover have "length s2 \<le> length s1"
    using s2 leading_fraction_length [of 0 1 False "tl s1" f sc s2] by (cases s1) (auto split: if_splits)
  ultimately show ?thesis using leading_int_length [OF s1(1)] by simp
qed

function read_quantities :: "(nat \<Rightarrow> nat \<Rightarrow> nat \<Rightarrow> nat) \<Rightarrow> nat \<Rightarrow> jstr \<Rightarrow> nat option" where
  "read_quantities fl d s =
     (if s = [] then Some d
      else (case read_quantity fl s of
        None \<Rightarrow> None
      | Some (v, r) \<Rightarrow> if d + v > 2 ^ 63 then None else read_quantities fl (d + v) r))"
  by pat_completeness auto
termination
  by (relation "measure (\<lambda>(fl, d, s). length s)") (auto dest: read_quantity_shorter)

declare read_quantities.simps [simp del]

definition ParseDuration :: "(nat \<Rightarrow> nat \<Rightarrow> nat \<Rightarrow> nat) \<Rightarrow> jstr \<Rightarrow> int option" where
  "ParseDuration fl s =
     (let neg = s \<noteq> [] \<and> hd s = 45; s1 = (if s \<noteq> [] \<and> (hd s = 45 \<or> hd s = 43) then tl s else s) in
      if s1 = js ''0'' then Some 0
      else if s1 = [] then None
      else (case read_quantities fl 0 s1 of
        None \<Rightarrow> None
      | Some d \<Rightarrow> if neg then Some (- int d) else if d > 2 ^ 63 - 1 then None else Some (int d)))"

section \<open>Enrollment\<close>

definition defaultTokenTTL :: time where
  "defaultTokenTTL = 24 * hour"

definition maxTokenTTL :: time where
  "maxTokenTTL = 7 * 24 * hour"

definition bad_body :: "jstr \<Rightarrow> go_response" where
  "bad_body e = writeError 400 (js ''the request body is not valid: '' @ e)"

definition read_token_request :: "json \<Rightarrow> (jstr \<times> jstr) option" where
  "read_token_request d = read_struct
     [(''user'', \<lambda>v (u, t). map_option (\<lambda>x. (x, t)) (read_go_string v u)),
      (''ttl'', \<lambda>v (u, t). map_option (\<lambda>x. (u, x)) (read_go_string v t))] d ([], [])"

text \<open>The lifetime asked for, or the status and message that refuse it.\<close>

definition requested_ttl :: "(nat \<Rightarrow> nat \<Rightarrow> nat \<Rightarrow> nat) \<Rightarrow> jstr \<Rightarrow> go_response + time" where
  "requested_ttl fl raw =
     (if raw = [] then Inr defaultTokenTTL
      else (case ParseDuration fl raw of
        None \<Rightarrow> Inl (writeError 422 (js ''ttl must be a positive duration such as 24h''))
      | Some d \<Rightarrow>
          (if d \<le> 0 then Inl (writeError 422 (js ''ttl must be a positive duration such as 24h''))
           else if d > maxTokenTTL then Inl (writeError 422 (js ''ttl must be at most 168h''))
           else Inr d)))"

text \<open>\<open>secret\<close> is the fresh credential; a signing control plane appends the id of its key.\<close>

definition postEnrollmentToken :: "server \<Rightarrow> (nat \<Rightarrow> nat \<Rightarrow> nat \<Rightarrow> nat) \<Rightarrow> jstr \<Rightarrow> time \<Rightarrow> go_input \<Rightarrow> handler" where
  "postEnrollmentToken sv fl secret now body actor m =
     (case decode read_token_request body of
        Inl e \<Rightarrow> (bad_body e, m)
      | Inr (user, raw) \<Rightarrow>
          (if user = [] then (writeError 422 (js ''user is required''), m)
           else (case requested_ttl fl raw of
             Inl refusal \<Rightarrow> (refusal, m)
           | Inr ttl \<Rightarrow>
               (let plain = secret @ (case sv_keyId sv of None \<Rightarrow> [] | Some k \<Rightarrow> 46 # k);
                    expires = now + ttl; stamp = JStr (sv_time sv expires) in
                (case PutEnrollmentToken now
                    \<lparr>gt_hash = sv_hash sv plain, gt_user = user, gt_expiresAt = expires, gt_usedAt = zero_time\<rparr>
                    (go_event_of now actor ''enrollment_token.create'' user [(js ''expiresAt'', stamp)]) m of
                   Inl e \<Rightarrow> (fail sv e, m)
                 | Inr m1 \<Rightarrow>
                     (writeJSON 201 (JObj [(js ''expiresAt'', stamp), (js ''token'', JStr plain), (js ''user'', JStr user)]), m1))))))"

definition read_enroll_request :: "json \<Rightarrow> (jstr \<times> jstr \<times> jstr) option" where
  "read_enroll_request d = read_struct
     [(''token'', \<lambda>v (t, n, s). map_option (\<lambda>x. (x, n, s)) (read_go_string v t)),
      (''name'', \<lambda>v (t, n, s). map_option (\<lambda>x. (t, x, s)) (read_go_string v n)),
      (''os'', \<lambda>v (t, n, s). map_option (\<lambda>x. (t, n, x)) (read_go_string v s))] d ([], [], [])"

text \<open>The one write without a guard: the token is the credential. \<open>pub\<close> is the public key machines pin.\<close>

definition postEnroll :: "server \<Rightarrow> jstr \<Rightarrow> jstr \<Rightarrow> jstr \<Rightarrow> time \<Rightarrow> go_input \<Rightarrow> memory \<Rightarrow> go_response \<times> memory" where
  "postEnroll sv pub mid secret now body m =
     (case decode read_enroll_request body of
        Inl e \<Rightarrow> (bad_body e, m)
      | Inr (token, name, os) \<Rightarrow>
          (if token = [] then (writeError 422 (js ''token is required''), m)
           else (case ConsumeEnrollmentToken (sv_hash sv token) now m of
             Inl e \<Rightarrow> (fail sv e, m)
           | Inr (user, m1) \<Rightarrow>
               (case PutMachine (zero_machine\<lparr>gm_id := mid, gm_user := user, gm_name := name, gm_os := os,
                    gm_credentialHash := sv_hash sv secret, gm_enrolledAt := now\<rparr>) m1 of
                  Inl e \<Rightarrow> (fail sv e, m1)
                | Inr m2 \<Rightarrow>
                    (writeJSON 201 (JObj
                       ([(js ''credential'', JStr secret)] @
                        (case sv_keyId sv of None \<Rightarrow> [] | Some k \<Rightarrow> [(js ''keyId'', JStr k)]) @
                        [(js ''machineId'', JStr mid)] @
                        (case sv_keyId sv of None \<Rightarrow> [] | Some k \<Rightarrow> [(js ''publicKey'', JStr pub)]) @
                        [(js ''user'', JStr user)])), m2)))))"

definition getMachines :: "server \<Rightarrow> handler" where
  "getMachines sv actor m = (writeJSON 200 (JArr (map (machine_json sv) (ListMachines m))), m)"

definition machine_detail :: "jstr \<Rightarrow> go_machine list \<Rightarrow> json go_map" where
  "machine_detail mid machines = foldl (\<lambda>detail mc.
     if gm_id mc = mid
     then [(js ''user'', JStr (gm_user mc)), (js ''name'', JStr (gm_name mc)), (js ''os'', JStr (gm_os mc))]
     else detail) [] machines"

definition deleteMachine :: "server \<Rightarrow> time \<Rightarrow> jstr \<Rightarrow> handler" where
  "deleteMachine sv now mid actor m =
     (case DeleteMachine now mid
        (go_event_of now actor ''machine.revoke'' mid (machine_detail mid (ListMachines m))) m of
        Inl e \<Rightarrow> (fail sv e, m)
      | Inr m1 \<Rightarrow> (noContent, m1))"

section \<open>Groups\<close>

definition read_groups_request :: "json \<Rightarrow> (jstr \<times> group_lists option) option" where
  "read_groups_request d = read_struct
     [(''source'', \<lambda>v (s, ms). map_option (\<lambda>x. (x, ms)) (read_go_string v s)),
      (''members'', \<lambda>v (s, ms). if v = JNull then Some (s, None)
         else map_option (\<lambda>x. (s, Some x)) (read_map read_groups v (nullish ms [])))] d ([], None)"

definition distinct_groups :: "group_lists \<Rightarrow> jstr list" where
  "distinct_groups members = remdups (concat (map (\<lambda>(user, groups). nullish groups []) members))"

definition summary_fields :: "server \<Rightarrow> snapshot \<Rightarrow> (jstr \<times> json) list" where
  "summary_fields sv s =
     [(js ''source'', JStr (sn_source s))] @ omit_empty ''appliedBy'' (sn_appliedBy s) @
     [(js ''syncedAt'', JStr (sv_time sv (sn_syncedAt s))), (js ''users'', num (int (length (sn_members s)))),
      (js ''groups'', num (int (length (distinct_groups (sn_members s)))))]"

definition detail_fields :: "server \<Rightarrow> snapshot \<Rightarrow> (jstr \<times> json) list" where
  "detail_fields sv s = summary_fields sv s @ [(js ''members'', object_of groups_json (sn_members s))]"

definition putGroups :: "server \<Rightarrow> time \<Rightarrow> go_input \<Rightarrow> handler" where
  "putGroups sv now body actor m =
     (case body of
        Too_large e \<Rightarrow> (writeError 413 (js ''the snapshot exceeds 8388608 bytes''), m)
      | _ \<Rightarrow>
          (case decode read_groups_request body of
             Inl e \<Rightarrow> (writeError 400 (js ''the request body is not a valid group snapshot: '' @ e), m)
           | Inr (source, None) \<Rightarrow> (writeError 422 (js ''the snapshot has no members object''), m)
           | Inr (source, Some members) \<Rightarrow>
               (case validate_members members of
                  Some e \<Rightarrow> (writeError 422 (drop (length (js ''store: '')) (error_text (sv_quote sv) e)), m)
                | None \<Rightarrow>
                    (let s = \<lparr>sn_seq = 0, sn_source = source, sn_appliedBy = actor, sn_syncedAt = now, sn_members = members\<rparr> in
                     (case PutGroupSnapshot now s (go_event_of now actor ''groups.snapshot.apply'' []
                         [(js ''source'', JStr source), (js ''users'', num (int (length members))),
                          (js ''groups'', num (int (length (distinct_groups members))))]) m of
                        Inl e \<Rightarrow> (fail sv e, m)
                      | Inr m1 \<Rightarrow> (writeJSON 200 (JObj (summary_fields sv s)), m1))))))"

definition getGroups :: "server \<Rightarrow> handler" where
  "getGroups sv actor m =
     (let snapshot = CurrentGroupSnapshot m; (users, active, groups) = SCIMCounts m; scim = sv_scimToken sv \<noteq> [] in
      if (\<exists>e. snapshot = Inl e) \<and> (\<not> scim \<or> users = 0 \<and> active = 0 \<and> groups = 0)
      then (writeError 404 (js ''no group snapshot has been posted and SCIM holds nothing''), m)
      else
        (writeJSON 200 (JObj
           ((case snapshot of Inl e \<Rightarrow> [] | Inr s \<Rightarrow> detail_fields sv s) @
            [(js ''hasSnapshot'', JBool (\<exists>s. snapshot = Inr s))] @
            (if scim then
               [(js ''scim'', JObj [(js ''users'', num (int users)), (js ''activeUsers'', num (int active)),
                  (js ''groups'', num (int groups))])]
             else []))), m))"

record user_groups =
  ug_authored :: "jstr list"
  ug_snapshot :: "jstr list"
  ug_scim :: "jstr list"
  ug_effective :: "jstr list"

definition resolveGroups :: "server \<Rightarrow> rule_set \<Rightarrow> jstr \<Rightarrow> memory \<Rightarrow> user_groups" where
  "resolveGroups sv rs user m =
     (let authored = UnionGroups [GroupsFor rs user];
          synced = (case CurrentGroupSnapshot m of
            Inl e \<Rightarrow> [] | Inr s \<Rightarrow> UnionGroups [groups_at (sn_members s) user]);
          scim = (if sv_scimToken sv = [] then [] else SCIMGroupsFor user m) in
      \<lparr>ug_authored = authored, ug_snapshot = synced, ug_scim = scim, ug_effective = UnionGroups [authored, synced, scim]\<rparr>)"

definition near_match :: "(jstr \<Rightarrow> jstr) \<Rightarrow> jstr \<Rightarrow> memory \<Rightarrow> jstr option" where
  "near_match lower user m =
     (case first_scim_user lower user m of
        None \<Rightarrow> None | Some u \<Rightarrow> if su_userName u \<noteq> user then Some (su_userName u) else None)"

definition getGroupsResolve :: "server \<Rightarrow> (jstr \<Rightarrow> jstr) \<Rightarrow> (jstr \<times> jstr) list \<Rightarrow> handler" where
  "getGroupsResolve sv lower params actor m =
     (let user = query_get params (js ''user'') in
      if user = [] then (writeError 400 (js ''the user query parameter is required''), m)
      else
        (let g = resolveGroups sv (current_rules m) user m;
             near = (if sv_scimToken sv = [] then None else near_match lower user m) in
         (writeJSON 200 (JObj
            [(js ''user'', JStr user), (js ''authored'', strings_json (ug_authored g)),
             (js ''snapshot'', strings_json (ug_snapshot g)), (js ''scim'', strings_json (ug_scim g)),
             (js ''effective'', strings_json (ug_effective g)),
             (js ''scimNearMatch'', (case near of None \<Rightarrow> JNull | Some n \<Rightarrow> JStr n))]), m)))"

section \<open>The bundle of a machine\<close>

text \<open>
  What \<open>getBundle\<close> decides before it signs and writes: the slice for the machine's user, and that the
  machine was seen. A failing write is only logged.
\<close>

definition revised_at :: "memory \<Rightarrow> int" where
  "revised_at m = (case CurrentRuleSet m of Inl e \<Rightarrow> 0 | Inr r \<Rightarrow> gr_createdAt r div 1000000)"

definition served_bundle :: "server \<Rightarrow> go_machine \<Rightarrow> memory \<Rightarrow> policy_bundle" where
  "served_bundle sv mc m =
     (Slice (current_rules m) (ug_effective (resolveGroups sv (current_rules m) (gm_user mc) m)))
       \<lparr>bu_user := gm_user mc, bu_revisedAt := revised_at m\<rparr>"

definition getBundle :: "server \<Rightarrow> time \<Rightarrow> jstr \<Rightarrow> (policy_bundle \<Rightarrow> go_response) \<Rightarrow> go_machine \<Rightarrow> memory \<Rightarrow> go_response \<times> memory" where
  "getBundle sv now keyHeader answer mc m =
     (let b = served_bundle sv mc m in
      (answer b, (case TouchMachine (gm_id mc) now (bu_version b) keyHeader m of Inl e \<Rightarrow> m | Inr m1 \<Rightarrow> m1)))"

end
