(* ===== verification/ControlServer.thy ===== *)
theory ControlServer
  imports ControlAdmission ControlHandlers
begin

text \<open>
  The control plane as a whole: \<open>serve\<close> answers one request, with its guard (\<open>Handler.Routes\<close> of
  \<^verbatim>\<open>internal/handler/handler.go\<close>), and a run of the server is any sequence of requests at any times.
  Every run is a run of the store, so the store's invariant and the laws of its interface hold of it.
\<close>

section \<open>Requests\<close>

record service =
  sc_server :: server
  sc_validator :: "(jstr \<Rightarrow> settings \<Rightarrow> jstr option) option"
  sc_say :: "policy_error \<Rightarrow> jstr"
  sc_fraction :: "nat \<Rightarrow> nat \<Rightarrow> nat \<Rightarrow> nat"
  sc_lower :: "jstr \<Rightarrow> jstr"
  sc_publicKey :: jstr

definition wire_event :: "server \<Rightarrow> go_event \<Rightarrow> audit_event" where
  "wire_event sv e =
     \<lparr>ae_id = ev_id e, ae_at = sv_time sv (ev_at e), ae_actor = ev_actor e, ae_action = ev_action e,
      ae_target = (if ev_target e = [] then None else Some (ev_target e)),
      ae_detail = (if ev_detail e = [] then None else Some (canon (JObj (ev_detail e))))\<rparr>"

definition audit_event_json :: "audit_event \<Rightarrow> json" where
  "audit_event_json e = JObj
     ([(js ''id'', num (ae_id e)), (js ''at'', JStr (ae_at e)), (js ''actor'', JStr (ae_actor e)),
       (js ''action'', JStr (ae_action e))] @
      (case ae_target e of None \<Rightarrow> [] | Some t \<Rightarrow> [(js ''target'', JStr t)]) @
      (case ae_detail e of None \<Rightarrow> [] | Some d \<Rightarrow> [(js ''detail'', d)]))"

definition serve_audit :: "server \<Rightarrow> (jstr \<times> jstr) list \<Rightarrow> handler" where
  "serve_audit sv params actor m =
     (case getAudit (map (wire_event sv) (m_audit m)) params of
        AuditOk es \<Rightarrow> (writeJSON 200 (JArr (map audit_event_json es)), m)
      | AuditBad e \<Rightarrow> (writeError 400 e, m))"

datatype admin_call =
    PostRevision go_input
  | GetRevisions
  | GetPolicy "jstr list" jstr
  | PostToken jstr go_input
  | GetMachines
  | RevokeMachine jstr
  | PutGroups go_input
  | GetGroups
  | ResolveGroups "(jstr \<times> jstr) list"
  | GetAudit "(jstr \<times> jstr) list"

fun run_admin :: "service \<Rightarrow> time \<Rightarrow> admin_call \<Rightarrow> handler" where
  "run_admin svc now (PostRevision body) = postRevision (sc_server svc) (sc_validator svc) (sc_say svc) now body"
| "run_admin svc now GetRevisions = getRevisions (sc_server svc)"
| "run_admin svc now (GetPolicy groups repo) = getPolicy groups repo"
| "run_admin svc now (PostToken secret body) = postEnrollmentToken (sc_server svc) (sc_fraction svc) secret now body"
| "run_admin svc now GetMachines = getMachines (sc_server svc)"
| "run_admin svc now (RevokeMachine i) = deleteMachine (sc_server svc) now i"
| "run_admin svc now (PutGroups body) = putGroups (sc_server svc) now body"
| "run_admin svc now GetGroups = getGroups (sc_server svc)"
| "run_admin svc now (ResolveGroups params) = getGroupsResolve (sc_server svc) (sc_lower svc) params"
| "run_admin svc now (GetAudit params) = serve_audit (sc_server svc) params"

datatype call =
    Administer go_request admin_call
  | Enroll jstr jstr go_input
  | FetchBundle jstr "policy_bundle \<Rightarrow> go_response" go_request
  | Me go_request
  | Logout go_request
  | Callback jstr "attempt \<Rightarrow> jstr \<Rightarrow> sso_error + jstr" "(jstr \<times> jstr) list" go_request
  | SweepSessions
  | Provision scim_data

text \<open>Without a console its paths are not found; the sweeper and SCIM answer nobody here.\<close>

definition page_not_found :: go_response where
  "page_not_found = \<lparr>rs_status = 404, rs_body = Error_page (js ''404 page not found''), rs_cookies = [], rs_location = None\<rparr>"

definition with_console :: "service \<Rightarrow> (console_config \<Rightarrow> memory \<Rightarrow> go_response \<times> memory) \<Rightarrow> memory \<Rightarrow> go_response \<times> memory" where
  "with_console svc f m = (case sv_console (sc_server svc) of None \<Rightarrow> (page_not_found, m) | Some c \<Rightarrow> f c m)"

fun serve :: "service \<Rightarrow> time \<Rightarrow> call \<Rightarrow> memory \<Rightarrow> go_response \<times> memory" where
  "serve svc now (Administer r c) m = requireAdmin (sc_server svc) now (run_admin svc now c) r m"
| "serve svc now (Enroll i secret body) m = postEnroll (sc_server svc) (sc_publicKey svc) i secret now body m"
| "serve svc now (FetchBundle key answer r) m = requireMachine (sc_server svc) (getBundle (sc_server svc) now key answer) r m"
| "serve svc now (Me r) m = with_console svc (\<lambda>c. consoleMe (sc_server svc) c now r) m"
| "serve svc now (Logout r) m = with_console svc (\<lambda>c. consoleLogout (sc_server svc) c now r) m"
| "serve svc now (Callback token finish q r) m =
     with_console svc (\<lambda>c. consoleCallback (sc_server svc) c now token finish q r) m"
| "serve svc now SweepSessions m = with_console svc (\<lambda>c m. (noContent, Sweep c now m)) m"
| "serve svc now (Provision d) m = (noContent, m\<lparr>m_scim := d\<rparr>)"

definition serve_step :: "service \<Rightarrow> memory \<Rightarrow> time \<times> call \<Rightarrow> memory \<Rightarrow> bool" where
  "serve_step svc m e m' \<longleftrightarrow> snd (serve svc (fst e) (snd e) m) = m'"

text \<open>A request that puts a new policy in force, and a sequence of requests without one.\<close>

definition posts_policy :: "service \<Rightarrow> memory \<Rightarrow> time \<times> call \<Rightarrow> bool" where
  "posts_policy svc m e \<longleftrightarrow>
     (case snd e of Administer r (PostRevision body) \<Rightarrow> rs_status (fst (serve svc (fst e) (snd e) m)) < 300 | _ \<Rightarrow> False)"

fun policy_stands :: "service \<Rightarrow> memory \<Rightarrow> (time \<times> call) list \<Rightarrow> bool" where
  "policy_stands svc m [] \<longleftrightarrow> True"
| "policy_stands svc m (e # es) \<longleftrightarrow>
     \<not> posts_policy svc m e \<and> policy_stands svc (snd (serve svc (fst e) (snd e) m)) es"

lemma fail_status: "rs_status (fail sv e) \<in> {404, 409, 422}"
  by (cases "wraps e") (simp_all add: fail_def)

lemma fail_not_ok [simp]: "\<not> rs_status (fail sv e) < 300"
  using fail_status [of sv e] by auto

section \<open>Handlers drive the store\<close>

text \<open>
  A relation on stores that is reflexive and transitive and holds of every operation holds of every
  request. Enrolling is the operation some relations only allow for certain machines, and posting a
  revision one they may not allow at all.
\<close>

locale store_relation =
  fixes R :: "memory \<Rightarrow> memory \<Rightarrow> bool"
    and enrolls :: "go_machine \<Rightarrow> bool"
    and revises :: bool
  assumes R_refl [simp, intro]: "R m m"
    and R_trans: "R a b \<Longrightarrow> R b c \<Longrightarrow> R a c"
    and operation: "store_step m op m' \<Longrightarrow> (\<And>mc. op = OpMachine mc \<Longrightarrow> enrolls mc) \<Longrightarrow>
      (\<And>c r e. op = OpRevision c r e \<Longrightarrow> revises) \<Longrightarrow> R m m'"
begin

lemma R_ops:
  "PutRuleSet c r e m = Inr m' \<Longrightarrow> revises \<Longrightarrow> R m m'" "PutEnrollmentToken c t e m = Inr m' \<Longrightarrow> R m m'"
  "ConsumeEnrollmentToken h now m = Inr (u, m') \<Longrightarrow> R m m'"
  "TouchMachine i seen v k m = Inr m' \<Longrightarrow> R m m'" "DeleteMachine c i e m = Inr m' \<Longrightarrow> R m m'"
  "PutGroupSnapshot c s e m = Inr m' \<Longrightarrow> R m m'" "CreateSession s' m = Inr m' \<Longrightarrow> R m m'"
  "TouchSession h now m = Inr m' \<Longrightarrow> R m m'" "RecordAudit c e m = Inr m' \<Longrightarrow> R m m'"
  "R m (DeleteSession h m)" "R m (DeleteSessionsFor u m)" "R m (DeleteExpiredSessions a b m)"
  "R m (m\<lparr>m_scim := d\<rparr>)"
  using operation [of m "OpRevision c r e" m'] operation [of m "OpToken c t e" m'] operation [of m "OpConsume h now" m']
    operation [of m "OpTouch i seen v k" m'] operation [of m "OpRevoke c i e" m']
    operation [of m "OpSnapshot c s e" m'] operation [of m "OpSession s'" m'] operation [of m "OpSeen h now" m']
    operation [of m "OpRecord c e" m'] operation [of m "OpDropSession h"] operation [of m "OpDropUser u"]
    operation [of m "OpSweep a b"] operation [of m "OpProvision d"]
  by (simp_all add: store_step_def)

lemma put_machine: "PutMachine mc m = Inr m' \<Longrightarrow> enrolls mc \<Longrightarrow> R m m'"
  using operation [of m "OpMachine mc" m'] by (simp add: store_step_def)

lemma R_admin:
  assumes "run_admin svc now c actor m = (res, m')" "\<And>body. c = PostRevision body \<Longrightarrow> rs_status res < 300 \<Longrightarrow> revises"
  shows "R m m'"
proof (cases c)
  case (PostRevision body)
  with assms show ?thesis
    by (auto simp: postRevision_def Let_def writeJSON_def intro: R_ops split: sum.splits option.splits)
next
  case (PostToken secret body)
  with assms show ?thesis
    by (auto simp: postEnrollmentToken_def Let_def intro: R_ops split: sum.splits option.splits if_splits prod.splits)
next
  case (RevokeMachine i)
  with assms show ?thesis by (auto simp: deleteMachine_def intro: R_ops split: sum.splits)
next
  case (PutGroups body)
  with assms show ?thesis
    by (auto simp: putGroups_def Let_def intro: R_ops split: go_input.splits sum.splits option.splits prod.splits)
next
  case (GetGroups)
  with assms show ?thesis by (auto simp: getGroups_def Let_def split: prod.splits if_splits)
qed (use assms in \<open>auto simp: getRevisions_def getPolicy_def getMachines_def getGroupsResolve_def serve_audit_def Let_def
      split: audit_response.splits if_splits\<close>)

lemma R_lookup: "Lookup sv c now token m = (x, m') \<Longrightarrow> R m m'"
  by (auto simp: Lookup_def Let_def intro: R_ops split: sum.splits if_splits)

lemma R_user: "consoleUser sv c now r m = (x, m') \<Longrightarrow> R m m'"
  by (auto simp: consoleUser_def Let_def split: prod.splits sum.splits admin_answer.splits if_splits
      intro: R_lookup R_trans [OF R_lookup] R_ops)

lemma R_denied: "R m (denied now actor reason m)"
  by (auto simp: denied_def intro: R_ops split: sum.splits)

lemma R_record:
  "R m (case RecordAudit c e m of Inl x \<Rightarrow> m | Inr m' \<Rightarrow> m')"
  by (auto intro: R_ops split: sum.splits)

lemma R_enroll:
  "postEnroll sv pub i secret now body m = (res, m') \<Longrightarrow> (\<And>mc. gm_credentialHash mc = sv_hash sv secret \<Longrightarrow> enrolls mc) \<Longrightarrow>
     R m m'"
  by (auto simp: postEnroll_def intro: R_ops R_trans [OF R_ops(3) put_machine]
      split: sum.splits prod.splits if_splits)

lemma R_bundle: "getBundle sv now key answer mc m = (res, m') \<Longrightarrow> R m m'"
  by (auto simp: getBundle_def Let_def intro: R_ops split: sum.splits)

lemma R_logout: "consoleLogout sv c now r m = (res, m') \<Longrightarrow> R m m'"
  by (auto simp: consoleLogout_def Let_def split: prod.splits sum.splits if_splits
      intro: R_trans [OF R_lookup R_ops(10)]
        R_trans [OF R_lookup R_trans [OF R_ops(9) R_ops(10)]])

lemma R_sign_in: "sign_in sv c now token user m = (res, m') \<Longrightarrow> R m m'"
  by (auto simp: sign_in_def Create_def split: admin_answer.splits sum.splits if_splits
      intro: R_denied R_trans [OF R_ops(7) R_ops(9)] R_trans [OF R_ops(7) R_ops(10)])

lemma R_callback:
  assumes "consoleCallback sv c now token finish q r m = (res, m')"
  shows "R m m'"
proof -
  have stale: "stale_link sv c now r m = (res1, m1) \<Longrightarrow> R m m1" for res1 m1
    by (auto simp: stale_link_def Let_def split: option.splits prod.splits sum.splits intro: R_lookup)
  have login: "finish_login sv c now token f m = (res1, m1) \<Longrightarrow> R m m1" for f res1 m1
    by (auto simp: finish_login_def split: sum.splits sso_error.splits intro: R_denied R_sign_in)
  obtain res1 where "answer_callback sv c now token finish q r m = (res1, m')"
    using assms by (cases "answer_callback sv c now token finish q r m") (auto simp: consoleCallback_def)
  then show ?thesis
    by (auto simp: answer_callback_def split: option.splits if_splits intro: stale login R_denied)
qed

lemma R_require:
  assumes "requireAdmin sv now handler r m = (res, m')"
    and "\<And>actor m1. handler actor m1 = (res, m') \<Longrightarrow> R m1 m'"
  shows "R m m'"
proof -
  have token: "tokenAdmin sv handler r m = (res, m') \<Longrightarrow> R m m'"
    by (auto simp: tokenAdmin_def Let_def split: if_splits intro: assms(2))
  have console: "consoleAdmin sv c now handler r m = (res, m') \<Longrightarrow> R m m'" for c
    by (auto simp: consoleAdmin_def split: if_splits prod.splits sum.splits
        intro: R_user R_trans [OF R_user assms(2)])
  from assms(1) token console show ?thesis
    by (auto simp: requireAdmin_def split: option.splits if_splits)
qed

lemma R_serve:
  assumes "serve svc now c m = (res, m')"
    and "\<And>i secret body mc. c = Enroll i secret body \<Longrightarrow> gm_credentialHash mc = sv_hash (sc_server svc) secret \<Longrightarrow> enrolls mc"
    and "posts_policy svc m (now, c) \<Longrightarrow> revises"
  shows "R m m'"
proof (cases c)
  case (Administer r c')
  with assms(1) have "requireAdmin (sc_server svc) now (run_admin svc now c') r m = (res, m')" by simp
  then show ?thesis
  proof (rule R_require)
    fix actor m1 assume run: "run_admin svc now c' actor m1 = (res, m')"
    show "R m1 m'"
      by (rule R_admin [OF run], rule assms(3)) (use Administer assms(1) in \<open>simp add: posts_policy_def del: serve.simps\<close>)
  qed
next
  case (FetchBundle key answer r)
  with assms show ?thesis
    by (auto simp: requireMachine_def Let_def split: if_splits sum.splits intro: R_bundle)
next
  case (Me r)
  with assms show ?thesis
    by (auto simp: with_console_def consoleMe_def split: option.splits prod.splits sum.splits intro: R_user)
next
  case (Callback token finish q r)
  with assms show ?thesis by (auto simp: with_console_def split: option.splits intro: R_callback)
next
  case (Logout r)
  with assms show ?thesis by (auto simp: with_console_def split: option.splits intro: R_logout)
next
  case (Enroll i secret body)
  with assms show ?thesis using R_enroll [of "sc_server svc" "sc_publicKey svc" i secret now body m res m'] by auto
next
  case SweepSessions
  with assms show ?thesis by (auto simp: with_console_def Sweep_def split: option.splits intro: R_ops)
next
  case (Provision d)
  with assms show ?thesis by (auto intro: R_ops)
qed

lemma R_served:
  "trace (serve_step svc) m reqs m' \<Longrightarrow>
     (\<And>now i secret body mc. (now, Enroll i secret body) \<in> set reqs \<Longrightarrow>
        gm_credentialHash mc = sv_hash (sc_server svc) secret \<Longrightarrow> enrolls mc) \<Longrightarrow>
     (\<not> policy_stands svc m reqs \<Longrightarrow> revises) \<Longrightarrow> R m m'"
proof (induction rule: trace.induct)
  case (trace_Cons s e t es u)
  have "R s t"
  proof (rule R_serve)
    show "serve svc (fst e) (snd e) s = (fst (serve svc (fst e) (snd e) s), t)"
      using trace_Cons(1) by (simp add: serve_step_def prod_eq_iff)
    show "enrolls mc" if "snd e = Enroll i secret body" "gm_credentialHash mc = sv_hash (sc_server svc) secret" for i secret body mc
      using that trace_Cons.prems(1) [of "fst e" i secret body mc] by (metis list.set_intros(1) prod.collapse)
    show "revises" if "posts_policy svc s (fst e, snd e)" using that trace_Cons.prems(2) by simp
  qed
  moreover have "R t u"
  proof (rule trace_Cons.IH)
    show "revises" if "\<not> policy_stands svc t es"
      using that trace_Cons.prems(2) trace_Cons(1) by (simp add: serve_step_def)
  qed (use trace_Cons.prems(1) in \<open>meson list.set_intros(2)\<close>)
  ultimately show ?case by (rule R_trans)
qed simp

end

text \<open>Every request is a run of the store.\<close>

definition driven :: "memory \<Rightarrow> memory \<Rightarrow> bool" where
  "driven m m' \<longleftrightarrow> (\<exists>ops. trace store_step m ops m')"

interpretation driven: store_relation driven "\<lambda>mc. True" True
proof unfold_locales
  show "driven m m" for m unfolding driven_def by (rule exI [of _ "[]"]) simp
  show "driven a c" if "driven a b" "driven b c" for a b c
    using that unfolding driven_def by (meson trace_append)
  show "driven m m'" if "store_step m op m'" for m op m'
    using that unfolding driven_def by (intro exI [of _ "[op]"]) (simp add: trace_Cons_iff)
qed

text \<open>A credential nobody holds stays unknown until a machine enrolls with it.\<close>

definition stays_unknown :: "jstr \<Rightarrow> memory \<Rightarrow> memory \<Rightarrow> bool" where
  "stays_unknown h m m' \<longleftrightarrow> m_byHash m' h = None \<or> m_byHash m h \<noteq> None"

interpretation unknown: store_relation "stays_unknown h" "\<lambda>mc. gm_credentialHash mc \<noteq> h" True for h
  by unfold_locales (auto simp: stays_unknown_def dest: byHash_stays)

text \<open>The policy in force is what it was until another one is posted.\<close>

definition same_revisions :: "memory \<Rightarrow> memory \<Rightarrow> bool" where
  "same_revisions m m' \<longleftrightarrow> m_revisions m' = m_revisions m"

interpretation same_revisions: store_relation same_revisions "\<lambda>mc. True" False
proof unfold_locales
  show "same_revisions m m'"
    if "store_step m op m'" "\<And>c r e. op = OpRevision c r e \<Longrightarrow> False" for m op m'
    using that by (cases op) (auto simp: same_revisions_def step_simps drop_defs)
qed (simp_all add: same_revisions_def)

lemma driven_wf: "driven m m' \<Longrightarrow> wf_memory m \<Longrightarrow> wf_memory m'"
  unfolding driven_def using store.trace_inv by blast

interpretation served: invariant_machine "\<lambda>m. m = NewMemory" "serve_step svc" wf_memory for svc
proof unfold_locales
  show "wf_memory s" if "s = NewMemory" for s using that wf_NewMemory by simp
  show "wf_memory t" if "wf_memory s" "serve_step svc s e t" for s e t
    using that driven_wf driven.R_serve [of svc "fst e" "snd e" s] by (metis prod.collapse serve_step_def)
qed

end
