(* ===== verification/ControlPlane.thy ===== *)
theory ControlPlane
  imports ControlServer
begin

text \<open>
  What holds of the control plane as a whole: its runs are runs of the store, its writes are those of
  authenticated actors and are in the log, a posted policy is the one machines get, a revoked machine
  gets none, and its tokens are short-lived.
\<close>

section \<open>A sample server\<close>

definition sample_service :: service where
  "sample_service =
     \<lparr>sc_server = sample_server, sc_validator = None, sc_say = (\<lambda>e. []), sc_fraction = (\<lambda>f u s. f * u div s),
      sc_lower = (\<lambda>s. s), sc_publicKey = []\<rparr>"

lemma sample_configured: "well_configured (sc_server sample_service)"
  by (simp add: sample_service_def well_configured_def sample_server_def sample_console_def)

lemma sample_admin: "serve sample_service now (Administer token_request c) m = run_admin sample_service now c (js ''token:ops'') m"
proof -
  have fields: "rq_authorization token_request = js ''Bearer key''" "sv_console sample_server = Some sample_console"
      "sc_server sample_service = sample_server"
    by (simp_all add: token_request_def sample_server_def sample_service_def)
  have "matched_name (js ''hkey'') [(js ''ops'', js ''hkey'')] = js ''ops''" by (simp add: matched_name_def)
  moreover have "js ''token:'' @ js ''ops'' = js ''token:ops''" by (simp add: js_append [symmetric])
  ultimately show ?thesis
    by (simp add: requireAdmin_def tokenAdmin_def fields sample_bearer sample_hash sample_tokens)
qed

section \<open>Writes\<close>

fun write_action :: "admin_call \<Rightarrow> jstr option" where
  "write_action (PostRevision body) = Some (js ''policy.revision.create'')"
| "write_action (PostToken secret body) = Some (js ''enrollment_token.create'')"
| "write_action (RevokeMachine i) = Some (js ''machine.revoke'')"
| "write_action (PutGroups body) = Some (js ''groups.snapshot.apply'')"
| "write_action c = None"

lemma audited:
  "PutRuleSet c r e m = Inr m' \<Longrightarrow> m_audit m' = m_audit m @ [logged (m_nextAudit m + 1) c e]"
  "PutEnrollmentToken c t e m = Inr m' \<Longrightarrow> m_audit m' = m_audit m @ [logged (m_nextAudit m + 1) c e]"
  "DeleteMachine c i e m = Inr m' \<Longrightarrow> m_audit m' = m_audit m @ [logged (m_nextAudit m + 1) c e]"
  "PutGroupSnapshot c s e m = Inr m' \<Longrightarrow> m_audit m' = m_audit m @ [logged (m_nextAudit m + 1) c e]"
  using step_simps(1) [of m c r e m'] step_simps(2) [of m c t e m'] step_simps(6) [of m c i e m'] step_simps(7) [of m c s e m']
  by (auto simp: store_step_def)

lemma logged_fields [simp]: "ev_actor (logged n c e) = ev_actor e" "ev_action (logged n c e) = ev_action e"
  by (simp_all add: logged_def)

lemma event_fields [simp]: "ev_actor (go_event_of now a b t d) = a" "ev_action (go_event_of now a b t d) = js b"
  by (simp_all add: go_event_of_def)

text \<open>A handler either writes with its event or leaves the store alone.\<close>

definition attributed :: "jstr \<Rightarrow> jstr option \<Rightarrow> memory \<Rightarrow> memory \<Rightarrow> bool" where
  "attributed actor action m m' \<longleftrightarrow>
     (\<exists>e. m_audit m' = m_audit m @ [e] \<and> ev_actor e = actor \<and> Some (ev_action e) = action)"

lemma attributedI:
  "m_audit m' = m_audit m @ [logged n c e] \<Longrightarrow> ev_actor e = actor \<Longrightarrow> Some (ev_action e) = action \<Longrightarrow>
     attributed actor action m m'"
  unfolding attributed_def by (intro exI [of _ "logged n c e"]) simp

lemma run_admin_writes:
  assumes "run_admin svc now c actor m = (res, m')"
  shows "if write_action c \<noteq> None \<and> rs_status res < 300 then attributed actor (write_action c) m m' else m' = m"
proof (cases c)
  case (PostRevision body)
  with assms show ?thesis
    by (auto simp: postRevision_def Let_def split: sum.splits option.splits intro!: attributedI dest: audited)
next
  case (PostToken secret body)
  have "rs_status refusal = 422" if "requested_ttl f raw = Inl refusal" for f raw refusal
    using that by (auto simp: requested_ttl_def split: if_splits option.splits)
  with PostToken assms show ?thesis
    by (auto simp: postEnrollmentToken_def bad_body_def Let_def split: sum.splits if_splits prod.splits
        intro!: attributedI dest: audited)
next
  case (RevokeMachine i)
  with assms show ?thesis
    by (auto simp: deleteMachine_def noContent_def split: sum.splits intro!: attributedI dest: audited)
next
  case (PutGroups body)
  with assms show ?thesis
    by (auto simp: putGroups_def Let_def split: go_input.splits sum.splits option.splits prod.splits
        intro!: attributedI dest: audited)
qed (use assms in \<open>auto simp: getRevisions_def getPolicy_def getMachines_def getGroups_def getGroupsResolve_def serve_audit_def
      Let_def split: audit_response.splits if_splits prod.splits\<close>)

text \<open>C4. Every administrative write is made by an actor whose credentials the request carries and leaves
  exactly one event in the log that names the actor and the action; every other administrative
  request, refused, failed or reading, changes nothing but sessions.\<close>

theorem every_write_attributed:
  assumes "well_configured (sc_server svc)" "serve svc now (Administer r c) m = (res, m')"
  shows "if write_action c \<noteq> None \<and> rs_status res < 300
    then \<exists>actor m1. credentials (sc_server svc) now r m actor \<and> sessions_only m m1 \<and> attributed actor (write_action c) m1 m'
    else sessions_only m m'"
proof (cases "\<exists>actor. credentials (sc_server svc) now r m actor")
  case True
  with admin_decides [OF assms(1), of now r m] obtain actor m1 where
    ok: "credentials (sc_server svc) now r m actor" "sessions_only m m1" "admits (sc_server svc) now r m actor m1"
    by (auto simp: decides_def)
  with assms(2) have "run_admin svc now c actor m1 = (res, m')" by (simp add: admits_def)
  from run_admin_writes [OF this] ok(1,2) show ?thesis by (auto split: if_splits)
next
  case False
  with admin_decides [OF assms(1), of now r m] obtain res1 m1 where
    no: "rs_status res1 \<in> {401, 403, 503}" "sessions_only m m1" "refuses (sc_server svc) now r m res1 m1"
    unfolding decides_def by (auto simp only: if_False)
  with assms(2) have "res = res1" "m' = m1" by (auto simp: refuses_def)
  with no show ?thesis by auto
qed

section \<open>Runs\<close>

text \<open>The HTTP layer adds no behaviour of its own to the store: whatever requests a server answers, in
  whatever order and at whatever times, its state is the result of a sequence of store operations,
  so the indexes agree, the numbers are in order and the log has no gap.\<close>

theorem server_runs_store:
  assumes "trace (serve_step svc) NewMemory reqs m"
  shows "wf_memory m \<and> (\<exists>ops. trace store_step NewMemory ops m \<and>
    map stripped (m_audit m) = map stripped (concat (map op_events ops)))"
proof -
  have "wf_memory m" by (rule served.reachable_inv [OF refl assms])
  moreover obtain ops where "trace store_step NewMemory ops m"
    using driven.R_served [OF assms] by (auto simp: driven_def)
  moreover from this have "map stripped (m_audit m) = map stripped (concat (map op_events ops))"
    using trace_log by (fastforce simp: NewMemory_def)
  ultimately show ?thesis by blast
qed

section \<open>Policies\<close>

lemma insort_last: "\<forall>y \<in> set ys. f y < f x \<Longrightarrow> insort_key f x ys = ys @ [x]" for f :: "'a \<Rightarrow> int"
  by (induction ys) auto

lemma newest_first:
  assumes "wf_revisions m"
  shows "sort_key (\<lambda>r. - gr_seq r) (m_revisions m) = rev (m_revisions m)"
proof -
  have "sorted_wrt (<) (map gr_seq rs) \<Longrightarrow> sort_key (\<lambda>r. - gr_seq r) rs = rev rs" for rs
    by (induction rs) (auto simp: insort_last)
  then show ?thesis using assms unfolding wf_revisions_def by blast
qed

lemma CurrentRuleSet_last:
  assumes "wf_revisions m"
  shows "CurrentRuleSet m = (if m_revisions m = [] then Inl NoPolicy else Inr (last (m_revisions m)))"
proof (cases "m_revisions m" rule: rev_cases)
  case (snoc rs r)
  show ?thesis unfolding CurrentRuleSet_def Revisions_def newest_first [OF assms] by (simp add: snoc Let_def)
qed (simp add: CurrentRuleSet_def Revisions_def Let_def)

lemma sessions_only_fields:
  assumes "sessions_only m m'"
  shows "m_revisions m' = m_revisions m" "m_versions m' = m_versions m" "m_nextSeq m' = m_nextSeq m"
    "m_machines m' = m_machines m" "m_byHash m' = m_byHash m" "m_order m' = m_order m" "m_tokens m' = m_tokens m"
    "m_snapshots m' = m_snapshots m" "m_audit m' = m_audit m" "m_nextAudit m' = m_nextAudit m" "m_scim m' = m_scim m"
  using assms by (auto simp: sessions_only_def)

text \<open>An accepted request ran its handler.\<close>

lemma accepted_ran:
  assumes "well_configured (sc_server svc)" "serve svc now (Administer r c) m = (res, m')" "rs_status res < 300"
  obtains actor m1 where "credentials (sc_server svc) now r m actor" "sessions_only m m1"
    "run_admin svc now c actor m1 = (res, m')"
proof (cases "\<exists>actor. credentials (sc_server svc) now r m actor")
  case True
  with admin_decides [OF assms(1), of now r m] obtain actor m1 where
    ok: "credentials (sc_server svc) now r m actor" "sessions_only m m1" "admits (sc_server svc) now r m actor m1"
    by (auto simp: decides_def)
  with assms(2) that show thesis by (simp add: admits_def)
next
  case False
  with admin_decides [OF assms(1), of now r m] obtain res1 m1 where
    "rs_status res1 \<in> {401, 403, 503}" "refuses (sc_server svc) now r m res1 m1"
    unfolding decides_def by (auto simp only: if_False)
  with assms(2,3) have False by (auto simp: refuses_def)
  then show thesis ..
qed

lemma posted_is_current:
  assumes "postRevision sv validator say now body actor m = (res, m')" "rs_status res < 300" "wf_revisions m"
  obtains rs where "decode read_rule_set body = Inr rs" "current_rules m' = rs"
    "m_snapshots m' = m_snapshots m" "m_scim m' = m_scim m" "rs_version rs \<notin> m_versions m"
    "case validator of None \<Rightarrow> True | Some check \<Rightarrow> valid_policy check rs"
proof -
  from assms(1,2) obtain rs where rs: "decode read_rule_set body = Inr rs"
      "(case validator of None \<Rightarrow> None | Some check \<Rightarrow> Validate check rs) = None"
    and put: "PutRuleSet now \<lparr>gr_seq = 0, gr_version = rs_version rs, gr_ruleSet = rs, gr_createdAt = now, gr_createdBy = actor\<rparr>
        (go_event_of now actor ''policy.revision.create'' (rs_version rs) []) m = Inr m'" (is "PutRuleSet _ ?r ?e m = _")
    by (auto simp: postRevision_def Let_def split: sum.splits option.splits)
  from put have step: "store_step m (OpRevision now ?r ?e) m'" by (simp add: store_step_def)
  from step_revisions [OF this assms(3)] have wf: "wf_revisions m'" .
  have "m_revisions m' = m_revisions m @ [?r\<lparr>gr_seq := m_nextSeq m + 1\<rparr>]" "m_snapshots m' = m_snapshots m"
    "m_scim m' = m_scim m" "rs_version rs \<notin> m_versions m"
    using step by (auto simp: step_simps)
  moreover from this have "current_rules m' = rs" by (simp add: current_rules_def CurrentRuleSet_last [OF wf])
  moreover have "case validator of None \<Rightarrow> True | Some check \<Rightarrow> valid_policy check rs"
    using rs(2) by (cases validator) (simp_all add: validate_accepts)
  ultimately show thesis using that rs(1) by blast
qed

lemma decode_wf: "decode read_rule_set body = Inr rs \<Longrightarrow> wf_rules rs"
  by (auto simp: decode_def dest: read_rule_set_wf split: go_input.splits option.splits)

lemma posted_current:
  assumes "trace (serve_step svc) NewMemory reqs m" "well_configured (sc_server svc)"
    and "serve svc now (Administer r (PostRevision body)) m = (res, m')" "rs_status res < 300"
  obtains rs where "decode read_rule_set body = Inr rs" "rs_version rs \<notin> m_versions m" "current_rules m' = rs"
    "case sc_validator svc of None \<Rightarrow> True | Some check \<Rightarrow> valid_policy check rs"
proof -
  have wf: "wf_revisions m" using served.reachable_inv [OF refl assms(1)] by (simp add: wf_memory_def)
  obtain actor m1 where ok: "sessions_only m m1" "run_admin svc now (PostRevision body) actor m1 = (res, m')"
    using accepted_ran [OF assms(2-4)] by blast
  then have "wf_revisions m1" using wf sessions_only_fields [OF ok(1)] by (simp add: wf_revisions_def)
  with ok(2) assms(4) obtain rs where rs: "decode read_rule_set body = Inr rs" "current_rules m' = rs"
      "rs_version rs \<notin> m_versions m1" "case sc_validator svc of None \<Rightarrow> True | Some check \<Rightarrow> valid_policy check rs"
    using posted_is_current [of "sc_server svc" "sc_validator svc" "sc_say svc" now body actor m1 res m'] by auto
  with that sessions_only_fields(2) [OF ok(1)] show thesis by metis
qed

text \<open>Every machine compiles exactly the rules of \<open>rs\<close> that apply to its user's groups and a repository.\<close>

definition enforced :: "server \<Rightarrow> rule_set \<Rightarrow> memory \<Rightarrow> bool" where
  "enforced sv rs m \<longleftrightarrow>
     (\<forall>mc repo a.
        let s = \<lparr>su_groups = ug_effective (resolveGroups sv rs (gm_user mc) m), su_repo = repo\<rparr>;
            d = bundle_Compile (served_bundle sv mc m) repo in
        do_appliedRules d = map ru_name (applicable rs s) \<and>
        map_of (do_agents d) a = layered a (configs_of a (applicable rs s)))"

lemma current_enforced:
  assumes "current_rules m = rs" "wf_rules rs"
  shows "enforced sv rs m"
proof -
  have compile: "bundle_Compile (served_bundle sv mc m) repo =
      Compile rs \<lparr>su_groups = ug_effective (resolveGroups sv rs (gm_user mc) m), su_repo = repo\<rparr>" for mc repo
    by (simp add: served_bundle_def assms(1) Compile_def bundle_Compile_def)
  show ?thesis unfolding enforced_def compile Let_def using Compile_layers [OF assms(2)] by auto
qed

text \<open>A posted policy stays current as long as no other is accepted.\<close>

lemma policy_stays:
  assumes "trace (serve_step svc) m later m'" "policy_stands svc m later" "wf_revisions m" "wf_revisions m'"
  shows "current_rules m' = current_rules m"
proof -
  have "same_revisions m m'" using same_revisions.R_served [OF assms(1)] assms(2) by blast
  then show ?thesis
    by (simp add: same_revisions_def current_rules_def CurrentRuleSet_last [OF assms(3)] CurrentRuleSet_last [OF assms(4)])
qed

text \<open>C8. A policy the control plane accepts is in force at once, for every machine: it is the rule set of the
  request, checked, under a version never used before, and what a machine compiles from its bundle
  for a repository are exactly its rules that apply to the user's groups there, layered in order.\<close>

theorem posted_policy_reaches_machines:
  assumes "trace (serve_step svc) NewMemory reqs m" "well_configured (sc_server svc)"
    and "serve svc now (Administer r (PostRevision body)) m = (res, m')" "rs_status res < 300"
  shows "\<exists>rs. decode read_rule_set body = Inr rs \<and> rs_version rs \<notin> m_versions m \<and>
    (case sc_validator svc of None \<Rightarrow> True | Some check \<Rightarrow> valid_policy check rs) \<and>
    (\<forall>mc repo a.
       let s = \<lparr>su_groups = ug_effective (resolveGroups (sc_server svc) rs (gm_user mc) m'), su_repo = repo\<rparr>;
           d = bundle_Compile (served_bundle (sc_server svc) mc m') repo in
       do_appliedRules d = map ru_name (applicable rs s) \<and>
       map_of (do_agents d) a = layered a (configs_of a (applicable rs s)))"
proof -
  obtain rs where "decode read_rule_set body = Inr rs" "rs_version rs \<notin> m_versions m" "current_rules m' = rs"
    "case sc_validator svc of None \<Rightarrow> True | Some check \<Rightarrow> valid_policy check rs"
    using posted_current [OF assms] by blast
  with current_enforced [OF _ decode_wf] show ?thesis unfolding enforced_def by metis
qed

section \<open>Machines\<close>

lemma sessions_only_wf_machines: "sessions_only m m' \<Longrightarrow> wf_machines m \<Longrightarrow> wf_machines m'"
  by (auto simp: sessions_only_def wf_machines_def)

lemma revoked_stays_refused:
  assumes "trace (serve_step svc) NewMemory before m" "well_configured (sc_server svc)" "m_machines m i = Some mc"
    and "serve svc now (Administer r (RevokeMachine i)) m = (res, m1)" "rs_status res = 204"
    and "trace (serve_step svc) m1 later m2"
    and "\<forall>t j secret body. (t, Enroll j secret body) \<in> set later \<longrightarrow> sv_hash (sc_server svc) secret \<noteq> gm_credentialHash mc"
    and "bearer (rq_authorization r') \<noteq> []" "sv_hash (sc_server svc) (bearer (rq_authorization r')) = gm_credentialHash mc"
  shows "serve svc now' (FetchBundle key answer r') m2 = (writeError 401 (js ''unauthorized''), m2)"
proof -
  have wf: "wf_machines m" using served.reachable_inv [OF refl assms(1)] by (simp add: wf_memory_def)
  have ok: "rs_status res < 300" using assms(5) by simp
  obtain actor m0 where run: "sessions_only m m0" "run_admin svc now (RevokeMachine i) actor m0 = (res, m1)"
    using accepted_ran [OF assms(2,4) ok] by blast
  then obtain e where del: "DeleteMachine now i e m0 = Inr m1"
    using ok by (auto simp: deleteMachine_def split: sum.splits)
  have wf0: "wf_machines m0" using sessions_only_wf_machines [OF run(1) wf] .
  have mc: "m_machines m0 i = Some mc" using assms(3) sessions_only_fields(4) [OF run(1)] by simp
  have "mc \<in> set (registry m0)" "gm_id mc = i"
    using mc wf_machines_facts(3) [OF wf0 mc] by (simp_all add: in_registry [OF wf0])
  from machines.revoked_is_unknown [OF wf0 del this]
  have "m_byHash m1 (gm_credentialHash mc) = None"
    by (cases "m_byHash m1 (gm_credentialHash mc)") (auto simp: MachineByCredential_def)
  moreover have "stays_unknown (gm_credentialHash mc) m1 m2"
    by (rule unknown.R_served [OF assms(6)]) (use assms(7) in auto)
  ultimately have "m_byHash m2 (gm_credentialHash mc) = None" by (simp add: stays_unknown_def)
  with assms(8,9) show ?thesis by (simp add: requireMachine_def MachineByCredential_def)
qed

text \<open>C17. A machine whose revocation was answered with 204 gets nothing from then on: whatever happens in
  between, a bundle request with its credential is answered 401 and changes nothing, unless another
  machine enrolled with a credential of the same hash.\<close>

theorem revoked_machine_refused:
  assumes "trace (serve_step svc) NewMemory before m" "well_configured (sc_server svc)" "m_machines m i = Some mc"
    and "serve svc now (Administer r (RevokeMachine i)) m = (res, m1)" "rs_status res = 204"
    and "trace (serve_step svc) m1 later m2"
    and "\<forall>t j secret body. (t, Enroll j secret body) \<in> set later \<longrightarrow> sv_hash (sc_server svc) secret \<noteq> gm_credentialHash mc"
    and "bearer (rq_authorization r') \<noteq> []" "sv_hash (sc_server svc) (bearer (rq_authorization r')) = gm_credentialHash mc"
  shows "serve svc now' (FetchBundle key answer r') m2 = (writeError 401 (js ''unauthorized''), m2)"
  by (rule revoked_stays_refused [OF assms])

section \<open>Enrollment tokens\<close>

lemma requested_ttl_bounds: "requested_ttl f raw = Inr d \<Longrightarrow> 0 < d \<and> d \<le> 7 * 24 * hour"
  by (auto simp: requested_ttl_def defaultTokenTTL_def maxTokenTTL_def hour_def split: if_splits option.splits)

text \<open>C31. A token the control plane hands out is for the user asked for, is stored only as a hash, has not
  been used, and expires within a week; the answer names the same time. What lifetime the request
  names, and how, makes no difference.\<close>

theorem minted_token_expires:
  assumes "well_configured (sc_server svc)" "serve svc now (Administer r (PostToken secret body)) m = (res, m')" "rs_status res < 300"
  shows "\<exists>user raw plain t. decode read_token_request body = Inr (user, raw) \<and> user \<noteq> [] \<and>
    m_tokens m' = (m_tokens m)(sv_hash (sc_server svc) plain \<mapsto> t) \<and> m_tokens m (sv_hash (sc_server svc) plain) = None \<and>
    gt_user t = user \<and> gt_usedAt t = zero_time \<and> now < gt_expiresAt t \<and> gt_expiresAt t \<le> now + 7 * 24 * hour \<and>
    rs_body res = Json_body (JObj [(js ''expiresAt'', JStr (sv_time (sc_server svc) (gt_expiresAt t))), (js ''token'', JStr plain),
      (js ''user'', JStr user)])"
proof -
  obtain actor m1 where ok: "sessions_only m m1" "run_admin svc now (PostToken secret body) actor m1 = (res, m')"
    using accepted_ran [OF assms] by blast
  have refuse: "rs_status refusal = 422" if "requested_ttl f raw = Inl refusal" for f raw refusal
    using that by (auto simp: requested_ttl_def split: if_splits option.splits)
  from ok(2) assms(3) refuse obtain user raw ttl where req: "decode read_token_request body = Inr (user, raw)" "user \<noteq> []"
      "requested_ttl (sc_fraction svc) raw = Inr ttl"
    by (auto simp: postEnrollmentToken_def bad_body_def split: sum.splits if_splits prod.splits)
  define plain where "plain = secret @ (case sv_keyId (sc_server svc) of None \<Rightarrow> [] | Some k \<Rightarrow> 46 # k)"
  define t where "t = \<lparr>gt_hash = sv_hash (sc_server svc) plain, gt_user = user, gt_expiresAt = now + ttl, gt_usedAt = zero_time\<rparr>"
  define at' where "at' = JStr (sv_time (sc_server svc) (now + ttl))"
  have put: "PutEnrollmentToken now t (go_event_of now actor ''enrollment_token.create'' user [(js ''expiresAt'', at')]) m1 = Inr m'"
    and body: "rs_body res = Json_body (JObj [(js ''expiresAt'', at'), (js ''token'', JStr plain), (js ''user'', JStr user)])"
    using ok(2) assms(3) req
    by (auto simp: postEnrollmentToken_def Let_def plain_def t_def at'_def writeJSON_def split: sum.splits)
  from put have "m_tokens m' = (m_tokens m1)(gt_hash t \<mapsto> t)" "m_tokens m1 (gt_hash t) = None"
    using step_simps(2) [of m1 now t _ m'] by (auto simp: store_step_def)
  then have "m_tokens m' = (m_tokens m)(sv_hash (sc_server svc) plain \<mapsto> t)" "m_tokens m (sv_hash (sc_server svc) plain) = None"
    using sessions_only_fields(7) [OF ok(1)] by (simp_all add: t_def)
  with req(1,2) body requested_ttl_bounds [OF req(3)] show ?thesis
    by (intro exI [of _ user] exI [of _ raw] exI [of _ plain] exI [of _ t]) (simp add: t_def at'_def)
qed

section \<open>Witnesses\<close>

definition token_body :: go_input where
  "token_body = Parsed (JObj [(js ''user'', JStr (js ''u''))]) []"

lemma token_body_read: "decode read_token_request token_body = Inr (js ''u'', [])"
  by (simp add: token_body_def decode_def read_token_request_def read_struct_def)

lemma sample_token:
  "serve sample_service 1 (Administer token_request (PostToken (js ''s'') token_body)) NewMemory = (res, m') \<Longrightarrow> rs_status res = 201"
  unfolding sample_admin
  by (auto simp: postEnrollmentToken_def token_body_read requested_ttl_def Let_def PutEnrollmentToken_def validate_event_def
      go_event_of_def writeJSON_def NewMemory_def sample_service_def sample_server_def)

theorem every_write_attributed_witness:
  "\<exists>res m' actor m1. serve sample_service 1 (Administer token_request (PostToken (js ''s'') token_body)) NewMemory = (res, m') \<and>
     attributed actor (Some (js ''enrollment_token.create'')) m1 m'"
proof -
  obtain res m' where run: "serve sample_service 1 (Administer token_request (PostToken (js ''s'') token_body)) NewMemory = (res, m')"
    by fastforce
  from every_write_attributed [OF sample_configured run] sample_token [OF run] run show ?thesis by auto
qed

theorem minted_token_expires_witness:
  "\<exists>res m' (t :: go_token). serve sample_service 1 (Administer token_request (PostToken (js ''s'') token_body)) NewMemory = (res, m') \<and>
     gt_user t = js ''u'' \<and> gt_expiresAt t \<le> 1 + 7 * 24 * hour"
proof -
  obtain res m' where run: "serve sample_service 1 (Administer token_request (PostToken (js ''s'') token_body)) NewMemory = (res, m')"
    by fastforce
  have "rs_status res < 300" using sample_token [OF run] by simp
  from minted_token_expires [OF sample_configured run this] obtain user raw and t :: go_token where
    "decode read_token_request token_body = Inr (user, raw)" "gt_user t = user" "gt_expiresAt t \<le> 1 + 7 * 24 * hour"
    by blast
  with run token_body_read show ?thesis by auto
qed

theorem server_runs_store_witness:
  "\<exists>m. trace (serve_step sample_service) NewMemory [(1, Administer token_request (PostToken (js ''s'') token_body))] m \<and> wf_memory m"
proof -
  obtain m where run: "trace (serve_step sample_service) NewMemory [(1, Administer token_request (PostToken (js ''s'') token_body))] m"
    by (simp add: trace_Cons_iff serve_step_def)
  from server_runs_store [OF run] run show ?thesis by blast
qed

lemma first_revision:
  "rs_version rs \<noteq> [] \<Longrightarrow> validate_event e = None \<Longrightarrow>
     PutRuleSet c \<lparr>gr_seq = 0, gr_version = rs_version rs, gr_ruleSet = rs, gr_createdAt = c, gr_createdBy = a\<rparr> e NewMemory =
       Inr (appendAudit c e (NewMemory\<lparr>m_nextSeq := 1, m_versions := {rs_version rs},
         m_revisions := [\<lparr>gr_seq = 1, gr_version = rs_version rs, gr_ruleSet = rs, gr_createdAt = c, gr_createdBy = a\<rparr>]\<rparr>))"
  by (simp add: PutRuleSet_def NewMemory_def)

theorem posted_policy_reaches_machines_witness:
  "\<exists>res m'. serve sample_service 1 (Administer token_request (PostRevision (Parsed (rule_set_json codex_rules) []))) NewMemory = (res, m') \<and>
     do_appliedRules (bundle_Compile (served_bundle (sc_server sample_service) (zero_machine\<lparr>gm_user := js ''ann''\<rparr>) m') []) = [js ''r'']"
proof -
  let ?body = "Parsed (rule_set_json codex_rules) []" and ?mc = "zero_machine\<lparr>gm_user := js ''ann''\<rparr>"
  obtain res m' where run: "serve sample_service 1 (Administer token_request (PostRevision ?body)) NewMemory = (res, m')"
    by fastforce
  have dec: "decode read_rule_set ?body = Inr codex_rules"
    by (simp add: decode_def read_rule_set_json [OF codex_normal])
  have version: "rs_version codex_rules \<noteq> []" by (simp add: codex_rules_def)
  from run have ok: "rs_status res = 201"
    unfolding sample_admin
    by (auto simp: postRevision_def dec Let_def first_revision [OF version] validate_event_def go_event_of_def writeJSON_def sample_service_def)
  have none: "trace (serve_step sample_service) NewMemory [] NewMemory" by simp
  let ?s = "\<lparr>su_groups = ug_effective (resolveGroups (sc_server sample_service) codex_rules (gm_user ?mc) m'), su_repo = []\<rparr>"
  from posted_policy_reaches_machines [OF none sample_configured run] ok dec
  have "do_appliedRules (bundle_Compile (served_bundle (sc_server sample_service) ?mc m') []) = map ru_name (applicable codex_rules ?s)"
    by (auto simp: Let_def)
  moreover have "js ''eng'' \<in> set (ug_effective (resolveGroups (sc_server sample_service) codex_rules (js ''ann'') m'))"
    by (simp add: resolveGroups_def Let_def GroupsFor_def groups_at_def codex_rules_def)
  then have "map ru_name (applicable codex_rules ?s) = [js ''r'']"
    by (simp add: applicable_def codex_rules_def Matches_def anyIn_def list_ex_iff)
  ultimately show ?thesis using run by auto
qed

definition join_body :: go_input where
  "join_body = Parsed (JObj [(js ''token'', JStr (js ''s''))]) []"

definition enrolled_machine :: go_machine where
  "enrolled_machine = zero_machine\<lparr>gm_id := js ''m'', gm_user := js ''u'', gm_credentialHash := 104 # js ''c'', gm_enrolledAt := 2\<rparr>"

lemma join_body_read: "decode read_enroll_request join_body = Inr (js ''s'', [], [])"
  by (simp add: join_body_def decode_def read_enroll_request_def read_struct_def)

lemma sample_enrolled:
  obtains m where "trace (serve_step sample_service) NewMemory
      [(1, Administer token_request (PostToken (js ''s'') token_body)), (2, Enroll (js ''m'') (js ''c'') join_body)] m"
    "m_machines m (js ''m'') = Some enrolled_machine" "m_sessions m = Map.empty" "m_snapshots m = []"
proof -
  obtain m1 where minted: "serve_step sample_service NewMemory (1, Administer token_request (PostToken (js ''s'') token_body)) m1"
    by (simp add: serve_step_def)
  obtain m2 where enrolled: "serve_step sample_service m1 (2, Enroll (js ''m'') (js ''c'') join_body) m2"
    by (simp add: serve_step_def)
  have "m_tokens m1 (104 # js ''s'') =
      Some \<lparr>gt_hash = 104 # js ''s'', gt_user = js ''u'', gt_expiresAt = 1 + defaultTokenTTL, gt_usedAt = zero_time\<rparr>"
    "m_machines m1 = Map.empty" "m_byHash m1 = Map.empty" "m_sessions m1 = Map.empty" "m_snapshots m1 = []"
    using minted unfolding serve_step_def fst_conv snd_conv sample_admin
    by (auto simp: postEnrollmentToken_def token_body_read requested_ttl_def Let_def PutEnrollmentToken_def validate_event_def
        appendAudit_def go_event_of_def NewMemory_def sample_service_def sample_server_def)
  with enrolled have "m_machines m2 (js ''m'') = Some enrolled_machine \<and> m_sessions m2 = Map.empty \<and> m_snapshots m2 = []"
    by (auto simp: serve_step_def postEnroll_def join_body_read ConsumeEnrollmentToken_def PutMachine_def enrolled_machine_def
        defaultTokenTTL_def hour_def minute_def sample_service_def sample_server_def zero_machine_def)
  then show thesis using that minted enrolled by (auto simp: trace_Cons_iff)
qed

theorem revoked_machine_refused_witness:
  "\<exists>res m m1. m_machines m (js ''m'') = Some enrolled_machine \<and>
     serve sample_service 3 (Administer token_request (RevokeMachine (js ''m''))) m = (res, m1) \<and> rs_status res = 204 \<and>
     serve sample_service 4 (FetchBundle [] (\<lambda>b. noContent) (token_request\<lparr>rq_authorization := js ''Bearer c''\<rparr>)) m1 =
       (writeError 401 (js ''unauthorized''), m1)"
proof -
  let ?r = "token_request\<lparr>rq_authorization := js ''Bearer c''\<rparr>"
  obtain m where run: "trace (serve_step sample_service) NewMemory
      [(1, Administer token_request (PostToken (js ''s'') token_body)), (2, Enroll (js ''m'') (js ''c'') join_body)] m"
    and has: "m_machines m (js ''m'') = Some enrolled_machine"
    by (rule sample_enrolled)
  obtain res m1 where revoke: "serve sample_service 3 (Administer token_request (RevokeMachine (js ''m''))) m = (res, m1)" by fastforce
  then have ok: "rs_status res = 204"
    unfolding sample_admin
    by (auto simp: deleteMachine_def DeleteMachine_def has validate_event_def go_event_of_def noContent_def split: if_splits)
  have bearer: "bearer (rq_authorization ?r) = js ''c''"
    by (simp add: bearer_def js_def ascii_lower_def TrimSpace_def go_space_def)
  have "trace (serve_step sample_service) m1 [] m1" by simp
  from revoked_machine_refused [OF run sample_configured has revoke ok this, of ?r 4 "[]" "\<lambda>b. noContent"]
  have "serve sample_service 4 (FetchBundle [] (\<lambda>b. noContent) ?r) m1 = (writeError 401 (js ''unauthorized''), m1)"
    unfolding bearer by (simp add: enrolled_machine_def sample_service_def sample_server_def)
  with has revoke ok show ?thesis by blast
qed

end
