(* ===== verification/WireTypes.thy ===== *)
theory WireTypes
  imports ControlPlane
begin

text \<open>
  The types of \<^verbatim>\<open>console/src/types.ts\<close>, and what it means for a JSON value to have one: the console
  casts every answer to its type without looking, so what the control plane sends must have it.
\<close>

datatype ts_type =
    TsString | TsNumber | TsBoolean | TsNull | TsUnknown
  | TsArray ts_type
  | TsRecord ts_type
  | TsUnion ts_type ts_type
  | TsObject "(string \<times> bool \<times> ts_type) list"

text \<open>A field is its name, whether it is optional, and its type; a value may have more fields.\<close>

fun conforms :: "ts_type \<Rightarrow> json \<Rightarrow> bool" where
  "conforms TsString d \<longleftrightarrow> (case d of JStr s \<Rightarrow> True | _ \<Rightarrow> False)"
| "conforms TsNumber d \<longleftrightarrow> (case d of JNum l \<Rightarrow> True | _ \<Rightarrow> False)"
| "conforms TsBoolean d \<longleftrightarrow> (case d of JBool b \<Rightarrow> True | _ \<Rightarrow> False)"
| "conforms TsNull d \<longleftrightarrow> d = JNull"
| "conforms TsUnknown d \<longleftrightarrow> True"
| "conforms (TsArray t) d \<longleftrightarrow> (case d of JArr xs \<Rightarrow> list_all (conforms t) xs | _ \<Rightarrow> False)"
| "conforms (TsRecord t) d \<longleftrightarrow> (case d of JObj kvs \<Rightarrow> list_all (\<lambda>kv. conforms t (snd kv)) kvs | _ \<Rightarrow> False)"
| "conforms (TsUnion t u) d \<longleftrightarrow> conforms t d \<or> conforms u d"
| "conforms (TsObject fs) d \<longleftrightarrow> (case d of
     JObj kvs \<Rightarrow> list_all (\<lambda>f. case map_of kvs (js (fst f)) of None \<Rightarrow> fst (snd f) | Some v \<Rightarrow> conforms (snd (snd f)) v) fs
   | _ \<Rightarrow> False)"

definition Me_type :: ts_type where
  "Me_type = TsObject [(''user'', False, TsString), (''expiresAt'', False, TsString), (''signingKeyId'', True, TsString)]"

definition Revision_type :: ts_type where
  "Revision_type = TsObject
     [(''seq'', False, TsNumber), (''version'', False, TsString), (''ruleSet'', False, TsRecord TsUnknown),
      (''createdAt'', False, TsString), (''createdBy'', True, TsString)]"

definition Machine_type :: ts_type where
  "Machine_type = TsObject
     [(''id'', False, TsString), (''user'', False, TsString), (''name'', True, TsString), (''os'', True, TsString),
      (''enrolledAt'', False, TsString), (''lastSeenAt'', False, TsString), (''lastBundleVersion'', True, TsString),
      (''lastKeyId'', True, TsString)]"

definition ScimCounts_type :: ts_type where
  "ScimCounts_type = TsObject [(''users'', False, TsNumber), (''activeUsers'', False, TsNumber), (''groups'', False, TsNumber)]"

definition GroupsView_type :: ts_type where
  "GroupsView_type = TsObject
     [(''hasSnapshot'', False, TsBoolean), (''source'', True, TsString), (''appliedBy'', True, TsString),
      (''syncedAt'', True, TsString), (''users'', True, TsNumber), (''groups'', True, TsNumber),
      (''members'', True, TsRecord (TsArray TsString)), (''scim'', True, ScimCounts_type)]"

definition GroupSources_type :: ts_type where
  "GroupSources_type = TsObject
     [(''user'', False, TsString), (''authored'', False, TsArray TsString), (''snapshot'', False, TsArray TsString),
      (''scim'', False, TsArray TsString), (''effective'', False, TsArray TsString),
      (''scimNearMatch'', False, TsUnion TsString TsNull)]"

definition AuditEvent_type :: ts_type where
  "AuditEvent_type = TsObject
     [(''id'', False, TsNumber), (''at'', False, TsString), (''actor'', False, TsString), (''action'', False, TsString),
      (''target'', True, TsString), (''detail'', True, TsRecord TsUnknown)]"

definition EnrollmentToken_type :: ts_type where
  "EnrollmentToken_type = TsObject [(''token'', False, TsString), (''user'', False, TsString), (''expiresAt'', False, TsString)]"

text \<open>The type the console gives the answer of a request; it uses no answer of the others.\<close>

fun answer_type :: "admin_call \<Rightarrow> ts_type" where
  "answer_type (PostRevision body) = Revision_type"
| "answer_type GetRevisions = TsArray Revision_type"
| "answer_type (GetPolicy groups repo) = TsUnknown"
| "answer_type (PostToken secret body) = EnrollmentToken_type"
| "answer_type GetMachines = TsArray Machine_type"
| "answer_type (RevokeMachine i) = TsUnknown"
| "answer_type (PutGroups body) = TsUnknown"
| "answer_type GetGroups = GroupsView_type"
| "answer_type (ResolveGroups params) = GroupSources_type"
| "answer_type (GetAudit params) = TsArray AuditEvent_type"

section \<open>What the encoders produce\<close>

lemma atoms_conform [simp]:
  "conforms TsNumber (num i)" "conforms TsString (JStr s)" "conforms TsBoolean (JBool b)"
  "conforms (TsRecord TsUnknown) (JObj kvs)" "conforms (TsArray TsString) (strings_json xs)"
  by (simp_all add: num_def strings_json_def list_all_iff)

declare conforms.simps(1-3,6,7) [simp del]
lemmas collection_conforms = conforms.simps(6,7) list_all_iff

lemma rule_set_conforms [simp]: "conforms (TsRecord TsUnknown) (rule_set_json rs)"
  by (simp add: rule_set_json_def)

lemma revision_conforms: "conforms Revision_type (revision_json sv r)"
  by (cases "gr_createdBy r = []")
    (simp_all add: Revision_type_def revision_json_def omit_empty_def omit_if_def)

lemma machine_conforms: "conforms Machine_type (machine_json sv mc)"
  by (cases "gm_name mc = []"; cases "gm_os mc = []"; cases "gm_lastBundleVersion mc = []"; cases "gm_lastKeyID mc = []")
    (simp_all add: Machine_type_def machine_json_def omit_empty_def omit_if_def)

lemma event_conforms: "conforms AuditEvent_type (audit_event_json (wire_event sv e))"
  by (cases "ev_target e = []"; cases "ev_detail e = []")
    (simp_all add: AuditEvent_type_def audit_event_json_def wire_event_def)

lemma token_conforms:
  "conforms EnrollmentToken_type (JObj [(js ''expiresAt'', JStr a), (js ''token'', JStr b), (js ''user'', JStr c)])"
  by (simp add: EnrollmentToken_type_def)

lemma sources_conform:
  "x = JNull \<or> (\<exists>n. x = JStr n) \<Longrightarrow>
     conforms GroupSources_type (JObj [(js ''user'', JStr u), (js ''authored'', strings_json a), (js ''snapshot'', strings_json b),
       (js ''scim'', strings_json c), (js ''effective'', strings_json d), (js ''scimNearMatch'', x)])"
  by (auto simp: GroupSources_type_def)

text \<open>The members of a snapshot have the type the console expects unless one of them is a nil slice.\<close>

definition no_nil_members :: "memory \<Rightarrow> bool" where
  "no_nil_members m \<longleftrightarrow> (\<forall>s. CurrentGroupSnapshot m = Inr s \<longrightarrow> (\<forall>kv \<in> set (sn_members s). snd kv \<noteq> None))"

lemma members_conform:
  "conforms (TsRecord (TsArray TsString)) (object_of groups_json ms) \<longleftrightarrow> (\<forall>kv \<in> set ms. snd kv \<noteq> None)"
proof -
  have "conforms (TsArray TsString) (groups_json g) \<longleftrightarrow> g \<noteq> None" for g
    by (cases g) (simp_all add: groups_json_def, simp add: collection_conforms)
  then show ?thesis by (auto simp: object_of_def conforms.simps(7) list_all_iff)
qed

lemma groups_view_conforms:
  assumes "getGroups sv actor m = (res, m')" "rs_status res < 300"
  shows "\<exists>d. rs_body res = Json_body d \<and> (conforms GroupsView_type d \<longleftrightarrow> no_nil_members m)"
proof -
  let ?scim = "if sv_scimToken sv \<noteq> [] then [(js ''scim'', JObj [(js ''users'', num (int (fst (SCIMCounts m)))),
    (js ''activeUsers'', num (int (fst (snd (SCIMCounts m))))), (js ''groups'', num (int (snd (snd (SCIMCounts m)))))])] else []"
  have body: "rs_body res = Json_body (JObj
      ((case CurrentGroupSnapshot m of Inl e \<Rightarrow> [] | Inr s \<Rightarrow> detail_fields sv s) @
       [(js ''hasSnapshot'', JBool (\<exists>s. CurrentGroupSnapshot m = Inr s))] @ ?scim))"
    using assms by (auto simp: getGroups_def Let_def writeJSON_def split: prod.splits if_splits)
  show ?thesis
  proof (cases "CurrentGroupSnapshot m")
    case (Inl e)
    then show ?thesis
      by (simp add: body no_nil_members_def GroupsView_type_def ScimCounts_type_def)
  next
    case (Inr s)
    then show ?thesis
      by (cases "sn_appliedBy s = []")
        (simp_all add: body no_nil_members_def GroupsView_type_def ScimCounts_type_def detail_fields_def summary_fields_def
          omit_empty_def omit_if_def members_conform)
  qed
qed

section \<open>Properties\<close>

lemma admin_answer:
  assumes "run_admin svc now c actor m = (res, m')" "rs_status res < 300" "rs_status res \<noteq> 204"
  shows "\<exists>d. rs_body res = Json_body d \<and> (conforms (answer_type c) d \<longleftrightarrow> c \<noteq> GetGroups \<or> no_nil_members m)"
proof (cases c)
  case (PostRevision body)
  with assms show ?thesis
    by (auto simp: postRevision_def Let_def writeJSON_def revision_conforms split: sum.splits option.splits)
next
  case GetRevisions
  with assms show ?thesis
    by (auto simp: getRevisions_def writeJSON_def collection_conforms revision_conforms)
next
  case (PostToken secret body)
  have "rs_status refusal = 422" if "requested_ttl f raw = Inl refusal" for f raw refusal
    using that by (auto simp: requested_ttl_def split: if_splits option.splits)
  with PostToken assms show ?thesis
    by (auto simp: postEnrollmentToken_def bad_body_def Let_def writeJSON_def token_conforms
        split: sum.splits if_splits prod.splits)
next
  case GetMachines
  with assms show ?thesis by (auto simp: getMachines_def writeJSON_def collection_conforms machine_conforms)
next
  case (RevokeMachine i)
  with assms show ?thesis by (auto simp: deleteMachine_def noContent_def split: sum.splits)
next
  case GetGroups
  with groups_view_conforms [of "sc_server svc" actor m res m'] assms show ?thesis by auto
next
  case (ResolveGroups params)
  with assms show ?thesis
    by (auto simp: getGroupsResolve_def Let_def writeJSON_def intro!: sources_conform split: if_splits option.splits)
next
  case (GetAudit params)
  with assms show ?thesis
    by (auto simp: serve_audit_def writeJSON_def collection_conforms getAudit_def Let_def event_conforms audit_events_eq
        split: audit_response.splits option.splits list.splits if_splits dest!: in_set_takeD)
next
  case (PutGroups body)
  with assms show ?thesis
    by (auto simp: putGroups_def Let_def writeJSON_def split: go_input.splits sum.splits option.splits prod.splits)
qed (use assms in \<open>auto simp: getPolicy_def writeJSON_def\<close>)

lemma me_conforms: "consoleMe sv c now r m = (res, m') \<Longrightarrow> rs_status res < 300 \<Longrightarrow>
   \<exists>d. rs_body res = Json_body d \<and> conforms Me_type d"
proof -
  assume me: "consoleMe sv c now r m = (res, m')" "rs_status res < 300"
  have "\<not> rs_status refusal < 300" if "consoleUser sv c now r m = (Inl refusal, m1)" for refusal m1
    using that by (auto simp: consoleUser_def Let_def split: if_splits prod.splits sum.splits admin_answer.splits)
  with me obtain s where "rs_body res = Json_body (JObj
      ([(js ''expiresAt'', JStr (sv_rfc3339 sv (ExpiresAt c s)))] @
       (case sv_keyId sv of None \<Rightarrow> [] | Some k \<Rightarrow> [(js ''signingKeyId'', JStr k)]) @ [(js ''user'', JStr (se_user s))]))"
    by (auto simp: consoleMe_def writeJSON_def split: prod.splits sum.splits)
  then show ?thesis by (cases "sv_keyId sv") (simp_all add: Me_type_def)
qed

text \<open>The requests the console sends through \<open>api\<close>, and the type it gives the answer.\<close>

fun console_type :: "call \<Rightarrow> ts_type option" where
  "console_type (Administer r c) = Some (answer_type c)"
| "console_type (Me r) = Some Me_type"
| "console_type c = None"

text \<open>C13. The console's types are true of what the control plane answers: a successful answer with a body
  has the type the console casts it to. The one exception is the group view of a snapshot in which
  a user's groups are null.\<close>

theorem answers_have_console_types:
  assumes "well_configured (sc_server svc)" "serve svc now c m = (res, m')" "rs_status res < 300" "rs_status res \<noteq> 204"
    and "console_type c = Some t"
  shows "\<exists>d. rs_body res = Json_body d \<and>
    (conforms t d \<longleftrightarrow> (\<forall>r. c \<noteq> Administer r GetGroups) \<or> no_nil_members m)"
proof (cases c)
  case (Administer r a)
  with assms(2) have run: "serve svc now (Administer r a) m = (res, m')" by simp
  obtain actor m1 where ok: "sessions_only m m1" "run_admin svc now a actor m1 = (res, m')"
    using accepted_ran [OF assms(1) run assms(3)] by blast
  from ok(1) have "no_nil_members m1 = no_nil_members m"
    by (auto simp: sessions_only_def no_nil_members_def CurrentGroupSnapshot_def)
  with admin_answer [OF ok(2) assms(3,4)] Administer assms(5) show ?thesis by auto
next
  case (Me r)
  with assms(2,3) obtain cc where "consoleMe (sc_server svc) cc now r m = (res, m')"
    by (auto simp: with_console_def page_not_found_def split: option.splits)
  from me_conforms [OF this assms(3)] Me assms(5) show ?thesis by auto
qed (use assms(5) in simp_all)

theorem answers_have_console_types_witness:
  "conforms (TsArray Machine_type) (JArr [machine_json sample_server (one_machine\<lparr>gm_credentialHash := []\<rparr>)])"
proof -
  let ?m = "NewMemory\<lparr>m_machines := [js ''m1'' \<mapsto> one_machine], m_byHash := [js ''h'' \<mapsto> js ''m1''], m_order := [js ''m1'']\<rparr>"
  obtain res m' where run: "serve sample_service 0 (Administer token_request GetMachines) ?m = (res, m')" by fastforce
  then have body: "rs_body res = Json_body (JArr [machine_json sample_server (one_machine\<lparr>gm_credentialHash := []\<rparr>)])"
      and "rs_status res < 300" "rs_status res \<noteq> 204"
    unfolding sample_admin by (auto simp: getMachines_def ListMachines_def writeJSON_def sample_service_def)
  from answers_have_console_types [OF sample_configured run this(2,3), of "TsArray Machine_type"] body
  show ?thesis by simp
qed

text \<open>The exception: a snapshot that gives a user no list of groups is accepted, and from then on the
  group view sends null where the console's type has a list.\<close>

theorem null_member_breaks_type:
  "let body = Parsed (JObj [(js ''members'', JObj [(js ''ann'', JNull)])]) [];
       (res1, m1) = serve sample_service 1 (Administer token_request (PutGroups body)) NewMemory;
       (res2, m2) = serve sample_service 2 (Administer token_request GetGroups) m1 in
   rs_status res1 = 200 \<and> rs_status res2 = 200 \<and>
   (\<exists>d. rs_body res2 = Json_body d \<and> \<not> conforms GroupsView_type d)"
proof -
  let ?body = "Parsed (JObj [(js ''members'', JObj [(js ''ann'', JNull)])]) []"
  obtain res1 m1 where put: "serve sample_service 1 (Administer token_request (PutGroups ?body)) NewMemory = (res1, m1)" by fastforce
  obtain res2 m2 where get: "serve sample_service 2 (Administer token_request GetGroups) m1 = (res2, m2)" by fastforce
  have names: "fold_name (js ''source'') \<noteq> fold_name (js ''members'')"
    by (simp add: fold_name_def fold_rune_def js_def)
  have dec: "decode read_groups_request ?body = Inr ([], Some [(js ''ann'', None)])"
    by (simp add: decode_def read_groups_request_def read_struct_def names read_map_def read_groups_def)
  from put have res1: "rs_status res1 = 200" and snap: "\<exists>s. CurrentGroupSnapshot m1 = Inr s \<and> sn_members s = [(js ''ann'', None)]"
    unfolding sample_admin
    by (auto simp: putGroups_def dec Let_def writeJSON_def PutGroupSnapshot_def validate_event_def go_event_of_def
        appendAudit_def CurrentGroupSnapshot_def)
  then obtain s where s: "CurrentGroupSnapshot m1 = Inr s" "sn_members s = [(js ''ann'', None)]" by blast
  have view: "getGroups sample_server (js ''token:ops'') m1 = (res2, m2)"
    using get unfolding sample_admin by (simp add: sample_service_def)
  then have res2: "rs_status res2 = 200" using s(1) by (auto simp: getGroups_def Let_def split: prod.splits)
  have "\<not> no_nil_members m1" using s by (simp add: no_nil_members_def)
  with groups_view_conforms [OF view] res2 obtain d where "rs_body res2 = Json_body d" "\<not> conforms GroupsView_type d" by auto
  with res1 res2 show ?thesis unfolding Let_def put prod.case get by blast
qed

end
