(* ===== verification/Routes.thy ===== *)
theory Routes
  imports ControlServer GroupsScreen MachinesScreen EnrollmentScreen PolicyScreen AuditScreen
begin

text \<open>
  The way from a request of the console to a handler of the control plane: what the browser adds to
  it, the router of \<^verbatim>\<open>internal/handler/handler.go\<close> (\<open>Routes\<close>) and \<^verbatim>\<open>internal/handler/console.go\<close>
  (\<open>consoleRoutes\<close>), and the way back of the answer. The router is the one of Go's standard library:
  paths are compared segment by segment after unescaping, a pattern that ends in a slash takes
  everything below it, and of the patterns that match the most specific one wins. Escapes are read as
  \<open>encodeURIComponent\<close> writes them; a path with another escape reaches nothing here.
\<close>

section \<open>The table\<close>

datatype piece = Word string | Wildcard

datatype endpoint =
    Healthz | Readyz | PolicyOf | BundleOf | CreateRevision | ListRevisions | CreateToken | EnrollMachine
  | MachineList | MachineRevoke | GroupsPut | GroupsGet | GroupsResolve | AuditLog
  | Static | Login | LoginCallback | LogoutOf | MeOf | UnknownApi

record mux_route =
  rt_method :: string
  rt_path :: "piece list"
  rt_subtree :: bool
  rt_to :: endpoint

definition to :: "string \<Rightarrow> string list \<Rightarrow> endpoint \<Rightarrow> mux_route" where
  "to method path e = \<lparr>rt_method = method, rt_path = map Word path, rt_subtree = False, rt_to = e\<rparr>"

definition below :: "string \<Rightarrow> string list \<Rightarrow> endpoint \<Rightarrow> mux_route" where
  "below method path e = (to method path e)\<lparr>rt_subtree := True\<rparr>"

definition handler_routes :: "mux_route list" where
  "handler_routes =
     [to ''GET'' [''healthz''] Healthz,
      to ''GET'' [''readyz''] Readyz,
      to ''GET'' [''v1'', ''policy''] PolicyOf,
      to ''GET'' [''v1'', ''bundle''] BundleOf,
      to ''POST'' [''v1'', ''policy'', ''revisions''] CreateRevision,
      to ''GET'' [''v1'', ''policy'', ''revisions''] ListRevisions,
      to ''POST'' [''v1'', ''enrollment-tokens''] CreateToken,
      to ''POST'' [''v1'', ''machines'', ''enroll''] EnrollMachine,
      to ''GET'' [''v1'', ''machines''] MachineList,
      \<lparr>rt_method = ''DELETE'', rt_path = [Word ''v1'', Word ''machines'', Wildcard], rt_subtree = False, rt_to = MachineRevoke\<rparr>,
      to ''PUT'' [''v1'', ''groups''] GroupsPut,
      to ''GET'' [''v1'', ''groups''] GroupsGet,
      to ''GET'' [''v1'', ''groups'', ''resolve''] GroupsResolve,
      to ''GET'' [''v1'', ''audit''] AuditLog]"

definition console_routes :: "mux_route list" where
  "console_routes =
     [below ''GET'' [''console''] Static,
      to ''GET'' [''console'', ''auth'', ''login''] Login,
      to ''GET'' [''console'', ''auth'', ''callback''] LoginCallback,
      to ''POST'' [''console'', ''auth'', ''logout''] LogoutOf,
      to ''GET'' [''console'', ''api'', ''me''] MeOf,
      below ''GET'' [''console'', ''api''] UnknownApi]"

text \<open>The console's routes are added only when there is a console.\<close>

definition mux_routes :: "server \<Rightarrow> mux_route list" where
  "mux_routes sv = handler_routes @ (if sv_console sv = None then [] else console_routes)"

section \<open>Matching\<close>

text \<open>The segments a wildcard took, when the pattern matches.\<close>

fun match_path :: "bool \<Rightarrow> piece list \<Rightarrow> jstr list \<Rightarrow> jstr list option" where
  "match_path subtree [] segs = (if segs = [] \<longleftrightarrow> \<not> subtree then Some [] else None)"
| "match_path subtree (p # ps) [] = None"
| "match_path subtree (Word w # ps) (s # segs) = (if s = js w then match_path subtree ps segs else None)"
| "match_path subtree (Wildcard # ps) (s # segs) =
     (if s = [] then None else map_option (Cons s) (match_path subtree ps segs))"

text \<open>A pattern for GET also takes HEAD.\<close>

definition match_route :: "jstr \<Rightarrow> jstr list \<Rightarrow> mux_route \<Rightarrow> jstr list option" where
  "match_route method segs r =
     (if method = js (rt_method r) \<or> method = js ''HEAD'' \<and> rt_method r = ''GET''
      then match_path (rt_subtree r) (rt_path r) segs else None)"

definition specificity :: "mux_route \<Rightarrow> nat" where
  "specificity r = 2 * length (rt_path r) + (if rt_subtree r then 0 else 1)"

fun best_route :: "jstr \<Rightarrow> jstr list \<Rightarrow> mux_route list \<Rightarrow> (nat \<times> endpoint \<times> jstr list) option" where
  "best_route method segs [] = None"
| "best_route method segs (r # rs) =
     (case (match_route method segs r, best_route method segs rs) of
        (None, found) \<Rightarrow> found
      | (Some caught, None) \<Rightarrow> Some (specificity r, rt_to r, caught)
      | (Some caught, Some (n, found)) \<Rightarrow> if n \<le> specificity r then Some (specificity r, rt_to r, caught) else Some (n, found))"

definition find_route :: "server \<Rightarrow> jstr \<Rightarrow> jstr list \<Rightarrow> (endpoint \<times> jstr list) option" where
  "find_route sv method segs = map_option snd (best_route method segs (mux_routes sv))"

section \<open>Targets\<close>

definition url_path :: "jstr \<Rightarrow> jstr" where
  "url_path target = takeWhile (\<lambda>c. c \<noteq> 63) (takeWhile (\<lambda>c. c \<noteq> 35) target)"

definition url_query :: "jstr \<Rightarrow> jstr" where
  "url_query target = tl (dropWhile (\<lambda>c. c \<noteq> 63) (takeWhile (\<lambda>c. c \<noteq> 35) target))"

text \<open>The browser resolves dot segments before it sends a path.\<close>

fun resolve_dots :: "jstr list \<Rightarrow> jstr list \<Rightarrow> jstr list" where
  "resolve_dots acc [] = rev acc"
| "resolve_dots acc [s] =
     (if s = js ''.'' then rev ([] # acc) else if s = js ''..'' then rev ([] # tl acc) else rev (s # acc))"
| "resolve_dots acc (s # t # ss) =
     (if s = js ''.'' then resolve_dots acc (t # ss) else if s = js ''..'' then resolve_dots (tl acc) (t # ss)
      else resolve_dots (s # acc) (t # ss))"

text \<open>One symbol, written as itself or as the escapes of its UTF-8 bytes.\<close>

definition unescape1 :: "jstr \<Rightarrow> (nat \<times> jstr) option" where
  "unescape1 s =
     (case uri_dec1 s of
        None \<Rightarrow> None
      | Some (p, r) \<Rightarrow>
          (if is_scalar p \<and> (s = p # r \<and> p \<noteq> 37 \<or> s = concat (map percent (utf8 p)) @ r) then Some (p, r) else None))"

definition unescape :: "jstr \<Rightarrow> jstr option" where
  "unescape s = map_option (\<lambda>ps. concat (map units_of ps)) (decode_all unescape1 (length s) s)"

definition path_segments :: "jstr \<Rightarrow> jstr list option" where
  "path_segments target =
     (let segs = map unescape (resolve_dots [] (tl (split_char slash (url_path target)))) in
      if None \<in> set segs then None else Some (map the segs))"

text \<open>\<open>url.ParseQuery\<close>: a part with a semicolon or a bad escape is left out; a plus is a space.\<close>

definition query_part :: "jstr \<Rightarrow> (jstr \<times> jstr) list" where
  "query_part part =
     (if part = [] \<or> 59 \<in> set part then []
      else
        (let plus = map (\<lambda>c. if c = 43 then 32 else c) in
         (case (unescape (plus (takeWhile (\<lambda>c. c \<noteq> 61) part)), unescape (plus (tl (dropWhile (\<lambda>c. c \<noteq> 61) part)))) of
            (Some k, Some v) \<Rightarrow> [(k, v)]
          | _ \<Rightarrow> [])))"

definition parse_query :: "jstr \<Rightarrow> (jstr \<times> jstr) list" where
  "parse_query q = concat (map query_part (split_char 38 q))"

section \<open>From the browser to the handler and back\<close>

text \<open>
  What a browser on the console's page adds to a request: its origin, unless it only reads, and the
  session cookie. \<open>dl_secret\<close> is the random part of the token the request may mint, \<open>dl_explain\<close> the
  decoder's words for a body it refuses, \<open>dl_reason\<close> the text that goes with a status.
\<close>

record delivery =
  dl_origin :: jstr
  dl_cookie :: "jstr option"
  dl_secret :: jstr
  dl_explain :: "jstr \<Rightarrow> jstr"
  dl_reason :: "nat \<Rightarrow> jstr"

definition go_request_of :: "delivery \<Rightarrow> http_request \<Rightarrow> go_request" where
  "go_request_of dl req =
     \<lparr>rq_method = h_method req, rq_authorization = [],
      rq_origin = (if h_method req = js ''GET'' \<or> h_method req = js ''HEAD'' then [] else dl_origin dl),
      rq_cookie = dl_cookie dl, rq_attempt = None\<rparr>"

definition utf8_size :: "jstr \<Rightarrow> nat" where
  "utf8_size s = sum_list (map (\<lambda>p. length (utf8 p)) (code_points s))"

text \<open>
  Go's strings are UTF-8: its decoder puts U+FFFD for a surrogate that has no partner, in strings
  and in keys.
\<close>

definition go_text :: "jstr \<Rightarrow> jstr" where
  "go_text s = concat (map (\<lambda>p. if is_scalar p then units_of p else [65533]) (code_points s))"

fun go_json :: "json \<Rightarrow> json" where
  "go_json (JStr s) = JStr (go_text s)"
| "go_json (JArr xs) = JArr (map go_json xs)"
| "go_json (JObj kvs) = JObj (map (\<lambda>(k, v). (go_text k, go_json v)) kvs)"
| "go_json d = d"

text \<open>The body as the decoder finds it, which reads at most \<open>limit\<close> bytes.\<close>

definition input_of :: "delivery \<Rightarrow> nat \<Rightarrow> http_request \<Rightarrow> go_input" where
  "input_of dl limit req =
     (let body = nullish (h_body req) [] in
      if utf8_size body > limit then Too_large (js ''http: request body too large'')
      else (case read_json body of None \<Rightarrow> Malformed (dl_explain dl body) | Some d \<Rightarrow> Parsed (go_json d) (dl_explain dl body)))"

text \<open>The handlers the console's requests are for; the other endpoints are not reached by it.\<close>

definition call_of :: "delivery \<Rightarrow> http_request \<Rightarrow> endpoint \<Rightarrow> jstr list \<Rightarrow> call option" where
  "call_of dl req e caught =
     (let r = go_request_of dl req; query = parse_query (url_query (h_path req)) in
      (case e of
         PolicyOf \<Rightarrow> Some (Administer r (GetPolicy (map snd (filter (\<lambda>kv. fst kv = js ''group'') query)) (query_get query (js ''repo''))))
       | CreateRevision \<Rightarrow> Some (Administer r (PostRevision (input_of dl (2 ^ 20) req)))
       | ListRevisions \<Rightarrow> Some (Administer r GetRevisions)
       | CreateToken \<Rightarrow> Some (Administer r (PostToken (dl_secret dl) (input_of dl (2 ^ 16) req)))
       | MachineList \<Rightarrow> Some (Administer r GetMachines)
       | MachineRevoke \<Rightarrow> Some (Administer r (RevokeMachine (hd caught)))
       | GroupsPut \<Rightarrow> Some (Administer r (PutGroups (input_of dl (8 * 2 ^ 20) req)))
       | GroupsGet \<Rightarrow> Some (Administer r GetGroups)
       | GroupsResolve \<Rightarrow> Some (Administer r (ResolveGroups query))
       | AuditLog \<Rightarrow> Some (Administer r (GetAudit query))
       | LogoutOf \<Rightarrow> Some (Logout r)
       | MeOf \<Rightarrow> Some (Me r)
       | _ \<Rightarrow> None))"

definition route_call :: "service \<Rightarrow> delivery \<Rightarrow> http_request \<Rightarrow> call option" where
  "route_call svc dl req =
     (case path_segments (h_path req) of
        None \<Rightarrow> None
      | Some segs \<Rightarrow>
          (case find_route (sc_server svc) (h_method req) segs of
             None \<Rightarrow> None
           | Some (e, caught) \<Rightarrow> call_of dl req e caught))"

definition http_answer :: "delivery \<Rightarrow> go_response \<Rightarrow> http_response" where
  "http_answer dl res =
     \<lparr>p_status = rs_status res, p_statusText = dl_reason dl (rs_status res),
      p_json = (case rs_body res of Json_body d \<Rightarrow> Some d | _ \<Rightarrow> None)\<rparr>"

text \<open>\<open>fetch\<close> as the control plane in state \<open>m\<close> answers it; \<open>other\<close> answers what is not for these handlers.\<close>

definition server_fetch :: "service \<Rightarrow> time \<Rightarrow> delivery \<Rightarrow> fetch \<Rightarrow> memory \<Rightarrow> fetch" where
  "server_fetch svc now dl other m req =
     (case route_call svc dl req of
        None \<Rightarrow> other req
      | Some c \<Rightarrow> Inr (http_answer dl (fst (serve svc now c m))))"

section \<open>Reading what was written\<close>

lemma unescape_enc:
  assumes "is_scalar p"
  shows "unescape1 (uri_enc1 p @ r) = Some (p, r)"
proof -
  have "\<not> uri_unreserved 37" by (simp add: uri_unreserved_def is_word_def is_digit_def)
  then have "uri_enc1 p = [p] \<and> p \<noteq> 37 \<or> uri_enc1 p = concat (map percent (utf8 p))"
    by (auto simp: uri_enc1_def)
  with assms show ?thesis by (auto simp: unescape1_def uri_dec_enc)
qed

interpretation url: symbol_code is_scalar uri_enc1 unescape1
  by unfold_locales (simp_all add: unescape_enc)

lemma unescape_encoded:
  assumes "encodeURIComponent s = Some e" "\<forall>c \<in> set s. c < 65536"
  shows "unescape e = Some s"
  using url.decode_encode [OF encodeURIComponent_SomeD(1) [OF assms(1)]] encodeURIComponent_SomeD(2) [OF assms(1)]
  by (simp add: unescape_def units_code_points [OF assms(2)])

lemma encoded_chars: "encodeURIComponent s = Some e \<Longrightarrow> c \<in> set e \<Longrightarrow> c = 37 \<or> uri_unreserved c"
  using encodeURIComponent_SomeD [of s e] set_uri_enc1 by (fastforce simp: is_scalar_def)

lemma uri_unreserved_scalar: "uri_unreserved c \<Longrightarrow> is_scalar c \<and> c < 128"
  by (auto simp: uri_unreserved_def is_word_def is_digit_def is_scalar_def is_hi_def is_lo_def)

lemma unescape_plain: "\<forall>c \<in> set s. uri_unreserved c \<Longrightarrow> unescape s = Some s"
proof -
  assume plain: "\<forall>c \<in> set s. uri_unreserved c"
  then have enc: "concat (map uri_enc1 s) = s" and units: "concat (map units_of s) = s"
    by (induction s) (auto simp: uri_enc1_def units_of_def dest!: uri_unreserved_scalar)
  have "\<forall>c \<in> set s. is_scalar c" using plain uri_unreserved_scalar by blast
  from url.decode_encode [OF this] show ?thesis by (simp add: unescape_def enc units)
qed

text \<open>A path whose segments hold nothing that ends a segment or a path is taken apart into them.\<close>

definition segment_text :: "jstr \<Rightarrow> bool" where
  "segment_text e \<longleftrightarrow> slash \<notin> set e \<and> 63 \<notin> set e \<and> 35 \<notin> set e \<and> e \<noteq> js ''.'' \<and> e \<noteq> js ''..''"

lemma resolve_no_dots: "list_all segment_text es \<Longrightarrow> resolve_dots acc es = rev acc @ es"
  by (induction acc es rule: resolve_dots.induct) (auto simp: segment_text_def)

lemma takeWhile_stop: "\<forall>c \<in> set xs. c \<noteq> d \<Longrightarrow> ys = [] \<or> hd ys = d \<Longrightarrow> takeWhile (\<lambda>c. c \<noteq> d) (xs @ ys) = xs"
  by (induction xs) (cases ys, auto)

lemma path_segments_join:
  assumes "list_all segment_text es" "es \<noteq> []" "list_all2 (\<lambda>e s. unescape e = Some s) es segs"
    and "35 \<notin> set q" "q = [] \<or> hd q = 63"
  shows "path_segments (slash # join [slash] es @ q) = Some segs" and "url_query (slash # join [slash] es @ q) = tl q"
proof -
  have plain: "\<forall>c \<in> set (slash # join [slash] es). c \<noteq> 35 \<and> c \<noteq> 63"
    using assms(1) set_join [of "[slash]" es] by (fastforce simp: list_all_iff segment_text_def)
  have all: "takeWhile (\<lambda>c. c \<noteq> 35) (slash # join [slash] es @ q) = slash # join [slash] es @ q"
    using plain assms(4) by (intro takeWhile_eq_all_conv [THEN iffD2]) auto
  have path: "url_path (slash # join [slash] es @ q) = slash # join [slash] es"
    unfolding url_path_def all using takeWhile_stop [of "slash # join [slash] es" 63 q] plain assms(5) by simp
  have "dropWhile (\<lambda>c. c \<noteq> 63) (slash # join [slash] es @ q) = q"
    using plain assms(5) by (subst append_Cons [symmetric], subst dropWhile_append2) (auto simp: hd_conv_nth, cases q, auto)
  then show "url_query (slash # join [slash] es @ q) = tl q" unfolding url_query_def all by simp
  have "split_char slash (join [slash] es) = es"
    by (rule split_char_join) (use assms(1,2) in \<open>auto simp: list_all_iff segment_text_def\<close>)
  then have "resolve_dots [] (tl (split_char slash (slash # join [slash] es))) = es"
    using resolve_no_dots [OF assms(1), of "[]"] by simp
  moreover have "map unescape es = map Some segs"
    using assms(3) by (induction rule: list_all2_induct) auto
  ultimately show "path_segments (slash # join [slash] es @ q) = Some segs"
    by (auto simp: path_segments_def path Let_def)
qed

section \<open>The requests of the console\<close>

datatype console_request =
    AskMe | AskRevisions | ApplyRevision json | AskMachines | Revoke machine | Mint enroll_state
  | AskGroups | AskResolve jstr | AskAudit "int option" | AskRecent | SignOut

text \<open>What the screens hand to \<open>fetch\<close>; a path that cannot be encoded throws before.\<close>

fun sent :: "console_request \<Rightarrow> http_request option" where
  "sent AskMe = Some (mk_request (js ''GET'') (js ''/console/api/me'') None)"
| "sent AskRevisions = Some (mk_request (js ''GET'') (js ''/v1/policy/revisions'') None)"
| "sent (ApplyRevision v) = Some (mk_request (js ''POST'') (js ''/v1/policy/revisions'') (Some v))"
| "sent AskMachines = Some (mk_request (js ''GET'') (js ''/v1/machines'') None)"
| "sent (Revoke mc) = map_option (\<lambda>p. mk_request (js ''DELETE'') p None) (revoke_path mc)"
| "sent (Mint s) = Some (mk_request (js ''POST'') (js ''/v1/enrollment-tokens'') (Some (enroll_body s)))"
| "sent AskGroups = Some (mk_request (js ''GET'') (js ''/v1/groups'') None)"
| "sent (AskResolve user) = map_option (\<lambda>p. mk_request (js ''GET'') p None) (resolve_path user)"
| "sent (AskAudit before) = Some (mk_request (js ''GET'') (audit_path before) None)"
| "sent AskRecent = Some (mk_request (js ''GET'') (js ''/v1/audit?limit=5'') None)"
| "sent SignOut = Some (mk_request (js ''POST'') (js ''/console/auth/logout'') None)"

text \<open>What each is meant to do on the control plane.\<close>

definition body_input :: "delivery \<Rightarrow> json \<Rightarrow> go_input" where
  "body_input dl v = Parsed (go_json v) (dl_explain dl (stringify v))"

fun meant :: "delivery \<Rightarrow> console_request \<Rightarrow> go_request \<Rightarrow> call" where
  "meant dl AskMe r = Me r"
| "meant dl AskRevisions r = Administer r GetRevisions"
| "meant dl (ApplyRevision v) r = Administer r (PostRevision (body_input dl v))"
| "meant dl AskMachines r = Administer r GetMachines"
| "meant dl (Revoke mc) r = Administer r (RevokeMachine (mc_id mc))"
| "meant dl (Mint s) r = Administer r (PostToken (dl_secret dl) (body_input dl (enroll_body s)))"
| "meant dl AskGroups r = Administer r GetGroups"
| "meant dl (AskResolve user) r = Administer r (ResolveGroups [(js ''user'', user)])"
| "meant dl (AskAudit before) r = Administer r (GetAudit (audit_params before))"
| "meant dl AskRecent r = Administer r (GetAudit [(js ''limit'', js ''5'')])"
| "meant dl SignOut r = Logout r"

text \<open>Text is 16-bit units, bodies fit the limits of their handlers, and the id of a machine is not
  empty and not a dot segment (the control plane makes them of hexadecimal digits).\<close>

fun sendable :: "console_request \<Rightarrow> bool" where
  "sendable (ApplyRevision v) \<longleftrightarrow> wf_json v \<and> utf8_size (stringify v) \<le> 2 ^ 20"
| "sendable (Revoke mc) \<longleftrightarrow> json_text (mc_id mc) \<and> mc_id mc \<notin> {[], js ''.'', js ''..''}"
| "sendable (Mint s) \<longleftrightarrow> wf_json (enroll_body s) \<and> utf8_size (stringify (enroll_body s)) \<le> 2 ^ 16"
| "sendable (AskResolve user) \<longleftrightarrow> json_text user"
| "sendable (AskAudit before) \<longleftrightarrow> (\<forall>b. before = Some b \<longrightarrow> 0 \<le> b)"
| "sendable c \<longleftrightarrow> True"

lemma input_of_body:
  assumes "wf_json v" "utf8_size (stringify v) \<le> limit"
  shows "input_of dl limit (mk_request method path (Some v)) = body_input dl v"
proof -
  have "read_json (stringify v) = Some v" using plain.read_json_text [OF assms(1)] by (simp add: stringify_def)
  with assms(2) show ?thesis by (simp add: input_of_def mk_request_def body_input_def nullish_def)
qed

text \<open>A literal path: its segments are letters, digits and dashes.\<close>

definition literal :: "string list \<Rightarrow> jstr" where
  "literal ws = slash # join [slash] (map js ws)"

definition plain_word :: "string \<Rightarrow> bool" where
  "plain_word w \<longleftrightarrow> w \<noteq> [] \<and> list_all (\<lambda>c. uri_unreserved c \<and> c \<noteq> 46) (js w)"

lemma plain_word_segment: "plain_word w \<Longrightarrow> segment_text (js w) \<and> unescape (js w) = Some (js w)"
proof -
  assume w: "plain_word w"
  then have dot: "46 \<notin> set (js w)" and plain: "\<forall>c \<in> set (js w). uri_unreserved c"
    by (auto simp: plain_word_def list_all_iff)
  have "js w \<noteq> js ''.''" "js w \<noteq> js ''..''" using dot by (auto simp: js_def)
  moreover have "\<not> uri_unreserved slash" "\<not> uri_unreserved 63" "\<not> uri_unreserved 35"
    by (simp_all add: uri_unreserved_def is_word_def is_digit_def)
  with plain have "slash \<notin> set (js w)" "63 \<notin> set (js w)" "35 \<notin> set (js w)" by metis+
  ultimately show ?thesis unfolding segment_text_def using unescape_plain [OF plain] by simp
qed

lemma literal_segments:
  assumes "list_all plain_word ws" "ws \<noteq> []" "35 \<notin> set q" "q = [] \<or> hd q = 63"
  shows "path_segments (literal ws @ q) = Some (map js ws)" "url_query (literal ws @ q) = tl q"
proof -
  have "list_all segment_text (map js ws)" "list_all2 (\<lambda>e s. unescape e = Some s) (map js ws) (map js ws)"
    using assms(1) plain_word_segment by (auto simp: list_all_iff list_all2_same list.rel_map)
  note path_segments_join [OF this(1) _ this(2) assms(3,4)]
  then show "path_segments (literal ws @ q) = Some (map js ws)" "url_query (literal ws @ q) = tl q"
    using assms(2) by (simp_all add: literal_def)
qed

section \<open>Queries\<close>

definition query_text :: "jstr \<Rightarrow> bool" where
  "query_text e \<longleftrightarrow> (\<forall>c \<in> set e. c = 37 \<or> uri_unreserved c)"

lemma query_text_chars: "query_text e \<Longrightarrow> c \<in> {35, 38, 43, 59, 61, 63, slash} \<Longrightarrow> c \<notin> set e"
  by (auto simp: query_text_def uri_unreserved_def is_word_def is_digit_def)

lemma no_plus: "query_text e \<Longrightarrow> map (\<lambda>c. if c = 43 then 32 else c) e = e"
  using query_text_chars [of e 43] by (intro map_idI) auto

lemma cut_at: "d \<notin> set k \<Longrightarrow> takeWhile (\<lambda>c. c \<noteq> d) (k @ d # e) = k \<and> dropWhile (\<lambda>c. c \<noteq> d) (k @ d # e) = d # e"
  by (induction k) auto

lemma query_part_pair:
  assumes "query_text k" "query_text e" "unescape k = Some k" "unescape e = Some v"
  shows "query_part (k @ 61 # e) = [(k, v)]"
proof -
  have "takeWhile (\<lambda>c. c \<noteq> 61) (k @ 61 # e) = k" "dropWhile (\<lambda>c. c \<noteq> 61) (k @ 61 # e) = 61 # e"
    using cut_at [of 61 k e] query_text_chars [OF assms(1), of 61] by simp_all
  moreover have "59 \<notin> set (k @ 61 # e)"
    using query_text_chars [OF assms(1), of 59] query_text_chars [OF assms(2), of 59] by simp
  ultimately show ?thesis by (simp add: query_part_def no_plus assms)
qed

lemma parse_query_join:
  assumes "parts \<noteq> []" "\<And>k v. (k, v) \<in> set parts \<Longrightarrow> query_text k \<and> query_text v \<and> unescape k = Some k"
    and "list_all2 (\<lambda>(k, e) (k', v). k' = k \<and> unescape e = Some v) parts params"
  shows "parse_query (join [38] (map (\<lambda>(k, e). k @ 61 # e) parts)) = params"
proof -
  have "split_char 38 (join [38] (map (\<lambda>(k, e). k @ 61 # e) parts)) = map (\<lambda>(k, e). k @ 61 # e) parts"
  proof (rule split_char_join)
    show "\<forall>x \<in> set (map (\<lambda>(k, e). k @ 61 # e) parts). 38 \<notin> set x"
      using assms(2) query_text_chars [where c = 38] by fastforce
  qed (use assms(1) in simp)
  moreover have "concat (map query_part (map (\<lambda>(k, e). k @ 61 # e) parts)) = params"
    using assms(3,2)
  proof (induction rule: list_all2_induct)
    case (Cons p ps q qs)
    obtain k e v where p: "p = (k, e)" "q = (k, v)" "unescape e = Some v" using Cons.hyps by (cases p; cases q) auto
    with Cons.prems have "query_text k" "query_text e" "unescape k = Some k" by auto
    with p query_part_pair have "query_part (k @ 61 # e) = [(k, v)]" by blast
    with Cons p show ?case by auto
  qed simp
  ultimately show ?thesis by (simp add: parse_query_def)
qed

lemma word_query [simp]: "plain_word w \<Longrightarrow> query_text (js w) \<and> unescape (js w) = Some (js w)"
  using plain_word_segment [of w] by (auto simp: plain_word_def query_text_def list_all_iff)

lemma digits_plain: "\<forall>c \<in> set s. is_digit c \<Longrightarrow> query_text s \<and> unescape s = Some s"
proof -
  assume "\<forall>c \<in> set s. is_digit c"
  then have "\<forall>c \<in> set s. uri_unreserved c" by (auto simp: uri_unreserved_def is_word_def)
  with unescape_plain show ?thesis by (auto simp: query_text_def)
qed

lemma plain_words [simp]:
  "plain_word ''v1''" "plain_word ''policy''" "plain_word ''revisions''" "plain_word ''machines''" "plain_word ''enrollment-tokens''"
  "plain_word ''groups''" "plain_word ''resolve''" "plain_word ''audit''" "plain_word ''console''" "plain_word ''api''"
  "plain_word ''me''" "plain_word ''auth''" "plain_word ''logout''" "plain_word ''user''" "plain_word ''limit''" "plain_word ''before''"
  by (simp_all add: plain_word_def js_def uri_unreserved_def is_word_def is_digit_def)

lemma audit_query:
  assumes "\<forall>b. before = Some b \<longrightarrow> 0 \<le> b"
  shows "parse_query (join [38] (map (\<lambda>(k, v). k @ 61 # v) (audit_params before))) = audit_params before"
    and "35 \<notin> set (join [38] (map (\<lambda>(k, v). k @ 61 # v) (audit_params before)))"
proof -
  have plain: "query_text k \<and> query_text v \<and> unescape k = Some k \<and> unescape v = Some v"
    if "(k, v) \<in> set (audit_params before)" for k v
    using that assms word_query [of "''limit''"] word_query [of "''before''"]
      digits_plain [OF show_nat_digits [of PAGE_SIZE]] digits_plain [OF show_nat_digits]
    by (auto simp: audit_params_def show_int_nonneg split: option.splits)
  have "audit_params before \<noteq> []" by (simp add: audit_params_def)
  then show "parse_query (join [38] (map (\<lambda>(k, v). k @ 61 # v) (audit_params before))) = audit_params before"
    by (rule parse_query_join) (use plain in \<open>auto simp: list_all2_same\<close>)
  have "35 \<notin> set (k @ 61 # v)" if "(k, v) \<in> set (audit_params before)" for k v
    using plain [OF that] query_text_chars [of k 35] query_text_chars [of v 35] by simp
  then show "35 \<notin> set (join [38] (map (\<lambda>(k, v). k @ 61 # v) (audit_params before)))"
    using set_join [of "[38]" "map (\<lambda>(k, v). k @ 61 # v) (audit_params before)"] by fastforce
qed

section \<open>Every request reaches its handler\<close>

lemmas find_route_eval = find_route_def mux_routes_def handler_routes_def console_routes_def to_def below_def match_route_def specificity_def

lemma route_literal:
  assumes "h_path req = literal ws @ q" "list_all plain_word ws" "ws \<noteq> []" "35 \<notin> set q" "q = [] \<or> hd q = 63"
  shows "route_call svc dl req =
    (case find_route (sc_server svc) (h_method req) (map js ws) of None \<Rightarrow> None | Some (e, caught) \<Rightarrow> call_of dl req e caught)"
    and "url_query (h_path req) = tl q"
  using literal_segments [OF assms(2-5)] by (simp_all add: route_call_def assms(1))

lemma literal_paths:
  "js ''/console/api/me'' = literal [''console'', ''api'', ''me''] @ []"
  "js ''/v1/policy/revisions'' = literal [''v1'', ''policy'', ''revisions''] @ []"
  "js ''/v1/machines'' = literal [''v1'', ''machines''] @ []"
  "js ''/v1/enrollment-tokens'' = literal [''v1'', ''enrollment-tokens''] @ []"
  "js ''/v1/groups'' = literal [''v1'', ''groups''] @ []"
  "js ''/console/auth/logout'' = literal [''console'', ''auth'', ''logout''] @ []"
  "js ''/v1/groups/resolve?user='' @ x = literal [''v1'', ''groups'', ''resolve''] @ 63 # js ''user'' @ 61 # x"
  "js ''/v1/audit?'' @ x = literal [''v1'', ''audit''] @ 63 # x"
  by (simp_all add: literal_def js_def)

lemma route_plain:
  assumes "h_path req = literal ws @ []" "list_all plain_word ws" "ws \<noteq> []"
    and "find_route (sc_server svc) (h_method req) (map js ws) = Some (e, caught)"
  shows "route_call svc dl req = call_of dl req e caught"
  using route_literal(1) [OF assms(1-3)] assms(4) by simp

lemma revoke_target:
  assumes "revoke_path mc = Some p" "json_text (mc_id mc)" "mc_id mc \<notin> {[], js ''.'', js ''..''}"
  shows "path_segments p = Some [js ''v1'', js ''machines'', mc_id mc]"
proof -
  obtain e where p: "p = js ''/v1/machines/'' @ e" and e: "encodeURIComponent (mc_id mc) = Some e"
    and safe: "slash \<notin> set e" "35 \<notin> set e" "63 \<notin> set e"
    by (rule revoke_path_shape [OF assms(1)])
  have decoded: "unescape e = Some (mc_id mc)"
    using unescape_encoded [OF e] assms(2) by (simp add: json_text_def list_all_iff)
  have "e \<noteq> js ''.''" "e \<noteq> js ''..''"
    using decoded assms(3) unescape_plain [of "js ''.''"] unescape_plain [of "js ''..''"]
    by (auto simp: js_def uri_unreserved_def)
  with safe have "segment_text e" by (simp add: segment_text_def)
  moreover have "p = slash # join [slash] [js ''v1'', js ''machines'', e] @ []" by (simp add: p js_def)
  ultimately show ?thesis
    using path_segments_join(1) [of "[js ''v1'', js ''machines'', e]" "[js ''v1'', js ''machines'', mc_id mc]" "[]"]
      plain_word_segment [of "''v1''"] plain_word_segment [of "''machines''"] decoded by simp
qed

lemma mk_request_fields [simp]: "h_method (mk_request a p b) = a" "h_path (mk_request a p b) = p" "h_body (mk_request a p b) = map_option stringify b"
  by (simp_all add: mk_request_def)

lemma request_routed:
  assumes "sent c = Some req" "sendable c" "sv_console (sc_server svc) \<noteq> None"
  shows "route_call svc dl req = Some (meant dl c (go_request_of dl req))"
proof (cases c)
  case (Revoke mc)
  with assms(1) obtain p where p: "revoke_path mc = Some p" "req = mk_request (js ''DELETE'') p None" by auto
  with revoke_target [OF p(1)] assms(2) Revoke show ?thesis
    by (simp add: route_call_def find_route_eval call_of_def Let_def)
next
  case (AskResolve user)
  with assms(1) obtain e where e: "encodeURIComponent user = Some e"
    and req: "req = mk_request (js ''GET'') (js ''/v1/groups/resolve?user='' @ e) None"
    by (auto simp: resolve_path_def)
  have chars: "query_text e" using encoded_chars [OF e] by (auto simp: query_text_def)
  have "unescape e = Some user"
    using unescape_encoded [OF e] assms(2) AskResolve by (simp add: json_text_def list_all_iff)
  with chars have query: "parse_query (js ''user'' @ 61 # e) = [(js ''user'', user)]"
    using parse_query_join [of "[(js ''user'', e)]" "[(js ''user'', user)]"] word_query [of "''user''"] by simp
  have path: "h_path req = literal [''v1'', ''groups'', ''resolve''] @ 63 # js ''user'' @ 61 # e" by (simp add: req literal_paths)
  have "35 \<notin> set (63 # js ''user'' @ 61 # e)" using query_text_chars [OF chars, of 35] by (simp add: js_def)
  note routed = route_literal [OF path _ _ this]
  show ?thesis
    using routed(1) [of svc dl] routed(2) query by (simp add: AskResolve req find_route_eval call_of_def)
next
  case (AskAudit before)
  let ?q = "join [38] (map (\<lambda>(k, v). k @ 61 # v) (audit_params before))"
  have req: "req = mk_request (js ''GET'') (audit_path before) None" using assms(1) AskAudit by simp
  then have path: "h_path req = literal [''v1'', ''audit''] @ 63 # ?q" by (simp add: audit_path_def literal_paths)
  have ok: "\<forall>b. before = Some b \<longrightarrow> 0 \<le> b" using assms(2) AskAudit by simp
  have "35 \<notin> set (63 # ?q)" using audit_query(2) [OF ok] by simp
  note routed = route_literal [OF path _ _ this]
  show ?thesis
    using routed(1) [of svc dl] routed(2) audit_query(1) [OF ok] by (simp add: AskAudit req find_route_eval call_of_def)
next
  case AskRecent
  let ?q = "js ''limit'' @ 61 # js ''5''"
  have req: "req = mk_request (js ''GET'') (js ''/v1/audit?limit=5'') None" using assms(1) AskRecent by simp
  then have path: "h_path req = literal [''v1'', ''audit''] @ 63 # ?q" by (simp add: literal_def js_def)
  have "\<forall>c \<in> set (js ''5''). is_digit c" by (simp add: js_def is_digit_def)
  from digits_plain [OF this] have query: "parse_query ?q = [(js ''limit'', js ''5'')]"
    using parse_query_join [of "[(js ''limit'', js ''5'')]" "[(js ''limit'', js ''5'')]"] word_query [of "''limit''"] by simp
  have "35 \<notin> set (63 # ?q)" by (simp add: js_def)
  note routed = route_literal [OF path _ _ this]
  show ?thesis
    using routed(1) [of svc dl] routed(2) query by (simp add: AskRecent req find_route_eval call_of_def)
qed (use assms in \<open>auto simp: route_plain [OF trans [OF mk_request_fields(2) literal_paths(1)]]
      route_plain [OF trans [OF mk_request_fields(2) literal_paths(2)]] route_plain [OF trans [OF mk_request_fields(2) literal_paths(3)]]
      route_plain [OF trans [OF mk_request_fields(2) literal_paths(4)]] route_plain [OF trans [OF mk_request_fields(2) literal_paths(5)]]
      route_plain [OF trans [OF mk_request_fields(2) literal_paths(6)]] find_route_eval call_of_def input_of_body\<close>)

text \<open>C14. The console and the control plane agree on the protocol: on a control plane that has a console, every
  request a screen sends (a body within the size limit of its handler, a machine id that is not empty
  and no dot segment) is routed to the handler it is for, with the machine, user, page or body the screen put into it, whatever characters
  they hold; of a body only surrogates without a partner arrive changed, as U+FFFD.\<close>

theorem console_requests_routed:
  assumes "sent c = Some req" "sendable c" "sv_console (sc_server svc) \<noteq> None"
  shows "route_call svc dl req = Some (meant dl c (go_request_of dl req))"
  by (rule request_routed [OF assms])

text \<open>Text that is well-formed Unicode arrives as it was sent.\<close>

lemma go_text_same: "json_text s \<Longrightarrow> \<forall>p \<in> set (code_points s). is_scalar p \<Longrightarrow> go_text s = s"
proof -
  assume "json_text s" "\<forall>p \<in> set (code_points s). is_scalar p"
  then have "go_text s = concat (map units_of (code_points s))"
    unfolding go_text_def by (intro arg_cong [where f = concat] map_cong) auto
  with \<open>json_text s\<close> show "go_text s = s" by (simp add: units_code_points json_text_def list_all_iff)
qed

definition quiet_delivery :: delivery where
  "quiet_delivery =
     \<lparr>dl_origin = [], dl_cookie = None, dl_secret = [], dl_explain = (\<lambda>s. []), dl_reason = (\<lambda>n. [])\<rparr>"

definition open_service :: service where
  "open_service =
     \<lparr>sc_server = \<lparr>sv_hash = (\<lambda>s. s), sv_quote = (\<lambda>s. s), sv_time = show_int, sv_rfc3339 = show_int, sv_adminTokens = [], sv_scimToken = [],
        sv_keyId = None, sv_console = Some \<lparr>cc_origin = [], cc_group = js ''admins'', cc_absolute = hour, cc_idle = hour\<rparr>\<rparr>,
      sc_validator = None, sc_say = (\<lambda>e. []), sc_fraction = (\<lambda>f u s. f * u div s), sc_lower = (\<lambda>s. s), sc_publicKey = []\<rparr>"

theorem console_requests_routed_witness:
  "route_call open_service quiet_delivery (mk_request (js ''DELETE'') (js ''/v1/machines/m%201'') None) =
     Some (Administer (go_request_of quiet_delivery (mk_request (js ''DELETE'') (js ''/v1/machines/m%201'') None)) (RevokeMachine (js ''m 1'')))"
proof -
  have "sent (Revoke sample_machine) = Some (mk_request (js ''DELETE'') (js ''/v1/machines/m%201'') None)"
    by (simp add: sample_path)
  moreover have "sendable (Revoke sample_machine)" "sv_console (sc_server open_service) \<noteq> None"
    by (simp_all add: sample_machine_def json_text_def js_def open_service_def)
  ultimately show ?thesis using console_requests_routed [of "Revoke sample_machine"] by (simp add: sample_machine_def)
qed

end
