(* ===== verification/EndToEnd.thy ===== *)
theory EndToEnd
  imports ControlPlane Routes Session
begin

text \<open>
  The console and the control plane together: a click in a screen, the request it sends, the route
  and the handler that take it, the store it changes, the machines that see the change, and what the
  console shows of the answer.
\<close>

section \<open>A policy from the draft to the machines\<close>

lemma decode_body_input: "decode reader (body_input dl v) = Inr x \<longleftrightarrow> reader (go_json v) = Some x"
  by (simp add: decode_def body_input_def split: option.splits)

text \<open>C3. The policy an operator reviewed is the policy in force: when the request of a click on Apply
  (its body within the size limit of the handler, the console configured) is answered with success,
  what the machines compile is the text of a draft that passed review in this form, parsed, read as a
  rule set, and found valid by the control plane's check; at once, and from then on, whatever requests follow, for as long as none of them is another accepted policy.\<close>

theorem reviewed_policy_enforced:
  assumes "trace (form_step cm parse yaml) (form_init yaml cur loaded) (es @ [ClickApply]) u"
    and "trace (serve_step svc) NewMemory reqs m" "well_configured (sc_server svc)" "sv_console (sc_server svc) \<noteq> None"
    and "sent (ApplyRevision (last (nr_posts u))) = Some req" "sendable (ApplyRevision (last (nr_posts u)))"
    and "route_call svc dl req = Some c" "serve svc now c m = (res, m')" "rs_status res < 300"
  shows "\<exists>draft policy rs. parsePolicy parse draft = ParsedOk policy \<and> (draft, policy) \<in> set (nr_reviews u) \<and>
    last (nr_posts u) = policy \<and> read_rule_set (go_json policy) = Some rs \<and> rs_version rs \<notin> m_versions m \<and>
    (case sc_validator svc of None \<Rightarrow> True | Some check \<Rightarrow> valid_policy check rs) \<and> enforced (sc_server svc) rs m' \<and>
    (\<forall>later m''. trace (serve_step svc) m' later m'' \<and> policy_stands svc m' later \<longrightarrow> enforced (sc_server svc) rs m'')"
proof -
  from assms(1) obtain s where s: "trace (form_step cm parse yaml) (form_init yaml cur loaded) es s"
      "form_step cm parse yaml s ClickApply u"
    by (auto simp: trace_snoc)
  from apply_posts_reviewed [of cm parse yaml cur loaded es "[]" u] assms(1) obtain s' t draft where
    run: "trace (form_step cm parse yaml) (form_init yaml cur loaded) es s'" "form_step cm parse yaml s' ClickApply t"
    and post: "(draft, nr_review s') \<in> set (nr_reviews s')" "parsePolicy parse draft = ParsedOk (nr_review s')"
    by auto
  have "s' = s" using s(1) run(1) by (simp add: trace_guarded)
  with s(2) post have draft: "(draft, last (nr_posts u)) \<in> set (nr_reviews u)" "parsePolicy parse draft = ParsedOk (last (nr_posts u))"
    by (auto simp: guarded_def)
  let ?v = "last (nr_posts u)"
  have call: "c = Administer (go_request_of dl req) (PostRevision (body_input dl ?v))"
    using request_routed [OF assms(5,6,4), of dl] assms(7) by simp
  note served = assms(8) [unfolded call]
  obtain rs where rs: "decode read_rule_set (body_input dl ?v) = Inr rs" "rs_version rs \<notin> m_versions m" "current_rules m' = rs"
      "case sc_validator svc of None \<Rightarrow> True | Some check \<Rightarrow> valid_policy check rs"
    by (rule posted_current [OF assms(2,3) served assms(9)])
  have wf: "wf_revisions m1" if "trace (serve_step svc) m' later m1" for later m1
  proof -
    have "serve_step svc m (now, c) m'" by (simp add: serve_step_def assms(8) del: serve.simps)
    with assms(2) that have "trace (serve_step svc) NewMemory (reqs @ (now, c) # later) m1"
      unfolding trace_append trace_Cons_iff by blast
    then show ?thesis using served.reachable_inv [OF refl] by (simp add: wf_memory_def)
  qed
  have "enforced (sc_server svc) rs m1" if "trace (serve_step svc) m' later m1" "policy_stands svc m' later" for later m1
    using policy_stays [OF that wf [of "[]"] wf [OF that(1)]] current_enforced [OF _ decode_wf [OF rs(1)]] rs(3) by simp
  then have "enforced (sc_server svc) rs m' \<and>
      (\<forall>later m1. trace (serve_step svc) m' later m1 \<and> policy_stands svc m' later \<longrightarrow> enforced (sc_server svc) rs m1)"
    using current_enforced [OF rs(3) decode_wf [OF rs(1)]] by blast
  with draft rs(1,2,4) show ?thesis unfolding decode_body_input by blast
qed

section \<open>A revocation from the dialog to the machine\<close>

text \<open>C6. What the operator confirmed by typing the label is what happens: the DELETE request the dialog sends
  revokes the machine of the row and no other, and once it was answered that machine is refused for
  good, whatever anyone does in between, unless another machine enrols with a credential of the same
  hash; every other machine keeps its credential at that moment.\<close>

theorem typed_revocation_locks_out:
  assumes "trace (revoke_step mc) revoke_init es s" "revoke_step mc s ClickRevoke u" "machine_label mc \<noteq> []"
    and "trace (serve_step svc) NewMemory before m" "well_configured (sc_server svc)" "sv_console (sc_server svc) \<noteq> None"
    and "m_machines m (mc_id mc) = Some gm" "sent (Revoke mc) = Some req" "sendable (Revoke mc)"
    and "route_call svc dl req = Some c" "serve svc now c m = (res, m1)" "rs_status res = 204"
    and "trace (serve_step svc) m1 later m2"
    and "\<forall>t j secret body. (t, Enroll j secret body) \<in> set later \<longrightarrow> sv_hash (sc_server svc) secret \<noteq> gm_credentialHash gm"
  shows "TypeConfirm (machine_label mc) \<in> set es \<and> rk_paths u = rk_paths s @ [h_path req] \<and>
    (\<forall>i. i \<noteq> mc_id mc \<longrightarrow> m_machines m1 i = m_machines m i) \<and>
    (\<forall>r now' key answer. bearer (rq_authorization r) \<noteq> [] \<and>
       sv_hash (sc_server svc) (bearer (rq_authorization r)) = gm_credentialHash gm \<longrightarrow>
       serve svc now' (FetchBundle key answer r) m2 = (writeError 401 (js ''unauthorized''), m2))"
proof -
  have call: "c = Administer (go_request_of dl req) (RevokeMachine (mc_id mc))"
    using request_routed [OF assms(8,9,6), of dl] assms(10) by simp
  note served = assms(11) [unfolded call]
  have ok: "rs_status res < 300" using assms(12) by simp
  obtain p where p: "revoke_path mc = Some p" "h_path req = p" using assms(8) by auto
  have path: "rk_paths u = rk_paths s @ [p]" "rk_open s" "rk_confirm s = machine_label mc"
    using paths_change [OF assms(2)] assms(2) p(1) by (auto simp: click_revoke_iff start_revoke_def)
  have typed: "TypeConfirm (machine_label mc) \<in> set es"
    using confirm_typed [OF assms(1)] path(3) assms(3) by (auto simp: revoke_init_def)
  obtain actor m0 where run: "sessions_only m m0" "run_admin svc now (RevokeMachine (mc_id mc)) actor m0 = (res, m1)"
    using accepted_ran [OF assms(5) served ok] by blast
  then obtain e where "DeleteMachine now (mc_id mc) e m0 = Inr m1"
    using ok by (auto simp: deleteMachine_def split: sum.splits)
  then have "m_machines m1 = (m_machines m0)(mc_id mc := None)"
    by (auto simp: DeleteMachine_def appendAudit_def split: option.splits)
  then have "m_machines m1 i = m_machines m i" if "i \<noteq> mc_id mc" for i
    using that sessions_only_fields(4) [OF run(1)] by simp
  with typed path(1) p(2) revoked_stays_refused [OF assms(4,5,7) served assms(12-14)] show ?thesis by blast
qed

section \<open>The gate\<close>

text \<open>The cast of the answer of \<open>/console/api/me\<close> and the query of \<^verbatim>\<open>app.tsx\<close>.\<close>

definition field_string :: "json \<Rightarrow> string \<Rightarrow> jstr option" where
  "field_string d k = (case json_field d (js k) of Some (JStr s) \<Rightarrow> Some s | _ \<Rightarrow> None)"

definition as_me :: "json \<Rightarrow> me" where
  "as_me d =
     \<lparr>me_user = nullish (field_string d ''user'') [], me_expiresAt = nullish (field_string d ''expiresAt'') [],
      me_signingKeyId = field_string d ''signingKeyId''\<rparr>"

definition fetch_me :: "fetch \<Rightarrow> js_error + me" where
  "fetch_me fetch = (case api_get fetch (js ''/console/api/me'') of Inl e \<Rightarrow> Inl e | Inr d \<Rightarrow> Inr (as_me (nullish d JNull)))"

text \<open>The session a browser's cookie stands for while it is live, and whether there is group data at all.\<close>

definition signed_in :: "server \<Rightarrow> console_config \<Rightarrow> time \<Rightarrow> jstr option \<Rightarrow> memory \<Rightarrow> session option" where
  "signed_in sv c now cookie m =
     (case cookie of
        None \<Rightarrow> None
      | Some k \<Rightarrow>
          (if k = [] then None
           else (case m_sessions m (sv_hash sv k) of
             None \<Rightarrow> None | Some s \<Rightarrow> if live c now s then Some s else None)))"

definition group_data :: "memory \<Rightarrow> bool" where
  "group_data m \<longleftrightarrow> m_snapshots m \<noteq> [] \<or> sd_groups (m_scim m) \<noteq> []"

lemma Lookup_signed_in:
  assumes "cookie \<noteq> []"
  shows "(case fst (Lookup sv c now cookie m) of Inl e \<Rightarrow> signed_in sv c now (Some cookie) m = None
    | Inr s \<Rightarrow> \<exists>s0. signed_in sv c now (Some cookie) m = Some s0 \<and> se_user s = se_user s0)"
  using assms
  by (auto simp: Lookup_def Let_def SessionByHash_def signed_in_def live_iff split: sum.splits option.splits if_splits)

lemma Admin_answers:
  assumes "cc_group c \<noteq> []"
  shows "Admin c user m = (if \<not> group_data m then ErrNoGroupData else Admin_is (console_admin c user m))"
  using Admin_iff [OF assms, of user m]
  by (cases "Admin c user m")
    (auto simp: Admin_def group_data_def Let_def CurrentGroupSnapshot_def SCIMCounts_def split: sum.splits if_splits)

lemma consoleUser_answers:
  assumes "cc_group c \<noteq> []"
  shows "(case signed_in sv c now (rq_cookie r) m of
      None \<Rightarrow> (\<exists>e m1. consoleUser sv c now r m = (Inl e, m1) \<and> rs_status e = 401 \<and> (\<exists>t. rs_body e = Json_body (JObj [(js ''error'', JStr t)])))
    | Some s0 \<Rightarrow>
        if \<not> group_data m then (\<exists>m1. consoleUser sv c now r m =
          (Inl (writeError 503 (js ''console needs group data (SCIM or awd groups apply)'')), m1))
        else if console_admin c (se_user s0) m then (\<exists>s m1. consoleUser sv c now r m = (Inr s, m1) \<and> se_user s = se_user s0)
        else (\<exists>m1. consoleUser sv c now r m = (Inl (clearCookie sessionCookie (writeError 403 (js ''not a console admin''))), m1)))"
proof (cases "nullish (rq_cookie r) [] = []")
  case True
  then have "signed_in sv c now (rq_cookie r) m = None" by (cases "rq_cookie r") (auto simp: signed_in_def)
  with True show ?thesis by (simp add: consoleUser_def writeError_def writeJSON_def)
next
  case False
  then obtain cookie where cookie: "rq_cookie r = Some cookie" "cookie \<noteq> []" by (cases "rq_cookie r") auto
  obtain found m1 where look: "Lookup sv c now cookie m = (found, m1)" by fastforce
  note Admin_store [OF Lookup_store [OF look]]
  then have admin: "Admin c u m1 = (if \<not> group_data m then ErrNoGroupData else Admin_is (console_admin c u m))" for u
    by (simp add: Admin_answers [OF assms])
  from Lookup_signed_in [OF cookie(2), of sv c now m] look cookie admin show ?thesis
    by (cases found) (auto simp: consoleUser_def writeError_def writeJSON_def clearCookie_def)
qed

lemma fetch_me_refused:
  assumes "fetch (mk_request (js ''GET'') (js ''/console/api/me'') None) = Inr (http_answer dl e)"
    and "rs_body e = Json_body (JObj [(js ''error'', JStr t)])" "rs_status e \<ge> 300"
  shows "fetch_me fetch = Inl (ApiError (rs_status e) t)"
  using assms
  by (simp add: fetch_me_def api_get_def request_def http_answer_def res_ok_def Let_def api_error_def json_field_def)

lemma consoleMe_user:
  assumes "consoleUser sv c now r m = (Inr s, m1)"
  shows "\<exists>d. fst (consoleMe sv c now r m) = writeJSON 200 d \<and> as_me d =
    \<lparr>me_user = se_user s, me_expiresAt = sv_rfc3339 sv (ExpiresAt c s), me_signingKeyId = sv_keyId sv\<rparr>"
  using assms
  by (cases "sv_keyId sv") (auto simp: consoleMe_def as_me_def field_string_def json_field_def)

text \<open>C15. The gate of the console shows what the control plane knows of the session: the console, for the
  user of the cookie's session, exactly when that session is live and its user a console admin; the
  sign-in screen exactly when there is no live session; no access exactly when the user is known not
  to be an admin; and that the console is unavailable, with the server's reason, exactly when there is
  no group data to tell from.\<close>

theorem gate_agrees_with_server:
  assumes "sv_console (sc_server svc) = Some c" "cc_group c \<noteq> []"
  shows "case signed_in (sc_server svc) c now (dl_cookie dl) m of
      None \<Rightarrow> gate (settle_me q (fetch_me (server_fetch svc now dl other m))) = SignInScreen
    | Some s \<Rightarrow>
        if \<not> group_data m
        then gate (settle_me q (fetch_me (server_fetch svc now dl other m))) =
          Message (js ''Console unavailable'') (js ''console needs group data (SCIM or awd groups apply)'')
        else if console_admin c (se_user s) m
        then \<exists>who. gate (settle_me q (fetch_me (server_fetch svc now dl other m))) = ConsoleScreen who \<and> me_user who = se_user s \<and>
          me_signingKeyId who = sv_keyId (sc_server svc)
        else gate (settle_me q (fetch_me (server_fetch svc now dl other m))) =
          Message (js ''No access'') (js ''You are not a console admin.'')"
proof -
  let ?req = "mk_request (js ''GET'') (js ''/console/api/me'') None" and ?sv = "sc_server svc"
  let ?r = "go_request_of dl ?req" and ?f = "server_fetch svc now dl other m"
  have "route_call svc dl ?req = Some (Me ?r)"
    using request_routed [of AskMe ?req svc dl] assms(1) by simp
  then have answer: "?f ?req = Inr (http_answer dl (fst (consoleMe ?sv c now ?r m)))"
    by (simp add: server_fetch_def with_console_def assms(1))
  have cookie: "rq_cookie ?r = dl_cookie dl" by (simp add: go_request_of_def)
  note user = consoleUser_answers [OF assms(2), of ?sv now ?r m, unfolded cookie]
  have refused: "gate (settle_me q (fetch_me ?f)) = gate (settle_me q (Inl (ApiError (rs_status e) t)))"
    if "consoleUser ?sv c now ?r m = (Inl e, m1)" "rs_body e = Json_body (JObj [(js ''error'', JStr t)])" "rs_status e \<ge> 300"
    for e m1 t
    using fetch_me_refused [OF _ that(2,3), of ?f dl] answer that(1) by (simp add: consoleMe_def)
  have granted: "\<exists>who. gate (settle_me q (fetch_me ?f)) = ConsoleScreen who \<and> me_user who = se_user s \<and> me_signingKeyId who = sv_keyId ?sv"
    if me: "consoleUser ?sv c now ?r m = (Inr s, m1)" for s m1
  proof -
    obtain d where d: "fst (consoleMe ?sv c now ?r m) = writeJSON 200 d" "as_me d =
        \<lparr>me_user = se_user s, me_expiresAt = sv_rfc3339 ?sv (ExpiresAt c s), me_signingKeyId = sv_keyId ?sv\<rparr>"
      using consoleMe_user [OF me] by blast
    have "fetch_me ?f = Inr (as_me d)"
      by (simp add: fetch_me_def api_get_def request_def answer d(1) writeJSON_def http_answer_def res_ok_def)
    then show ?thesis by (simp add: gate_settled d(2))
  qed
  show ?thesis
  proof (cases "signed_in ?sv c now (dl_cookie dl) m")
    case None
    with user obtain e m1 t where "consoleUser ?sv c now ?r m = (Inl e, m1)" "rs_status e = 401"
      "rs_body e = Json_body (JObj [(js ''error'', JStr t)])" by auto
    from refused [OF this(1,3)] this(2) None show ?thesis by (simp add: gate_settled)
  next
    case (Some s0)
    consider (nodata) "\<not> group_data m" | (admin) "group_data m" "console_admin c (se_user s0) m"
      | (other) "group_data m" "\<not> console_admin c (se_user s0) m" by blast
    then show ?thesis
    proof cases
      case nodata
      with user Some obtain m1 where
        "consoleUser ?sv c now ?r m = (Inl (writeError 503 (js ''console needs group data (SCIM or awd groups apply)'')), m1)" by auto
      from refused [OF this] nodata Some show ?thesis by (simp add: gate_settled writeError_def writeJSON_def)
    next
      case admin
      with user Some obtain s m1 where "consoleUser ?sv c now ?r m = (Inr s, m1)" "se_user s = se_user s0" by auto
      from granted [OF this(1)] this(2) admin Some show ?thesis by simp
    next
      case other
      with user Some obtain m1 where
        "consoleUser ?sv c now ?r m = (Inl (clearCookie sessionCookie (writeError 403 (js ''not a console admin''))), m1)" by auto
      from refused [OF this] other Some show ?thesis by (simp add: gate_settled writeError_def writeJSON_def clearCookie_def)
    qed
  qed
qed

section \<open>A sample session\<close>

text \<open>Ann is provisioned as an admin and signs in; her browser then sends requests.\<close>

definition ann_scim :: scim_data where
  "ann_scim =
     \<lparr>sd_users = [(js ''1'', \<lparr>su_userName = js ''ann'', su_active = True, su_created = 0\<rparr>)],
      sd_groups = [(js ''g'', js ''admins'')], sd_members = [(js ''g'', [js ''1''])]\<rparr>"

definition ann_sign_in :: "(time \<times> call) list" where
  "ann_sign_in =
     [(1, Provision ann_scim),
      (2, Callback (js ''cookie'') (\<lambda>a code. Inr (js ''ann'')) [(js ''state'', js ''s''), (js ''code'', js ''x'')] sample_login)]"

definition ann_here :: "memory \<Rightarrow> bool" where
  "ann_here m \<longleftrightarrow> m_sessions m (js ''hcookie'') = Some ann_session \<and> m_scim m = ann_scim \<and> m_snapshots m = []"

definition sample_delivery :: delivery where
  "sample_delivery =
     \<lparr>dl_origin = js ''https://awd'', dl_cookie = Some (js ''cookie''), dl_secret = js ''s'', dl_explain = (\<lambda>s. []),
      dl_reason = (\<lambda>n. [])\<rparr>"

lemma ann_admin: "ann_here m \<Longrightarrow> Admin sample_console (js ''ann'') m = Admin_is True"
  by (simp add: ann_here_def Admin_def CurrentGroupSnapshot_def SCIMCounts_def SCIMGroupsFor_def ann_scim_def sample_console_def)

lemma ann_signs_in:
  assumes "m_sessions m = Map.empty" "m_snapshots m = []"
  obtains m' where "trace (serve_step sample_service) m ann_sign_in m'" "ann_here m'" "m_machines m' = m_machines m"
    "m_versions m' = m_versions m" "length (m_audit m') = Suc (length (m_audit m))"
proof -
  let ?m = "m\<lparr>m_scim := ann_scim\<rparr>"
  let ?q = "[(js ''state'', js ''s''), (js ''code'', js ''x'')]"
  have admin: "Admin sample_console (js ''ann'') ?m = Admin_is True"
    using assms(2) by (simp add: Admin_def CurrentGroupSnapshot_def SCIMCounts_def SCIMGroupsFor_def ann_scim_def sample_console_def)
  have q: "callback_query ?q ''state'' = js ''s''" "callback_query ?q ''error'' = []" "callback_query ?q ''code'' = js ''x''"
    by (simp_all add: callback_query_def)
  have attempt: "Option.bind (rq_attempt sample_login) DecodeAttempt = Some \<lparr>at_state = js ''s'', at_nonce = js ''n'', at_verifier = js ''v''\<rparr>"
    by (simp add: sample_login_def sample_attempt)
  let ?m1 = "?m\<lparr>m_sessions := [js ''hcookie'' \<mapsto> ann_session]\<rparr>"
  let ?m2 = "appendAudit 2 (go_event_of 2 (js ''ann'') ''console.login'' [] []) ?m1"
  have "snd (consoleCallback sample_server sample_console 2 (js ''cookie'') (\<lambda>a code. Inr (js ''ann'')) ?q sample_login ?m) = ?m2"
    using assms(1)
    by (simp add: consoleCallback_def answer_callback_def attempt q finish_login_def sign_in_def admin Create_def sample_cookie
        CreateSession_def RecordAudit_def validate_event_def go_event_of_def ann_session_def)
  then have "trace (serve_step sample_service) m ann_sign_in ?m2"
    by (simp add: ann_sign_in_def trace_Cons_iff serve_step_def with_console_def sample_service_def)
      (simp add: sample_server_def)
  moreover have "ann_here ?m2" using assms(2) by (simp add: ann_here_def appendAudit_def)
  ultimately show thesis using that by (auto simp: appendAudit_def)
qed

lemma ann_admitted:
  assumes "ann_here m" "rq_cookie r = Some (js ''cookie'')" "rq_authorization r = []" "rq_method r = js ''GET'' \<or> rq_origin r = js ''https://awd''"
  shows "serve sample_service 3 (Administer r c) m = run_admin sample_service 3 c (js ''ann'') m"
proof -
  have fields: "sc_server sample_service = sample_server" "sv_console sample_server = Some sample_console"
    by (simp_all add: sample_service_def sample_server_def)
  have "Lookup sample_server sample_console 3 (js ''cookie'') m = (Inr ann_session, m)"
    using assms(1)
    by (simp add: Lookup_def sample_cookie SessionByHash_def ExpiresAt_def ann_session_def sample_console_def hour_def minute_def ann_here_def)
  then have "consoleUser sample_server sample_console 3 r m = (Inr ann_session, m)"
    using assms(2) ann_admin [OF assms(1)] by (simp add: consoleUser_def ann_session_def)
  moreover have "sameOrigin sample_console r" using assms(4) by (auto simp: sameOrigin_def sample_console_def)
  ultimately show ?thesis
    using assms(3) by (simp add: requireAdmin_def fields consoleAdmin_def ann_session_def)
qed

lemma sample_sent [simp]: "rq_cookie (go_request_of sample_delivery req) = Some (js ''cookie'')"
  "rq_authorization (go_request_of sample_delivery req) = []"
  "rq_method (go_request_of sample_delivery req) = js ''GET'' \<or> rq_origin (go_request_of sample_delivery req) = js ''https://awd''
     \<or> h_method req = js ''HEAD''"
  by (auto simp: go_request_of_def sample_delivery_def)

theorem gate_agrees_with_server_witness:
  "\<exists>who m. trace (serve_step sample_service) NewMemory ann_sign_in m \<and> me_user who = js ''ann'' \<and>
     gate (settle_me fresh_me (fetch_me (server_fetch sample_service 3 sample_delivery (\<lambda>req. Inl (PlainError [])) m))) = ConsoleScreen who"
proof -
  obtain m where m: "trace (serve_step sample_service) NewMemory ann_sign_in m" "ann_here m"
    by (rule ann_signs_in [of NewMemory]) (simp_all add: NewMemory_def)
  have cfg: "sv_console (sc_server sample_service) = Some sample_console" "cc_group sample_console \<noteq> []"
    and sv: "sc_server sample_service = sample_server"
    by (simp_all add: sample_service_def sample_server_def sample_console_def)
  have "signed_in sample_server sample_console 3 (dl_cookie sample_delivery) m = Some ann_session"
    using m(2) by (simp add: signed_in_def sample_delivery_def sample_cookie ann_here_def live_def ann_session_def sample_console_def hour_def)
  moreover have "group_data m" using m(2) by (simp add: group_data_def ann_here_def ann_scim_def)
  moreover have "console_admin sample_console (se_user ann_session) m"
    using Admin_iff [OF cfg(2)] ann_admin [OF m(2)] by (simp add: ann_session_def)
  ultimately show ?thesis
    using gate_agrees_with_server [OF cfg, where now = 3 and dl = sample_delivery and m = m and q = fresh_me and
        other = "\<lambda>req. Inl (PlainError [])"] m(1)
    unfolding sv by (auto simp: ann_session_def)
qed

text \<open>The machine of \<open>sample_enrolled\<close> as the console lists it.\<close>

definition listed_machine :: machine where
  "listed_machine =
     \<lparr>mc_id = js ''m'', mc_user = js ''u'', mc_name = None, mc_os = None, mc_enrolledAt = [], mc_lastSeenAt = [],
      mc_lastBundleVersion = None, mc_lastKeyId = None\<rparr>"

lemma listed_path: "revoke_path listed_machine = Some (js ''/v1/machines/m'')" "machine_label listed_machine = js ''m''"
  by (simp_all add: revoke_path_def listed_machine_def machine_label_def or_else_def js_eval)

theorem typed_revocation_locks_out_witness:
  "\<exists>m m1 res c. m_machines m (js ''m'') = Some enrolled_machine \<and>
     route_call sample_service sample_delivery (mk_request (js ''DELETE'') (js ''/v1/machines/m'') None) = Some c \<and>
     serve sample_service 3 c m = (res, m1) \<and> rs_status res = 204 \<and>
     serve sample_service 4 (FetchBundle [] (\<lambda>b. noContent) (token_request\<lparr>rq_authorization := js ''Bearer c''\<rparr>)) m1 =
       (writeError 401 (js ''unauthorized''), m1)"
proof -
  let ?req = "mk_request (js ''DELETE'') (js ''/v1/machines/m'') None" and ?r = "token_request\<lparr>rq_authorization := js ''Bearer c''\<rparr>"
  obtain m0 where m0: "trace (serve_step sample_service) NewMemory
      [(1, Administer token_request (PostToken (js ''s'') token_body)), (2, Enroll (js ''m'') (js ''c'') join_body)] m0"
    "m_machines m0 (js ''m'') = Some enrolled_machine" "m_sessions m0 = Map.empty" "m_snapshots m0 = []"
    by (rule sample_enrolled)
  obtain m where m: "trace (serve_step sample_service) m0 ann_sign_in m" "ann_here m" "m_machines m = m_machines m0"
    by (rule ann_signs_in [OF m0(3,4)])
  have run: "trace (serve_step sample_service) NewMemory ([(1, Administer token_request (PostToken (js ''s'') token_body)),
      (2, Enroll (js ''m'') (js ''c'') join_body)] @ ann_sign_in) m"
    using m0(1) m(1) unfolding trace_append by blast
  have has: "m_machines m (mc_id listed_machine) = Some enrolled_machine" using m0(2) m(3) by (simp add: listed_machine_def)
  have on: "sv_console (sc_server sample_service) \<noteq> None" by (simp add: sample_service_def sample_server_def)
  have out: "sent (Revoke listed_machine) = Some ?req" "sendable (Revoke listed_machine)"
    by (simp_all add: listed_path, simp add: listed_machine_def json_text_def js_def)
  note call = request_routed [OF out on, of sample_delivery]
  obtain res m1 where served: "serve sample_service 3 (meant sample_delivery (Revoke listed_machine) (go_request_of sample_delivery ?req)) m
      = (res, m1)" by fastforce
  have origin: "rq_origin (go_request_of sample_delivery ?req) = js ''https://awd''"
    by (simp add: go_request_of_def sample_delivery_def)
  have revoked: "rs_status res = 204"
    using served ann_admitted [OF m(2), of "go_request_of sample_delivery ?req" "RevokeMachine (mc_id listed_machine)"] origin has
    by (auto simp: deleteMachine_def DeleteMachine_def validate_event_def go_event_of_def noContent_def split: if_splits)
  let ?s = "revoke_init\<lparr>rk_open := True, rk_confirm := js ''m''\<rparr>"
  have dialog: "trace (revoke_step listed_machine) revoke_init [OpenChange True, TypeConfirm (js ''m'')] ?s"
    "revoke_step listed_machine ?s ClickRevoke (start_revoke listed_machine ?s)" "machine_label listed_machine \<noteq> []"
    by (simp_all add: trace_Cons_iff revoke_step_iffs on_open_change_def click_revoke_iff listed_path)
      (simp_all add: revoke_init_def)
  have "trace (serve_step sample_service) m1 [] m1" by simp
  note typed_revocation_locks_out [OF dialog run sample_configured on has out call served revoked this]
  moreover have "bearer (rq_authorization ?r) = js ''c''" by (simp add: bearer_def js_def ascii_lower_def TrimSpace_def go_space_def)
  then have "bearer (rq_authorization ?r) \<noteq> []"
    "sv_hash (sc_server sample_service) (bearer (rq_authorization ?r)) = gm_credentialHash enrolled_machine"
    by (simp_all add: enrolled_machine_def sample_service_def sample_server_def)
  ultimately have "serve sample_service 4 (FetchBundle [] (\<lambda>b. noContent) ?r) m1 = (writeError 401 (js ''unauthorized''), m1)"
    by simp
  with has call served revoked show ?thesis by (auto simp: listed_machine_def)
qed

theorem reviewed_policy_enforced_witness:
  "\<exists>m m' rs. trace (serve_step sample_service) NewMemory ann_sign_in m \<and>
     read_rule_set (go_json (sample_version [97])) = Some rs \<and> enforced sample_server rs m' \<and>
     enforced sample_server rs (m'\<lparr>m_scim := ann_scim\<lparr>sd_members := []\<rparr>\<rparr>)"
proof -
  let ?v = "sample_version [97]" and ?req = "mk_request (js ''POST'') (js ''/v1/policy/revisions'') (Some (sample_version [97]))"
  obtain m where m: "trace (serve_step sample_service) NewMemory ann_sign_in m" "ann_here m" "m_versions m = {}"
    by (rule ann_signs_in [of NewMemory]) (simp_all add: NewMemory_def)
  have on: "sv_console (sc_server sample_service) \<noteq> None" and sv: "sc_server sample_service = sample_server"
    by (simp_all add: sample_service_def sample_server_def)
  let ?u = "fold (form_next sample_cm sample_reader version_text) [EditorReady, TypeDoc [[97]], ClickReview, ClickApply]
    (form_init version_text None True)"
  have form: "trace (form_step sample_cm sample_reader version_text) (form_init version_text None True)
      ([EditorReady, TypeDoc [[97]], ClickReview] @ [ClickApply]) ?u"
    by (simp add: form_eval)
  have last: "last (nr_posts ?u) = ?v" by (simp add: form_eval)
  have "stringify ?v = js ''{'' @ 34 # js ''version'' @ [34, 58, 34, 97, 34, 125]"
    by (simp add: sample_version_def stringify_def js_eval quote_with_def json_enc1_def is_hi_def is_lo_def units_of_def)
  then have "utf8_size (stringify ?v) \<le> 2 ^ 20" by (simp add: utf8_size_def js_eval)
  then have out: "sent (ApplyRevision (last (nr_posts ?u))) = Some ?req" "sendable (ApplyRevision (last (nr_posts ?u)))"
    unfolding last by (simp_all add: sample_version_def json_text_def js_eval)
  note call = request_routed [OF out on, of sample_delivery]
  obtain res m' where served: "serve sample_service 3 (meant sample_delivery (ApplyRevision (last (nr_posts ?u)))
      (go_request_of sample_delivery ?req)) m = (res, m')" by fastforce
  have origin: "rq_origin (go_request_of sample_delivery ?req) = js ''https://awd''"
    by (simp add: go_request_of_def sample_delivery_def)
  have same: "go_json ?v = ?v"
    by (simp add: sample_version_def go_text_def js_eval)
  have read: "read_rule_set ?v = Some (zero_rule_set\<lparr>rs_version := [97]\<rparr>)"
    by (simp add: sample_version_def read_rule_set_def read_struct_def read_go_string_def)
  then have "decode read_rule_set (body_input sample_delivery ?v) = Inr (zero_rule_set\<lparr>rs_version := [97]\<rparr>)"
    by (simp add: decode_body_input same)
  then have "rs_status res < 300"
    using served ann_admitted [OF m(2), of "go_request_of sample_delivery ?req" "PostRevision (body_input sample_delivery ?v)"]
      origin m(3) unfolding last
    by (auto simp: postRevision_def PutRuleSet_def Let_def writeJSON_def validate_event_def go_event_of_def sample_service_def)
  note enforced = reviewed_policy_enforced [OF form m(1) sample_configured on out call served this, unfolded last sv]
  have "trace (serve_step sample_service) m' [(4, Provision (ann_scim\<lparr>sd_members := []\<rparr>))] (m'\<lparr>m_scim := ann_scim\<lparr>sd_members := []\<rparr>\<rparr>)"
    "policy_stands sample_service m' [(4, Provision (ann_scim\<lparr>sd_members := []\<rparr>))]"
    by (simp_all add: trace_Cons_iff serve_step_def posts_policy_def)
  with enforced m(1) show ?thesis by blast
qed

end
