(* ===== verification/AuditTrail.thy ===== *)
theory AuditTrail
  imports EndToEnd
begin

text \<open>
  The audit screen against the running control plane: the pages it loads over HTTP while other
  requests are served, and what an operator who pages to the end has seen.
\<close>

section \<open>The log only grows\<close>

definition log_grows :: "memory \<Rightarrow> memory \<Rightarrow> bool" where
  "log_grows m m' \<longleftrightarrow> (\<exists>extra. m_audit m' = m_audit m @ extra)"

interpretation grows: store_relation log_grows "\<lambda>mc. True" True
proof unfold_locales
  show "log_grows m m" for m by (simp add: log_grows_def)
  show "log_grows a c" if "log_grows a b" "log_grows b c" for a b c
    using that by (auto simp: log_grows_def)
  show "log_grows m m'" if "store_step m op m'" for m op m'
    using step_log [OF that] by (auto simp: log_grows_def)
qed

lemma served_step:
  assumes "wf_memory m" "serve svc t c m = (res, m')"
  shows "wf_memory m'" "log_grows m m'"
  using driven_wf [OF driven.R_serve [of svc t c m res m'] assms(1)] grows.R_serve [of svc t c m res m'] assms(2)
  by auto

section \<open>A page over HTTP\<close>

text \<open>The log as the console's events, and the cast of an answer to them.\<close>

definition console_log :: "service \<Rightarrow> memory \<Rightarrow> audit_event list" where
  "console_log svc m = map (wire_event (sc_server svc)) (m_audit m)"

definition event_of :: "json \<Rightarrow> audit_event" where
  "event_of d =
     \<lparr>ae_id = (case json_field d (js ''id'') of Some (JNum l) \<Rightarrow> nullish (go_int l) 0 | _ \<Rightarrow> 0),
      ae_at = nullish (field_string d ''at'') [], ae_actor = nullish (field_string d ''actor'') [],
      ae_action = nullish (field_string d ''action'') [], ae_target = field_string d ''target'',
      ae_detail = json_field d (js ''detail'')\<rparr>"

definition fetchAuditPage :: "fetch \<Rightarrow> int option \<Rightarrow> js_error + audit_event list" where
  "fetchAuditPage fetch before =
     (case api_get fetch (audit_path before) of
        Inl e \<Rightarrow> Inl e
      | Inr d \<Rightarrow> Inr (case d of Some (JArr xs) \<Rightarrow> map event_of xs | _ \<Rightarrow> []))"

lemma event_of_json: "0 \<le> ae_id e \<Longrightarrow> ae_id e < 2 ^ 63 \<Longrightarrow> event_of (audit_event_json e) = e"
proof -
  assume i: "0 \<le> ae_id e" "ae_id e < 2 ^ 63"
  then have "go_int (show_int (ae_id e)) = Some (ae_id e)"
    using go_int_show_nat [of "nat (ae_id e)"] by (simp add: show_int_nonneg)
  then show ?thesis
    by (cases e; cases "ae_target e"; cases "ae_detail e")
      (auto simp: event_of_def audit_event_json_def json_field_def field_string_def num_def)
qed

text \<open>What the store holds after a request of the console.\<close>

definition after_fetch :: "service \<Rightarrow> time \<Rightarrow> delivery \<Rightarrow> http_request \<Rightarrow> memory \<Rightarrow> memory" where
  "after_fetch svc now dl req m = (case route_call svc dl req of None \<Rightarrow> m | Some c \<Rightarrow> snd (serve svc now c m))"

definition audit_request :: "int option \<Rightarrow> http_request" where
  "audit_request before = mk_request (js ''GET'') (audit_path before) None"

lemma after_fetch_step:
  assumes "wf_memory m"
  shows "wf_memory (after_fetch svc now dl req m)" "log_grows m (after_fetch svc now dl req m)"
  using assms served_step [OF assms] by (auto simp: after_fetch_def split: option.splits) (metis prod.collapse)+

lemma numbered_log_ids:
  assumes "wf_memory m" "length (m_audit m) < 2 ^ 63"
  shows "log_ids (console_log svc m)"
proof -
  have ids: "map ae_id (console_log svc m) = map (\<lambda>i. int i + 1) [0..<length (m_audit m)]"
    using assms(1) by (simp add: wf_memory_def numbered_def console_log_def wire_event_def comp_def)
  have "sorted_wrt (<) (map (\<lambda>i. int i + 1) [0..<n])" for n
    by (simp add: sorted_wrt_iff_nth_less)
  moreover have "0 < ae_id e \<and> ae_id e < 2 ^ 63" if "e \<in> set (console_log svc m)" for e
  proof -
    have "ae_id e \<in> set (map ae_id (console_log svc m))" using that by simp
    then show ?thesis using assms(2) unfolding ids by auto
  qed
  ultimately show ?thesis unfolding log_ids_def ids by blast
qed

lemma fetched_page:
  assumes "well_configured (sc_server svc)" "sv_console (sc_server svc) \<noteq> None" "\<forall>b. before = Some b \<longrightarrow> 0 \<le> b"
    and "wf_memory m" "length (m_audit m) < 2 ^ 63"
    and "fetchAuditPage (server_fetch svc now dl other m) before = Inr page"
  shows "fetch_page (console_log svc m) before = Some page"
proof -
  let ?req = "audit_request before" and ?r = "go_request_of dl (audit_request before)"
  let ?c = "Administer ?r (GetAudit (audit_params before))"
  obtain res m1 where run: "serve svc now ?c m = (res, m1)" by fastforce
  have "route_call svc dl ?req = Some ?c"
    using request_routed [of "AskAudit before" ?req svc dl] assms(2,3) by (simp add: audit_request_def)
  with run have answer: "server_fetch svc now dl other m (mk_request (js ''GET'') (audit_path before) None) = Inr (http_answer dl res)"
    by (simp add: server_fetch_def audit_request_def)
  from assms(6) obtain d where ok: "api_get (server_fetch svc now dl other m) (audit_path before) = Inr d"
    and page: "page = (case d of Some (JArr xs) \<Rightarrow> map event_of xs | _ \<Rightarrow> [])"
    by (auto simp: fetchAuditPage_def split: sum.splits)
  then have "rs_status res < 300"
    by (auto simp: api_get_def request_def answer http_answer_def res_ok_def Let_def split: if_splits)
  then obtain actor m0 where "sessions_only m m0" "run_admin svc now (GetAudit (audit_params before)) actor m0 = (res, m1)"
    using accepted_ran [OF assms(1) run] by blast
  then have audit: "serve_audit (sc_server svc) (audit_params before) actor m0 = (res, m1)" "m_audit m0 = m_audit m"
    using sessions_only_fields(9) by auto
  then obtain es where es: "getAudit (console_log svc m) (audit_params before) = AuditOk es"
      "res = writeJSON 200 (JArr (map audit_event_json es))"
    using \<open>rs_status res < 300\<close>
    by (auto simp: serve_audit_def console_log_def writeError_def writeJSON_def split: audit_response.splits)
  have log: "log_ids (console_log svc m)" by (rule numbered_log_ids [OF assms(4,5)])
  have "set es \<subseteq> set (console_log svc m)"
    using es(1) by (auto simp: getAudit_def Let_def audit_events_eq dest!: in_set_takeD split: list.splits option.splits if_splits)
  then have "0 \<le> ae_id e \<and> ae_id e < 2 ^ 63" if "e \<in> set es" for e
    using log that unfolding log_ids_def by (meson less_imp_le subsetD)
  then have "map event_of (map audit_event_json es) = es"
    unfolding map_map by (intro map_idI) (simp add: event_of_json)
  moreover have "page = map event_of (map audit_event_json es)"
    using ok page by (auto simp: api_get_def request_def answer es(2) writeJSON_def http_answer_def res_ok_def Let_def)
  ultimately show ?thesis by (simp add: fetch_page_def es(1))
qed

section \<open>Paging while the server runs\<close>

text \<open>The store and the pages loaded: other requests are served, or the operator loads an older page.\<close>

datatype trail_event = Meanwhile time call | LoadOlder time

inductive trail_step :: "service \<Rightarrow> delivery \<Rightarrow> fetch \<Rightarrow> memory \<times> audit_event list list \<Rightarrow> trail_event \<Rightarrow>
    memory \<times> audit_event list list \<Rightarrow> bool" for svc dl other where
  meanwhile: "trail_step svc dl other (m, pages) (Meanwhile t c) (snd (serve svc t c m), pages)"
| load_older: "next_param pages = Some b \<Longrightarrow> fetchAuditPage (server_fetch svc t dl other m) (Some b) = Inr page \<Longrightarrow>
    trail_step svc dl other (m, pages) (LoadOlder t) (after_fetch svc t dl (audit_request (Some b)) m, pages @ [page])"

inductive_cases trail_stepE: "trail_step svc dl other s e t"

lemma trail_step_store:
  assumes "trail_step svc dl other s e t" "wf_memory (fst s)"
  shows "wf_memory (fst t) \<and> log_grows (fst s) (fst t)"
  using assms(1)
proof (cases rule: trail_step.cases)
  case (meanwhile m pages u c)
  then show ?thesis using served_step [of m svc u c "fst (serve svc u c m)" "snd (serve svc u c m)"] assms(2) by simp
next
  case (load_older pages b u m page)
  then show ?thesis using after_fetch_step [of m svc u dl] assms(2) by simp
qed

lemma trail_store:
  "trace (trail_step svc dl other) s es t \<Longrightarrow> wf_memory (fst s) \<Longrightarrow> wf_memory (fst t) \<and> log_grows (fst s) (fst t)"
proof (induction rule: trace.induct)
  case (trace_Cons s e t es u)
  with trail_step_store [OF trace_Cons(1)] show ?case by (meson grows.R_trans)
qed (simp add: log_grows_def)

lemma paging_grows:
  assumes "paging_inv start (console_log svc m, pages)" "log_grows m m'" "log_ids (console_log svc m')"
  shows "paging_inv start (console_log svc m', pages)"
proof -
  obtain extra where "m_audit m' = m_audit m @ extra" using assms(2) by (auto simp: log_grows_def)
  with assms(1,3) show ?thesis by (auto simp: paging_inv_def console_log_def)
qed

lemma trail_paging:
  assumes "trace (trail_step svc dl other) (m, pages) es (m', pages')" "well_configured (sc_server svc)" "sv_console (sc_server svc) \<noteq> None"
    and "wf_memory m" "length (m_audit m') < 2 ^ 63" "paging_inv start (console_log svc m, pages)"
  shows "paging_inv start (console_log svc m', pages')"
  using assms(1,4,6)
proof (induction es arbitrary: m pages)
  case (Cons e es)
  from Cons.prems(1) obtain n mid where step: "trail_step svc dl other (m, pages) e (n, mid)"
    and rest: "trace (trail_step svc dl other) (n, mid) es (m', pages')" by (auto simp: trace_Cons_iff)
  have n: "wf_memory n" "log_grows m n" using trail_step_store [OF step] Cons.prems(2) by simp_all
  have "log_grows n m'" using trail_store [OF rest] n(1) by simp
  then have short: "length (m_audit n) < 2 ^ 63" "length (m_audit m) < 2 ^ 63"
    using assms(5) n(2) by (auto simp: log_grows_def)
  have grown: "paging_inv start (console_log svc n, pages)"
    by (rule paging_grows [OF Cons.prems(3) n(2) numbered_log_ids [OF n(1) short(1)]])
  have "paging_inv start (console_log svc n, mid)"
    using step
  proof (cases rule: trail_step.cases)
    case (load_older b t page)
    have "pages \<noteq> []" "last pages \<noteq> []" "b = ae_id (last (last pages))" using load_older(4)
      by (auto simp: next_param_def getNextPageParam_def PAGE_SIZE_def split: if_splits)
    then have "last (last pages) \<in> set (concat pages)" by (auto intro: bexI [of _ "last pages"])
    moreover have "set (concat pages) \<subseteq> set (console_log svc m)" "log_ids (console_log svc m)"
      using Cons.prems(3) by (auto simp: paging_inv_def dest!: in_set_takeD)
    ultimately have "0 \<le> b" using \<open>b = _\<close> unfolding log_ids_def by (meson less_imp_le subsetD)
    then have "fetch_page (console_log svc m) (Some b) = Some page"
      using fetched_page [OF assms(2,3) _ Cons.prems(2) short(2) load_older(5)] by simp
    from paging_step [OF Cons.prems(3) audit_step.older [OF load_older(4) this]]
    show ?thesis
      using paging_grows [OF _ n(2) numbered_log_ids [OF n(1) short(1)]] load_older(2,3) by simp
  qed (use grown in simp)
  with Cons.IH [OF rest n(1)] show ?case by simp
qed simp

section \<open>What the operator has seen\<close>

text \<open>C5. An operator who pages back on the audit screen sees what was done, all of it, once, and nothing else:
  the pages loaded over HTTP are the newest events of the log as it was when the screen opened,
  whatever is recorded while they are loaded, and once there is no older page they are that whole
  log, whose events are, one for one and in order, those of the writes the store had carried out.\<close>

theorem audit_trail_shown:
  assumes "trace (serve_step svc) NewMemory reqs m0" "well_configured (sc_server svc)" "sv_console (sc_server svc) \<noteq> None"
    and "fetchAuditPage (server_fetch svc now dl other m0) None = Inr first"
    and "trace (trail_step svc dl other) (after_fetch svc now dl (audit_request None) m0, [first]) es (m, pages)"
    and "length (m_audit m) < 2 ^ 63"
  shows "concat pages = take (50 * length pages) (rev (console_log svc m0)) \<and>
    (next_param pages = None \<longrightarrow> concat pages = rev (console_log svc m0)) \<and>
    (\<exists>ops. trace store_step NewMemory ops m0 \<and> map stripped (m_audit m0) = map stripped (concat (map op_events ops)))"
proof -
  let ?m1 = "after_fetch svc now dl (audit_request None) m0"
  have wf: "wf_memory m0" by (rule served.reachable_inv [OF refl assms(1)])
  note m1 = after_fetch_step [OF wf, of svc now dl "audit_request None"]
  have "log_grows ?m1 m" using trail_store [OF assms(5)] m1(1) by simp
  then have short: "length (m_audit ?m1) < 2 ^ 63" "length (m_audit m0) < 2 ^ 63"
    using assms(6) m1(2) by (auto simp: log_grows_def)
  have "fetch_page (console_log svc m0) None = Some first"
    by (rule fetched_page [OF assms(2,3) _ wf short(2) assms(4)]) simp
  then have "paging_inv (console_log svc m0) (console_log svc m0, [first])"
    using paging_init [OF numbered_log_ids [OF wf short(2), of svc]] by simp
  from paging_grows [OF this m1(2) numbered_log_ids [OF m1(1) short(1)]]
  have inv: "paging_inv (console_log svc m0) (console_log svc m, pages)"
    using trail_paging [OF assms(5,2,3) m1(1) assms(6)] by blast
  obtain ops where ops: "trace store_step NewMemory ops m0" using driven.R_served [OF assms(1)] by (auto simp: driven_def)
  then have "map stripped (m_audit m0) = map stripped (concat (map op_events ops))"
    using trace_log by (fastforce simp: NewMemory_def)
  with ops inv last_page_partial [OF inv] show ?thesis by (auto simp: paging_inv_def)
qed

theorem audit_trail_shown_witness:
  "\<exists>m first. trace (serve_step sample_service) NewMemory ann_sign_in m \<and>
     fetchAuditPage (server_fetch sample_service 3 sample_delivery (\<lambda>req. Inl (PlainError [])) m) None = Inr first \<and>
     first = take 50 (rev (console_log sample_service m))"
proof -
  let ?req = "audit_request None" and ?other = "\<lambda>req. Inl (PlainError [])"
  let ?r = "go_request_of sample_delivery ?req"
  obtain m where m: "trace (serve_step sample_service) NewMemory ann_sign_in m" "ann_here m"
    "length (m_audit m) = Suc (length (m_audit NewMemory))"
    by (rule ann_signs_in [of NewMemory]) (simp_all add: NewMemory_def)
  have on: "sv_console (sc_server sample_service) \<noteq> None" by (simp add: sample_service_def sample_server_def)
  have call: "route_call sample_service sample_delivery ?req = Some (Administer ?r (GetAudit (audit_params None)))"
    using request_routed [of "AskAudit None" ?req sample_service sample_delivery] on by (simp add: audit_request_def)
  have reads: "rq_method ?r = js ''GET''" by (simp add: go_request_of_def audit_request_def)
  obtain es where es: "getAudit (console_log sample_service m) (audit_params None) = AuditOk es"
    using fetch_first [of "console_log sample_service m"] by (auto simp: fetch_page_def split: audit_response.splits)
  then have served: "serve sample_service 3 (Administer ?r (GetAudit (audit_params None))) m = (writeJSON 200 (JArr (map audit_event_json es)), m)"
    using ann_admitted [OF m(2), of ?r "GetAudit (audit_params None)"] reads
    by (simp add: serve_audit_def console_log_def)
  then have "server_fetch sample_service 3 sample_delivery ?other m ?req = Inr (http_answer sample_delivery (writeJSON 200 (JArr (map audit_event_json es))))"
    by (simp add: server_fetch_def call)
  then obtain first where first: "fetchAuditPage (server_fetch sample_service 3 sample_delivery ?other m) None = Inr first"
    by (auto simp: fetchAuditPage_def api_get_def request_def audit_request_def writeJSON_def http_answer_def res_ok_def)
  have same: "after_fetch sample_service 3 sample_delivery ?req m = m" using served by (simp add: after_fetch_def call del: serve.simps)
  have none: "trace (trail_step sample_service sample_delivery ?other) (after_fetch sample_service 3 sample_delivery ?req m, [first]) [] (m, [first])"
    by (simp add: same)
  have short: "length (m_audit m) < 2 ^ 63" using m(3) by (simp add: NewMemory_def)
  have "concat [first] = take (50 * length [first]) (rev (console_log sample_service m))"
    by (rule audit_trail_shown [OF m(1) sample_configured on first none short, THEN conjunct1])
  then have "first = take 50 (rev (console_log sample_service m))" by (simp only: list.size concat.simps append_Nil2) simp
  with m(1) first show ?thesis by blast
qed

end
