(* ===== verification/Spec2Isabelle.thy ===== *)
theory Spec2Isabelle
  imports DocsWidgets SiteLinks SitePrimitives EditorView PolicyScreen MachinesScreen EnrollmentScreen AuditScreen OverviewScreen Theme WireTypes AuditTrail
begin

text \<open>
  Agentic Warden is a control plane that hands a policy for coding agents to the machines of an
  organisation. Its TypeScript is two programs, and this development models both: the marketing
  and documentation site (\<^verbatim>\<open>web/\<close>, a Next.js application) and the operator console
  (\<^verbatim>\<open>console/\<close>, a React application that the control plane serves and that talks to it over
  HTTP). Of the control plane itself, which is Go, the part the console and the machines talk to is
  here with its in-memory store (\<^verbatim>\<open>internal/handler\<close>, \<^verbatim>\<open>internal/console\<close>, \<^verbatim>\<open>internal/policy\<close>,
  \<^verbatim>\<open>internal/store/memory.go\<close>), so that what a screen promises can be stated of the data behind it.

  \<^bold>\<open>How the program is modelled.\<close> A JavaScript string is the list of its UTF-16 code units. A
  function of the source is a HOL function of the same name; what it throws is the \<open>Inl\<close> of a sum
  or \<open>None\<close>; a parameter stands for everything that is not in the repository (\<^verbatim>\<open>zod\<close>, \<^verbatim>\<open>yaml\<close>,
  \<^verbatim>\<open>diff\<close>, CodeMirror, \<^verbatim>\<open>marked\<close>, the Resend client, \<open>fetch\<close>, the clock, \<open>Intl\<close>, the collation of
  \<open>localeCompare\<close>, the Unicode tables). What a component renders is the tree of elements its JSX
  denotes. An interactive component is a state record, its events (the operator's actions, the
  answers of the control plane, the callbacks of the browser, in any order), a guard per event
  (which control is enabled, which request is under way) and the handler as a function of the
  state; the theory \<open>Transitions\<close> makes a step relation and its runs of these. A request that is
  under way, a clipboard write, a timer are part of the state, so their interleavings are runs.

  \<^bold>\<open>Foundations.\<close>
  \<^item> \<open>Prelude\<close>: strings and the string operations the source uses, numbers as text.
  \<^item> \<open>Unicode\<close>: code points, UTF-8, \<open>encodeURIComponent\<close>. The locale \<open>symbol_code\<close> is a code read
    symbol by symbol; it is interpreted by percent encoding, by HTML escaping and, through
    \<open>json_code\<close> of \<open>Json\<close>, by both spellings of JSON strings.
  \<^item> \<open>Json\<close>: JSON values, \<open>JSON.stringify\<close>, a reader of JSON text, and \<^verbatim>\<open>web/components/json-ld.tsx\<close>.
  \<^item> \<open>View\<close>: element trees, query results, and the contract \<open>query_panel\<close> of a panel that shows one.
  \<^item> \<open>Primitives\<close>: \<^verbatim>\<open>components/ui\<close> of both packages, and the tree a view becomes when they are put in
    (locales \<open>wrapper_library\<close>, \<open>dialog_library\<close>): what the other theories say of views holds of it.
    \<open>SitePrimitives\<close>: the site's components with their class names and variant tables; the locale
    \<open>only_styles\<close> shows that, classes aside, they put out what \<open>Primitives\<close> says.
  \<^item> \<open>Transitions\<close>: runs, and the contracts \<open>invariant_machine\<close>, \<open>refilled_machine\<close> (a
    measure that some steps fill up again), its instance \<open>terminating_machine\<close>, and \<open>single_flight\<close>.
    \<open>Confirmation\<close>: the abstract machine of a confirmation dialog and the refinement
    \<open>confirmed_requests\<close>, where an observer says of every event what it is for that machine.

  \<^bold>\<open>The site.\<close>
  \<^item> \<open>Env\<close>: \<^verbatim>\<open>lib/env.ts\<close>, \<^verbatim>\<open>lib/headers.ts\<close>, \<^verbatim>\<open>next.config.ts\<close>: which environments build, and
    the content security policy as browsers read it.
  \<^item> \<open>Content\<close>: the tables of \<^verbatim>\<open>content/\<close>. \<open>SitePages\<close>: every page, header and footer as element
    trees, the docs frame, the preview images; plan links fill in the plan. \<open>SiteLinks\<close>: the links of the
    components, in every state, and those the documentation writes in Markdown.
  \<^item> \<open>DocsParse\<close>, \<open>Paths\<close>, \<open>DocsNav\<close>, \<open>DocsRender\<close>: \<^verbatim>\<open>lib/docs.ts\<close> in the order of the file, with
    the part of \<^verbatim>\<open>node:path\<close> it uses: front matter, navigation, addresses, image paths, link
    rewriting, heading ids, code blocks, \<open>renderMarkdown\<close>. \<open>DocsWidgets\<close>: the two client components of the docs, the
    copy buttons and the menu.
  \<^item> \<open>DemoSchema\<close>, \<open>DemoSubmit\<close>, \<open>DemoForm\<close>: the demo request from the form through validation,
    the spam checks and the mail to the answer and the form that shows it. The locale \<open>zod\<close> states
    what the validation package documents; it is interpreted on a reference validator, and the
    lemmas inside show that any validator that keeps it accepts exactly the intended requests.
  \<^item> \<open>Seo\<close>: \<^verbatim>\<open>lib/seo.ts\<close>: metadata, \<^verbatim>\<open>robots.txt\<close>, site map, \<^verbatim>\<open>llms.txt\<close>, structured data.

  \<^bold>\<open>The console.\<close>
  \<^item> \<open>ConsoleApi\<close>: \<^verbatim>\<open>api.ts\<close> and \<^verbatim>\<open>types.ts\<close>, the one function every request goes through.
    \<open>ConsoleFormat\<close>: \<^verbatim>\<open>lib/format.ts\<close>. \<open>Theme\<close>: \<^verbatim>\<open>theme.ts\<close> and its button.
  \<^item> \<open>Session\<close>: \<^verbatim>\<open>app.tsx\<close>, \<^verbatim>\<open>router.tsx\<close>, \<^verbatim>\<open>sign-in.tsx\<close>: the gate in front of every screen, and
    the console while it runs: the queries the gate and the open page have mounted, what a failed one
    sets off, how long a chain of answers can be, and when a lost session is noticed.
  \<^item> \<open>PolicyEditor\<close>, \<open>EditorView\<close>: \<^verbatim>\<open>policy/\<close>: reading a policy, the lines of a change (locale
    \<open>line_diff\<close>), the editor's text and its error mark (locales \<open>code_editor\<close>, \<open>position_map\<close>).
  \<^item> \<open>PolicyScreen\<close>, \<open>MachinesScreen\<close>, \<open>EnrollmentScreen\<close>, \<open>AuditScreen\<close>, \<open>GroupsScreen\<close>,
    \<open>OverviewScreen\<close>: \<^verbatim>\<open>screens/\<close>, each with its queries, mutations and view. \<open>GroupsScreen\<close> has the
    locale \<open>collation\<close> for the order of names.
  \<^item> This theory: what holds across screens. Every panel of the console is a \<open>query_panel\<close>; the
    revision form and the revoke dialog are both \<open>confirmed_requests\<close>.

  \<^bold>\<open>The control plane.\<close> An operation of the store takes and returns the record \<open>memory\<close> or an error; a
  handler is a function from the request, the time and the store to an answer and the store.
  \<^item> \<open>Policy\<close>: \<^verbatim>\<open>internal/policy\<close>, \<^verbatim>\<open>internal/glob\<close>, \<^verbatim>\<open>internal/merge\<close>: which rules apply, how they are layered
    into the documents of a machine, and that restrictions survive. \<open>PolicyCheck\<close>: how a rule set is read
    from JSON, validated and written.
  \<^item> \<open>ControlStore\<close>: \<^verbatim>\<open>internal/store/memory.go\<close> and \<^verbatim>\<open>memory_console.go\<close>. \<open>StoreRuns\<close>: its runs, their
    invariant, the log of events, single-use tokens, and the locale \<open>machine_store\<close>, the contract of the
    registry of machines, interpreted on the store.
  \<^item> \<open>ControlAuth\<close>: bearer tokens, console sessions, the admin check, the callback of the sign-in;
    \<open>ControlAdmission\<close>: whom these guards admit, for how long, and who is given a session.
  \<^item> \<open>ControlHandlers\<close>: the handlers behind the guards. \<open>ControlServer\<close>: \<open>serve\<close>, one request to the
    control plane, with the locale \<open>store_relation\<close> for what every store operation keeps and so every run of
    requests keeps, with or without enrolling and posting a policy. \<open>ControlPlane\<close>: what holds of these runs.
  \<^item> \<open>WireTypes\<close>: the types of \<^verbatim>\<open>console/src/types.ts\<close> against the answers. \<open>Routes\<close>: the routing table
    and its matching, from a request of the browser to the call of a handler and back.
  \<^item> \<open>EndToEnd\<close>: from a click in a screen over HTTP to the store and what machines get. \<open>AuditTrail\<close>: the
    audit screen while the control plane goes on serving.

  \<^bold>\<open>Bounds and fuel.\<close> The reader of JSON text and the decoders take the length of the text as fuel;
  every symbol uses up at least one code unit, and the round-trip theorems say that this is enough.
  Relative times are computed over the rationals, which agrees with the source as long as the
  distance is below ten million days; beyond that the source's doubles may round differently.
  Event ids of the audit log are below \<open>2 ^ 63\<close>, as in the Go store, and exact also where JavaScript
  would round them (above \<open>2 ^ 53\<close>); the page size of 50 is the source's. The counters of the store do not
  wrap. JSON numbers are kept as their text. Go's decoder is the function \<open>go_json\<close> on a body that was
  read: only surrogates without a partner change.
  All other recursion is structural or has a measure, so every function of the model is total.

  \<^bold>\<open>What modelling showed.\<close> Each of these is a theorem: an extension that is a name of
  \<open>Object.prototype\<close> passes as an image type; heading ids can repeat
  (\<open>page_heading_ids_collide\<close>); the message after applying a policy can name another version
  (\<open>applied_message_can_mislead\<close>); re-seeding the draft counts as typing (\<open>reseed_counts_as_typing\<close>);
  a revoke dialog opened again after an answer is already armed (\<open>reopened_dialog_is_armed\<close>); a
  late clipboard write says Copied next to another token (\<open>late_copy_misleads\<close>); the error mark of
  the editor can stay on the wrong line (\<open>error_mark_can_be_stale\<close>); widening the window can leave
  the docs menu closed with nothing to open it (\<open>menu_lost_on_widening\<close>); a group snapshot with null
  for a member's groups is accepted and then breaks the type the console declares for it
  (\<open>null_member_breaks_type\<close>); a link of the documentation leads nowhere (\<open>repo_link_dead\<close>); a lost
  session is not noticed by a failed post (\<open>failed_post_unnoticed\<close>); and a session that is granted and
  refused in turn keeps the requests going without end (\<open>flapping_is_endless\<close>).

  \<^bold>\<open>Not modelled, and why.\<close> Styles and icons of pages and screens, and the class names of the
  console: they carry no behaviour (\<open>only_styles\<close> makes this precise for the site's components). The
  built bundle under \<^verbatim>\<open>internal/console/dist\<close>: generated from \<^verbatim>\<open>console/src\<close>. Tests and tool
  configuration. Third-party packages: parameters, or tags of the element trees. The Markdown parser
  in particular is a parameter: \<open>renderMarkdown\<close> is given the pieces it puts out. Drawing the
  preview images and mounting React. Loading the audit pages again when the window gets the focus;
  links written as raw HTML in a documentation page. Of the Go programs: the PostgreSQL store, the other implementation of the
  interface the in-memory one has; the SCIM endpoints, whose writes are one replacement of the SCIM data; rate
  limits, entity tags, signatures and key management, health checks, static files and the redirect to
  the identity provider; the sync agent, the wrapper and the policy helper, which are about processes
  and files. The exchange with the identity provider is a parameter.
\<close>

section \<open>The panels of the console\<close>

lemma alerts_card: "alerts [card title content] = alerts content"
  by (simp add: alerts_def card_def)

lemma one_alert:
  assumes "\<And>q. q_status q = Failed_query \<Longrightarrow> view q = [CardError (q_error q)]"
    and "alerts (view q) \<noteq> [] \<longleftrightarrow> q_status q = Failed_query"
  shows "length (alerts (view q)) = of_bool (q_status q = Failed_query)"
  using assms by (cases "q_status q = Failed_query") (auto simp: CardError_def alert_p_def alerts_def)

lemma alerts_one_failed:
  "wf_query rq \<Longrightarrow> length (alerts (policy_card rq)) = of_bool (q_status rq = Failed_query)"
  "wf_query mq \<Longrightarrow> length (alerts (machines_card key mq)) = of_bool (q_status mq = Failed_query)"
  "wf_query gq \<Longrightarrow> length (alerts (groups_card parse rtf now gq)) = of_bool (q_status gq = Failed_query)"
  "wf_query aq \<Longrightarrow> length (alerts (activity_card parse rtf now aq)) = of_bool (q_status aq = Failed_query)"
  by (rule one_alert [of policy_card], simp add: policy_card_def, erule policy_panel.alert_iff_error)
    (rule one_alert [of "machines_card key"], simp add: machines_card_def, erule machines_card_alert,
     rule one_alert [of "groups_card parse rtf now"], simp add: groups_card_def, erule groups_card_panel.alert_iff_error,
     rule one_alert [of "activity_card parse rtf now"], simp add: activity_card_def, erule activity_panel.alert_iff_error)

lemma alerts_Overview:
  "alerts [Overview parse rtf now who rq mq gq aq] =
     alerts (policy_card rq) @ alerts (machines_card (me_signingKeyId who) mq) @
     alerts (groups_card parse rtf now gq) @ alerts (activity_card parse rtf now aq)"
  by (simp add: Overview_def alerts_def card_def)

text \<open>C20. No panel of the console confuses a failure with emptiness: on every screen and on each card of
  the overview the error is shown exactly when the request failed, whatever older data is still
  there, and the text for nothing yet exactly when the request succeeded and there is nothing; the
  overview as a whole shows one alert per failed request.\<close>

theorem console_panels_honest:
  assumes "wf_query rq" "wf_query mq" "wf_query gq" "wf_query pq" "wf_query aq"
  shows "honest_panel (revisions_panel yaml expanded) [muted_p [Txt (js ''No revisions yet.'')]] (\<lambda>d. d = []) rq \<and>
    honest_panel (machines_panel parse rtf now who idle_dialogs) [muted_p [Txt (js ''No machines enrolled yet.'')]]
      (\<lambda>d. d = []) mq \<and>
    honest_panel (groups_panel parse rtf le now) no_groups (\<lambda>d. d = None) gq \<and>
    honest_panel (audit_panel parse rtf local lc now actor act) [muted_p [Txt (js ''No audit events'')]]
      (\<lambda>pages. filter_events lc actor act (concat pages) = []) pq \<and>
    honest_panel policy_card [muted_p [Txt (js ''No policy yet'')]] (\<lambda>d. d = []) rq \<and>
    honest_panel (groups_card parse rtf now) [muted_p [Txt (js ''No group data yet'')]] (\<lambda>d. d = None) gq \<and>
    honest_panel (activity_card parse rtf now) [muted_p [Txt (js ''No recent activity'')]] (\<lambda>d. d = []) aq \<and>
    length (alerts [Overview parse rtf now who rq mq gq aq]) =
      of_bool (q_status rq = Failed_query) + of_bool (q_status mq = Failed_query) +
      of_bool (q_status gq = Failed_query) + of_bool (q_status aq = Failed_query)"
  unfolding alerts_Overview length_append
  by (intro conjI revisions.honest machines.honest groups.honest audit.honest policy_panel.honest
      groups_card_panel.honest activity_panel.honest assms)
    (simp add: alerts_one_failed assms)

definition failed_with :: "'a option \<Rightarrow> 'a query" where
  "failed_with d = \<lparr>q_status = Failed_query, q_data = d, q_error = Some (ApiError 503 (js ''down''))\<rparr>"

theorem console_panels_honest_witness:
  "\<exists>who parse rtf. length (alerts [Overview parse rtf 0 who (failed_with (Some [])) (failed_with None)
      \<lparr>q_status = Success, q_data = Some None, q_error = None\<rparr> \<lparr>q_status = Pending, q_data = None, q_error = None\<rparr>]) = 2"
proof -
  have wf: "wf_query (failed_with (Some []) :: revision list query)" "wf_query (failed_with None :: machine list query)"
    "wf_query \<lparr>q_status = Success, q_data = Some (None :: groups_view option), q_error = None\<rparr>"
    "wf_query \<lparr>q_status = Pending, q_data = None :: audit_event list list option, q_error = None\<rparr>"
    "wf_query \<lparr>q_status = Pending, q_data = None :: audit_event list option, q_error = None\<rparr>"
    by (simp_all add: wf_query_def failed_with_def)
  show ?thesis
    using console_panels_honest [OF wf] by (auto simp: failed_with_def)
qed


section \<open>The dialogs of the console\<close>

text \<open>C7. Both dialogs refine the same specification, event by event: watched through its observer, every run
  of the revision form and of the revoke dialog is a run of the abstract confirmation machine. A value
  is on show only from a review of the draft it was read from, a path only while the label is typed;
  what was posted is exactly what was on show at the clicks, in order, and all but the last of it had
  been answered.\<close>

theorem dialogs_refine_confirmation:
  assumes "trace (form_step cm parse yaml) (form_init yaml cur loaded) es s"
    and "revoke_path m \<noteq> None" and "trace (revoke_step m) revoke_init fs r"
  shows "(let as = watch (form_observe parse) (form_next cm parse yaml) (form_init yaml cur loaded) es in
      trace confirm_step (form_abs (form_init yaml cur loaded)) as (form_abs s) \<and>
      nr_posts s = confirmed None as \<and> length (nr_posts s) \<le> count_answers as + 1) \<and>
    (let as = watch (revoke_observe m) (revoke_next m) revoke_init fs in
      trace confirm_step (revoke_abs m revoke_init) as (revoke_abs m r) \<and>
      rk_paths r = confirmed None as \<and> length (rk_paths r) \<le> count_answers as + 1)"
proof
  let ?i = "form_init yaml cur loaded"
  have "cf_shown (form_abs ?i) = None" "cf_sent (form_abs ?i) = []" "\<not> cf_flight (form_abs ?i)"
    by (simp_all add: form_abs_def form_init_def)
  note form_confirms.trace_simulates [OF assms(1)] form_confirms.sent_is_confirmed [OF assms(1) this]
  then show "let as = watch (form_observe parse) (form_next cm parse yaml) ?i es in
      trace confirm_step (form_abs ?i) as (form_abs s) \<and>
      nr_posts s = confirmed None as \<and> length (nr_posts s) \<le> count_answers as + 1"
    by (simp add: Let_def form_abs_def [of s])
next
  have "addressable_step m = revoke_step m"
    using assms(2) by (intro ext) (simp add: addressable_step_def)
  with assms(3) have run: "trace (addressable_step m) revoke_init fs r" by simp
  have "cf_shown (revoke_abs m revoke_init) = None" "cf_sent (revoke_abs m revoke_init) = []"
    "\<not> cf_flight (revoke_abs m revoke_init)"
    by (simp_all add: revoke_abs_def revoke_init_def)
  note revoke_confirms.trace_simulates [OF run] revoke_confirms.sent_is_confirmed [OF run this]
  then show "let as = watch (revoke_observe m) (revoke_next m) revoke_init fs in
      trace confirm_step (revoke_abs m revoke_init) as (revoke_abs m r) \<and>
      rk_paths r = confirmed None as \<and> length (rk_paths r) \<le> count_answers as + 1"
    by (simp add: Let_def revoke_abs_def [of m r])
qed

theorem dialogs_refine_confirmation_witness:
  "\<exists>s as. nr_posts s = [sample_version [97]] \<and> as = [Show (Some (sample_version [97])), Confirm] \<and>
     trace confirm_step (form_abs (form_init version_text None True)) as (form_abs s) \<and> nr_posts s = confirmed None as"
proof -
  let ?es = "[EditorReady, TypeDoc [[97]], ClickReview, ClickApply]"
  obtain s where s: "trace (form_step sample_cm sample_reader version_text) (form_init version_text None True) ?es s"
    "nr_posts s = [sample_version [97]]"
    by (simp add: form_eval)
  have "watch (form_observe sample_reader) (form_next sample_cm sample_reader version_text) (form_init version_text None True) ?es =
      [Show (Some (sample_version [97])), Confirm]"
    by (simp add: form_observe_def form_eval)
  moreover have "revoke_path sample_machine \<noteq> None" by (simp add: revoke_path_def sample_machine_def js_eval js_def)
  ultimately show ?thesis
    using dialogs_refine_confirmation [OF s(1) _ trace_Nil, of sample_machine] s(2) by (auto simp: Let_def)
qed

section \<open>What reaches the browser\<close>

lemma LineDiff_plain: "filter closing (subnodes (LineDiff d b a)) = []" "attr_values k [LineDiff d b a] =
    (if k = ''aria-label'' then [AS (js ''Changes'')] else [])"
proof -
  have "filter closing (concat (map subnodes (map (\<lambda>(m, l). El ''div'' [] [Txt (mark_text m @ l)]) rs))) = []" for rs
    by (induction rs) auto
  then show "filter closing (subnodes (LineDiff d b a)) = []" by (simp add: LineDiff_def)
  have "attr_values k (map (\<lambda>(m, l). El ''div'' [] [Txt (mark_text m @ l)]) rs) = []" for rs
    by (induction rs) auto
  then show "attr_values k [LineDiff d b a] = (if k = ''aria-label'' then [AS (js ''Changes'')] else [])"
    by (simp add: LineDiff_def)
qed

text \<open>The wrappers of both packages hand on what a view says: the document the browser gets has the
  links, the ids and the number of alerts of the view, for every view, and the site's class names
  change nothing else. Both dialogs have exactly one
  control that closes them, in every state, and the one button that can be disabled is disabled as
  long as its guard does not hold.\<close>

theorem document_of_view:
  "hrefs (map (render console_ui) v) = hrefs v \<and> ids (map (render console_ui) v) = ids v \<and>
   length (alerts (map (render console_ui) v)) = length (alerts v) \<and>
   hrefs (map (render site_ui) v) = hrefs v \<and> ids (map (render site_ui) v) = ids v \<and>
   length (alerts (map (render site_ui) v)) = length (alerts v) \<and>
   hrefs (map (render (styled_ui cn cva)) v) = hrefs v \<and> ids (map (render (styled_ui cn cva)) v) = ids v \<and>
   length (alerts (map (render (styled_ui cn cva)) v)) = length (alerts v) \<and>
   map unstyled (map (render (styled_ui cn cva)) v) = map unstyled (map (render site_ui) v) \<and>
   closers (map (render console_ui) [revoke_view m r]) = 1 \<and>
   attr_values ''disabled'' (map (render console_ui) [revoke_view m r]) =
     [AB (\<not> (rk_confirm r = machine_label m \<and> \<not> rk_pending r))] \<and>
   closers (map (render console_ui) (form_view d yaml s)) = 1 \<and>
   attr_values ''disabled'' (map (render console_ui) (form_view d yaml s)) = [AB (nr_pending s \<noteq> None)]"
proof (intro conjI)
  show "closers (map (render console_ui) [revoke_view m r]) = 1"
    unfolding console_dialogs.closers_rendered
    by (simp add: revoke_view_def Let_def alert_p_def flag_def)
  show "closers (map (render console_ui) (form_view d yaml s)) = 1"
    unfolding console_dialogs.closers_rendered
    by (simp add: form_view_def alert_p_def flag_def nodes_def LineDiff_plain)
  show "attr_values ''disabled'' (map (render console_ui) [revoke_view m r]) =
      [AB (\<not> (rk_confirm r = machine_label m \<and> \<not> rk_pending r))]"
    unfolding console_wrappers.attr_values_rendered [OF semantic_keys(4)]
    by (simp add: revoke_view_def Let_def alert_p_def)
  show "attr_values ''disabled'' (map (render console_ui) (form_view d yaml s)) = [AB (nr_pending s \<noteq> None)]"
    unfolding console_wrappers.attr_values_rendered [OF semantic_keys(4)]
    by (simp add: form_view_def alert_p_def attr_values_Cons [of _ "LineDiff _ _ _" "[_]"] LineDiff_plain split: option.split)
qed (simp_all only: rendered_keeps styled_keeps alerts_def site_styles.unstyled_rendered)

end
